(* ===== verification/Prelude.thy ===== *)
theory Prelude
  imports Main "HOL-Library.Word"
begin

unbundle bit_operations_syntax

text \<open>
  What every component of the development shares: the widths of the C types of the port
  (an ILP32 machine: \<open>int\<close>, \<open>long\<close> and pointers have 32 bits, a cell has four bytes), the
  C shift operators, the collections of rewrite rules that carry the component proofs, and
  generic facts on words, lists and maps.

  An address (a C \<open>char *\<close>) is an \<open>int\<close>: C gives no meaning to pointer arithmetic that
  leaves the address space, so addresses do not wrap. A \<open>long\<close> is a \<open>32 word\<close> and does
  wrap; a cast between the two is written out where the code has it.
\<close>

named_theorems mem_simps \<open>reading a location after writing one\<close>
named_theorems tag_simps \<open>descriptor tags as residues modulo four\<close>
named_theorems hdr_simps \<open>headers: their type, length and rounded length\<close>

type_synonym long = "32 word"
type_synonym byte = "8 word"
type_synonym addr = int

text \<open>The \<open>errno\<close> values the code names; \<open>NO_ERRORS\<close> is its own zero.\<close>

definition NO_ERRORS :: int where "NO_ERRORS = 0"
definition EINTR :: int where "EINTR = 4"
definition EAGAIN :: int where "EAGAIN = 11"
definition ENOMEM :: int where "ENOMEM = 12"
definition EINVAL :: int where "EINVAL = 22"
definition EDOM :: int where "EDOM = 33"

text \<open>The C operator \<open>>>\<close> on a signed \<open>long\<close>.\<close>

abbreviation sar :: "nat \<Rightarrow> long \<Rightarrow> long" where
  "sar n w \<equiv> signed_drop_bit n w"

subsection \<open>Words\<close>

lemma uint32_lt [simp]: "uint (w :: long) < 4294967296"
  using uint_bounded [of w] by simp

lemma uint32_le [simp]: "uint (w :: long) \<le> 4294967295"
  using uint32_lt [of w] by linarith

lemma take_bit32_uint [simp]: "take_bit 32 (uint (w :: long)) = uint w"
  by (simp add: take_bit_int_eq_self)

lemma three_and [tag_simps]: "uint (3 AND (w :: long)) = uint w mod 4"
proof -
  have "(3 :: long) = mask 2" by (simp add: mask_eq_exp_minus_1)
  then have "3 AND w = take_bit 2 w" by (simp only: take_bit_eq_mask and.commute)
  then show ?thesis
    by (simp only: unsigned_take_bit_eq) (simp add: take_bit_eq_mod)
qed

lemma three_and_eq:
  "3 AND (w :: long) = 0 \<longleftrightarrow> uint w mod 4 = 0"
  "3 AND (w :: long) = 1 \<longleftrightarrow> uint w mod 4 = 1"
  "3 AND (w :: long) = 2 \<longleftrightarrow> uint w mod 4 = 2"
  "3 AND (w :: long) = 3 \<longleftrightarrow> uint w mod 4 = 3"
  by (simp_all add: word_uint_eq_iff three_and)

lemma round_down4_mod:
  "0 \<le> x \<Longrightarrow> x < 4294967296 \<Longrightarrow> x div 4 * 4 mod 4294967296 = x div 4 * (4 :: int)"
  by simp

lemma minus_four_and: "uint ((- 4) AND (w :: long)) = uint w div 4 * 4"
proof -
  have "(- 4 :: long) = NOT (mask 2)"
    by (simp add: mask_eq_exp_minus_1 flip: minus_eq_not_minus_1)
  moreover have "NOT (mask 2) AND w = push_bit 2 (drop_bit 2 w)"
    by (intro bit_word_eqI) (auto simp: bit_simps not_less dest!: le_Suc_ex)
  ultimately have "(- 4) AND w = push_bit 2 (drop_bit 2 w)" by simp
  then have "uint ((- 4) AND w) = uint w div 4 * 4 mod 4294967296"
    by (simp only: unsigned_push_bit_eq unsigned_drop_bit_eq)
      (simp add: push_bit_eq_mult drop_bit_eq_div take_bit_eq_mod)
  moreover have "uint w div 4 * 4 mod 4294967296 = uint w div 4 * 4"
    by (rule round_down4_mod) simp_all
  ultimately show ?thesis by simp
qed

lemma sint_small: "uint (w :: long) < 2147483648 \<Longrightarrow> sint w = uint w"
  by (simp only: sint_uint) (simp add: signed_take_bit_eq_take_bit_minus bit_iff_odd take_bit_int_eq_self)

lemma sint_eq_0: "sint (w :: long) = 0 \<longleftrightarrow> w = 0"
  using uint_sint [of w] by (auto simp: word_uint_eq_iff sint_uint)

lemma sint_nonneg: "0 \<le> sint (w :: long) \<Longrightarrow> sint w = uint w"
  using uint_sint [of w] sint_lt [of w] by (simp add: take_bit_int_eq_self)

lemma uint_word_of_int_id:
  "0 \<le> a \<Longrightarrow> a < 4294967296 \<Longrightarrow> uint (word_of_int a :: long) = a"
  by (simp add: uint_word_of_int)

lemma uint_push_bit2: "uint (push_bit 2 (w :: long)) = 4 * uint w mod 4294967296"
  by (simp only: unsigned_push_bit_eq) (simp add: push_bit_eq_mult take_bit_eq_mod ac_simps)

lemma dvd4_less: "4 dvd i \<Longrightarrow> 4 dvd n \<Longrightarrow> i < n \<Longrightarrow> i + 4 \<le> (n :: int)"
  by presburger

end
