(* ===== verification/Filenames.thy ===== *)
theory Filenames
  imports Prelude
begin

text \<open>
  \<open>src/c/unix/misc.c\<close>: the expansion of \<open>~\<close>, \<open>~user\<close> and \<open>$variable\<close> at the start of a file
  name, and the driver loop of the virtual machine. A C string is the list of its bytes,
  without the terminating zero. The environment (\<open>getenv\<close>) and the password file
  (\<open>getpwnam\<close>, of which only the home directory is used) are parameters.
\<close>

subsection \<open>Expanding file names\<close>

definition USER_NAME_SIZE :: nat where "USER_NAME_SIZE = 256"

text \<open>The messages on \<open>stderr\<close> before a return of \<open>NULL\<close>.\<close>

datatype expand_error =
    UserNameTooLong nat | UnknownUser "byte list" | VariableTooLong nat | BufferTooSmall

text \<open>The loop that looks for the end of the user name, or of the variable's name.\<close>

fun scan_name :: "byte list \<Rightarrow> nat \<Rightarrow> nat option" where
  "scan_name [] i = Some i"
| "scan_name (c # p) i =
     (if c = 47 then Some i
      else if USER_NAME_SIZE - 2 < i then None
      else scan_name p (i + 1))"

text \<open>The bytes put into \<open>buffer\<close>, the terminating zero included.\<close>

definition fill_buffer :: "byte list option \<Rightarrow> byte list \<Rightarrow> nat \<Rightarrow> expand_error + byte list" where
  "fill_buffer dir name buffer_len =
     (case dir of
        Some d \<Rightarrow> if buffer_len < length name + length d + 1 then Inl BufferTooSmall
                  else Inr (d @ name @ [0])
      | None \<Rightarrow> if buffer_len < length name + 1 then Inl BufferTooSmall else Inr (name @ [0]))"

definition expand_file_name ::
  "(byte list \<Rightarrow> byte list option) \<Rightarrow> (byte list \<Rightarrow> byte list option) \<Rightarrow>
     byte list \<Rightarrow> nat \<Rightarrow> expand_error + byte list" where
  "expand_file_name getenv getpwnam name buffer_len =
     (case name of
        c # name1 \<Rightarrow>
          if c = 126
          then (if name1 = [] \<or> hd name1 = 47
                then fill_buffer (getenv [72, 79, 77, 69]) name1 buffer_len
                else case scan_name name1 0 of
                       None \<Rightarrow> Inl (UserNameTooLong (USER_NAME_SIZE - 3))
                     | Some i \<Rightarrow>
                         (case getpwnam (take i name1) of
                            None \<Rightarrow> Inl (UnknownUser (take i name1))
                          | Some dir \<Rightarrow> fill_buffer (Some dir) (drop i name1) buffer_len))
          else if c = 36
          then (case scan_name name1 0 of
                  None \<Rightarrow> Inl (VariableTooLong (USER_NAME_SIZE - 3))
                | Some i \<Rightarrow> fill_buffer (getenv (take i name1)) (drop i name1) buffer_len)
          else fill_buffer None name buffer_len
      | [] \<Rightarrow> fill_buffer None name buffer_len)"

lemma scan_name_eq:
  "i \<le> 255 \<Longrightarrow> scan_name p i =
     (let n = length (takeWhile (\<lambda>c. c \<noteq> 47) p)
      in if i + n \<le> 255 then Some (i + n) else None)"
  by (induction p i rule: scan_name.induct) (auto simp: USER_NAME_SIZE_def Let_def)

text \<open>
  Property C35. A file name that begins with a tilde and a user's name is expanded to that
  user's home directory followed by the rest of the name from the first slash on, when the
  user name has at most 255 characters (what fits the local array with its terminating
  zero), the user is known, and the result and its zero fit the buffer; each of these
  failing gives its own error.
\<close>

theorem expand_user:
  assumes "list_all (\<lambda>c. c \<noteq> 47) user" "user \<noteq> []" "rest = [] \<or> hd rest = 47"
  shows "expand_file_name getenv getpwnam (126 # user @ rest) buffer_len =
     (if 255 < length user then Inl (UserNameTooLong 253)
      else case getpwnam user of
             None \<Rightarrow> Inl (UnknownUser user)
           | Some dir \<Rightarrow> if buffer_len < length (dir @ rest @ [0]) then Inl BufferTooSmall
                         else Inr (dir @ rest @ [0]))"
proof -
  have "takeWhile (\<lambda>c. c \<noteq> 47) (user @ rest) = user"
    using assms(1,3) takeWhile_append2 [of user "\<lambda>c. c \<noteq> 47" rest] takeWhile_eq_Nil_iff [of "\<lambda>c. c \<noteq> 47" rest]
    by (simp add: list_all_iff)
  then have scan: "scan_name (user @ rest) 0 = (if length user \<le> 255 then Some (length user) else None)"
    by (simp only: scan_name_eq Let_def) simp
  have "\<not> (user @ rest = [] \<or> hd (user @ rest) = 47)" using assms(1,2) by (cases user) simp_all
  then have "expand_file_name getenv getpwnam (126 # user @ rest) buffer_len =
     (case scan_name (user @ rest) 0 of
        None \<Rightarrow> Inl (UserNameTooLong (USER_NAME_SIZE - 3))
      | Some i \<Rightarrow> (case getpwnam (take i (user @ rest)) of
           None \<Rightarrow> Inl (UnknownUser (take i (user @ rest)))
         | Some dir \<Rightarrow> fill_buffer (Some dir) (drop i (user @ rest)) buffer_len))"
    by (simp only: expand_file_name_def list.case if_True refl if_False)
  moreover have "take (length user) (user @ rest) = user" "drop (length user) (user @ rest) = rest"
    "USER_NAME_SIZE - 3 = 253" by (simp_all add: USER_NAME_SIZE_def)
  ultimately show ?thesis
    by (cases "length user \<le> 255"; cases "getpwnam user")
      (simp_all add: scan fill_buffer_def add.commute add.left_commute)
qed

lemma expand_user_witness:
  "expand_file_name (\<lambda>_. None) (\<lambda>u. if u = [107] then Some [47, 104] else None) [126, 107, 47, 120] 1024
     = Inr [47, 104, 47, 120, 0]"
  using expand_user [of "[107]" "[47, 120]" "\<lambda>_. None" "\<lambda>u. if u = [107] then Some [47, 104] else None" 1024]
  by simp

definition cstring :: "byte list \<Rightarrow> bool" where
  "cstring bs \<longleftrightarrow> list_all (\<lambda>c. c \<noteq> 0) bs"

definition fits :: "nat \<Rightarrow> byte list \<Rightarrow> bool" where
  "fits n buf \<longleftrightarrow> length buf \<le> n \<and> (\<exists>str. buf = str @ [0] \<and> cstring str)"

lemma cstring_drop: "cstring bs \<Longrightarrow> cstring (drop i bs)"
  by (auto simp: cstring_def list_all_iff dest: in_set_dropD)

lemma cstring_Cons: "cstring (c # bs) \<Longrightarrow> cstring bs"
  by (simp add: cstring_def)

lemma fill_buffer_fits:
  "fill_buffer dir n len = Inr buf \<Longrightarrow> cstring n \<Longrightarrow> \<forall>d. dir = Some d \<longrightarrow> cstring d \<Longrightarrow> fits len buf"
  by (auto simp: fill_buffer_def fits_def cstring_def split: option.splits if_splits)

text \<open>
  Property C32. Whatever the environment and the password file answer, a successful
  expansion never writes more than the length of the buffer, and what it writes is one
  terminated string.
\<close>

theorem expand_file_name_bounds:
  assumes "expand_file_name getenv getpwnam name buffer_len = Inr buf" "cstring name"
    and "\<forall>x d. getenv x = Some d \<or> getpwnam x = Some d \<longrightarrow> cstring d"
  shows "fits buffer_len buf"
  using assms unfolding expand_file_name_def
  by (auto split: list.splits if_splits option.splits
      elim!: fill_buffer_fits intro!: cstring_drop dest: cstring_Cons)

lemma expand_file_name_bounds_witness:
  "fits 4 [47, 104, 47, 0]"
  by (rule expand_file_name_bounds [of "\<lambda>x. if x = [72, 79, 77, 69] then Some [47, 104] else None" "\<lambda>_. None" "[126, 47]"])
    (simp_all add: expand_file_name_def fill_buffer_def cstring_def)

subsection \<open>The driver loop\<close>

text \<open>
  The virtual machine returns to \<open>TTrun_machine\<close> the procedure to call next, a null pointer
  when it is done; \<open>TTreturn_value\<close> is then the value. \<open>call\<close> stands for the call through the
  pointer; the loop may not end.
\<close>

partial_function (option) TTrun_machine ::
  "(addr \<Rightarrow> 'm \<Rightarrow> addr \<times> 'm) \<Rightarrow> ('m \<Rightarrow> long) \<Rightarrow> addr \<Rightarrow> 'm \<Rightarrow> (long \<times> 'm) option" where
  [code]: "TTrun_machine call TTreturn_value proc m =
     (if proc = 0 then Some (TTreturn_value m, m)
      else case call proc m of (proc1, m1) \<Rightarrow> TTrun_machine call TTreturn_value proc1 m1)"

declare TTrun_machine.simps [code]

end
