(* ===== verification/Files.thy ===== *)
theory Files
  imports Filenames
begin

text \<open>
  Opening and closing of streams (\<open>src/c/unix/io.c\<close>). \<open>getenv\<close> and \<open>getpwnam\<close>, which the
  expansion of a file name asks, and the C library's \<open>fopen\<close> and \<open>fclose\<close> are arguments.
\<close>

definition FILE_NAME_SIZE :: nat where "FILE_NAME_SIZE = 1024"

text \<open>\<open>fopen\<close> gives an error number or a stream; the result of opening is a stream or none, and the status.\<close>

definition ps_really_open_file ::
  "(byte list \<Rightarrow> byte list option) \<Rightarrow> (byte list \<Rightarrow> byte list option) \<Rightarrow>
   (byte list \<Rightarrow> byte \<Rightarrow> int + 'file) \<Rightarrow> byte list \<Rightarrow> byte \<Rightarrow> 'file option \<times> int" where
  "ps_really_open_file getenv getpwnam fopen filename mode =
     (case expand_file_name getenv getpwnam filename FILE_NAME_SIZE of
        Inl _ \<Rightarrow> (None, EDOM)
      | Inr expanded \<Rightarrow>
          (case fopen expanded mode of
             Inl errno \<Rightarrow> (None, errno)
           | Inr file \<Rightarrow> (Some file, NO_ERRORS)))"

definition ps_open_input_file where
  "ps_open_input_file getenv getpwnam fopen name = ps_really_open_file getenv getpwnam fopen name 114"

definition ps_open_output_file where
  "ps_open_output_file getenv getpwnam fopen name = ps_really_open_file getenv getpwnam fopen name 119"

text \<open>\<open>fclose\<close> gives its result and \<open>errno\<close>.\<close>

definition ps_close :: "int \<times> int \<Rightarrow> int" where
  "ps_close closed = (if fst closed = 0 then 0 else snd closed)"

end
