(* ===== verification/Memory.thy ===== *)
theory Memory
  imports Prelude
begin

text \<open>
  The store the C code works on: bytes at addresses, little-endian four-byte \<open>long\<close>s
  (\<open>*((long * ) a)\<close>), \<open>memcpy\<close>, and the byte reversal the image reader uses.
\<close>

type_synonym memory = "addr \<Rightarrow> byte"

definition load :: "memory \<Rightarrow> addr \<Rightarrow> long" where
  "load m a = ucast (m a) OR push_bit 8 (ucast (m (a + 1)))
      OR push_bit 16 (ucast (m (a + 2))) OR push_bit 24 (ucast (m (a + 3)))"

definition store :: "memory \<Rightarrow> addr \<Rightarrow> long \<Rightarrow> memory" where
  "store m a v = m(a := ucast v, a + 1 := ucast (drop_bit 8 v),
      a + 2 := ucast (drop_bit 16 v), a + 3 := ucast (drop_bit 24 v))"

text \<open>\<open>memcpy(dst, src, n)\<close> on regions that do not overlap.\<close>

definition memcpy :: "memory \<Rightarrow> addr \<Rightarrow> addr \<Rightarrow> int \<Rightarrow> memory" where
  "memcpy m dst src n = (\<lambda>a. if dst \<le> a \<and> a < dst + n then m (src + (a - dst)) else m a)"

text \<open>Writing a list of bytes, and reading a block.\<close>

fun store_bytes :: "memory \<Rightarrow> addr \<Rightarrow> byte list \<Rightarrow> memory" where
  "store_bytes m a [] = m"
| "store_bytes m a (b # bs) = store_bytes (m(a := b)) (a + 1) bs"

definition load_bytes :: "memory \<Rightarrow> addr \<Rightarrow> nat \<Rightarrow> byte list" where
  "load_bytes m a n = map (\<lambda>i. m (a + int i)) [0..<n]"

text \<open>Writing a row of cells.\<close>

fun store_cells :: "memory \<Rightarrow> addr \<Rightarrow> long list \<Rightarrow> memory" where
  "store_cells m a [] = m"
| "store_cells m a (v # vs) = store_cells (store m a v) (a + 4) vs"

text \<open>A C string: the bytes from an address up to the first zero byte; none, if there is no such byte.\<close>

partial_function (option) c_string :: "memory \<Rightarrow> addr \<Rightarrow> byte list option" where
  "c_string m a =
     (if m a = 0 then Some []
      else Option.bind (c_string m (a + 1)) (\<lambda>bs. Some (m a # bs)))"

declare c_string.simps [code]

lemma c_string_zero: "m a = 0 \<Longrightarrow> c_string m a = Some []"
  by (subst c_string.simps) simp

lemma c_string_eq:
  "(\<And>i. i < length bs \<Longrightarrow> m (a + int i) = bs ! i) \<Longrightarrow> m (a + int (length bs)) = 0 \<Longrightarrow>
     list_all (\<lambda>b. b \<noteq> 0) bs \<Longrightarrow> c_string m a = Some bs"
proof (induction bs arbitrary: a)
  case (Cons b bs)
  have "m a = b" using Cons.prems(1) [of 0] by simp
  moreover have "c_string m (a + 1) = Some bs"
  proof (rule Cons.IH)
    show "m (a + 1 + int i) = bs ! i" if "i < length bs" for i
      using Cons.prems(1) [of "Suc i"] that by (simp add: add.assoc)
    show "m (a + 1 + int (length bs)) = 0" using Cons.prems(2) by (simp add: add.assoc)
  qed (use Cons.prems(3) in simp)
  ultimately show ?case using Cons.prems(3) by (subst c_string.simps) simp
qed (simp add: c_string_zero)

subsection \<open>Loads and stores\<close>

lemma load_store_same [simp, mem_simps]: "load (store m a v) a = v"
proof (rule bit_word_eqI)
  fix n assume "n < LENGTH(32)"
  then consider "n < 8" | "8 \<le> n" "n < 16" | "16 \<le> n" "n < 24" | "24 \<le> n" "n < 32"
    by fastforce
  then show "bit (load (store m a v) a) n = bit v n"
    by cases (auto simp: load_def store_def bit_simps)
qed

lemma load_store_other [mem_simps]:
  "a + 4 \<le> b \<or> b + 4 \<le> a \<Longrightarrow> load (store m a v) b = load m b"
  by (auto simp: load_def store_def)

lemma store_byte_other [mem_simps]: "b < a \<or> a + 4 \<le> b \<Longrightarrow> store m a v b = m b"
  by (auto simp: store_def)

lemma load_cong:
  assumes "\<And>i. 0 \<le> i \<Longrightarrow> i < 4 \<Longrightarrow> m (a + i) = m' (b + i)"
  shows "load m a = load m' b"
  using assms [of 0] assms [of 1] assms [of 2] assms [of 3] by (simp add: load_def)

lemma load_byte:
  "ucast (load m a) = m a"
  "ucast (drop_bit 8 (load m a)) = m (a + 1)"
  "ucast (drop_bit 16 (load m a)) = m (a + 2)"
  "ucast (drop_bit 24 (load m a)) = m (a + 3)"
  by (rule bit_word_eqI, auto simp: load_def bit_simps dest: bit_imp_le_length)+

lemma store_load_id: "store m a (load m a) = m"
  using load_byte [of m a] by (auto simp: store_def fun_eq_iff)

lemma load_inj_byte:
  assumes "load m a = load m' b" "0 \<le> i" "i < 4"
  shows "m (a + i) = m' (b + i)"
proof -
  from assms(2,3) consider "i = 0" | "i = 1" | "i = 2" | "i = 3" by linarith
  then show ?thesis
    by cases (use load_byte [of m a] load_byte [of m' b] assms(1) in simp_all)
qed

subsection \<open>memcpy and byte blocks\<close>

lemma memcpy_outside [mem_simps]: "a < dst \<or> dst + n \<le> a \<Longrightarrow> memcpy m dst src n a = m a"
  by (auto simp: memcpy_def)

lemma memcpy_inside [mem_simps]: "0 \<le> i \<Longrightarrow> i < n \<Longrightarrow> memcpy m dst src n (dst + i) = m (src + i)"
  by (simp add: memcpy_def)

lemma load_memcpy_outside [mem_simps]:
  "a + 4 \<le> dst \<or> dst + n \<le> a \<Longrightarrow> load (memcpy m dst src n) a = load m a"
  by (rule load_cong) (auto simp: memcpy_def)

lemma load_memcpy_inside [mem_simps]:
  "0 \<le> i \<Longrightarrow> i + 4 \<le> n \<Longrightarrow> load (memcpy m dst src n) (dst + i) = load m (src + i)"
  by (rule load_cong) (auto simp: memcpy_def algebra_simps)

lemma store_bytes_outside [mem_simps]:
  "b < a \<or> a + int (length bs) \<le> b \<Longrightarrow> store_bytes m a bs b = m b"
  by (induction m a bs rule: store_bytes.induct) auto

lemma store_bytes_inside [mem_simps]:
  "i < length bs \<Longrightarrow> store_bytes m a bs (a + int i) = bs ! i"
proof (induction bs arbitrary: m a i)
  case Nil
  then show ?case by simp
next
  case (Cons b bs)
  show ?case
  proof (cases i)
    case 0
    then show ?thesis by (simp add: store_bytes_outside)
  next
    case (Suc j)
    then have "store_bytes (m(a := b)) (a + 1) bs (a + 1 + int j) = bs ! j"
      using Cons by simp
    then show ?thesis using Suc by (simp add: algebra_simps)
  qed
qed

lemma store_cells_outside [mem_simps]:
  "b < a \<or> a + 4 * int (length vs) \<le> b \<Longrightarrow> store_cells m a vs b = m b"
  by (induction m a vs rule: store_cells.induct) (auto simp: store_byte_other)

lemma load_store_cells_outside [mem_simps]:
  "b + 4 \<le> a \<or> a + 4 * int (length vs) \<le> b \<Longrightarrow> load (store_cells m a vs) b = load m b"
  by (rule load_cong) (auto simp: store_cells_outside)

lemma load_store_cells [mem_simps]:
  "i < length vs \<Longrightarrow> load (store_cells m a vs) (a + 4 * int i) = vs ! i"
proof (induction vs arbitrary: m a i)
  case (Cons v vs)
  show ?case
  proof (cases i)
    case 0
    then show ?thesis by (simp add: load_store_cells_outside)
  next
    case (Suc j)
    then have "load (store_cells (store m a v) (a + 4) vs) (a + 4 + 4 * int j) = vs ! j"
      using Cons by simp
    then show ?thesis using Suc by (simp add: algebra_simps)
  qed
qed simp

lemma store_cells_append:
  "store_cells m a (vs @ ws) = store_cells (store_cells m a vs) (a + 4 * int (length vs)) ws"
  by (induction m a vs rule: store_cells.induct) (simp_all add: algebra_simps)

lemma length_load_bytes [simp]: "length (load_bytes m a n) = n"
  by (simp add: load_bytes_def)

lemma load_store_bytes: "load_bytes (store_bytes m a bs) a (length bs) = bs"
  by (rule nth_equalityI) (simp_all add: load_bytes_def store_bytes_inside)

lemma load_bytes_cong:
  "(\<And>i. i < n \<Longrightarrow> m (a + int i) = m' (b + int i)) \<Longrightarrow> load_bytes m a n = load_bytes m' b n"
  by (simp add: load_bytes_def)

end
