(* ===== verification/Ps_Io.thy ===== *)
theory Ps_Io
  imports Memory
begin

text \<open>
  Buffered input and output (\<open>src/c/unix/io.c\<close> and the port macros of \<open>prescheme.h\<close>) over
  a model of the C library's streams. What the operating system will deliver is written
  down in advance: an input stream holds the bytes to come, with failed reads (and their
  \<open>errno\<close>) at the places where they happen; an output stream holds what will become of the
  next writes. The end of the list is the end of the file, or a device that accepts
  everything. \<open>EOF\<close> is \<open>- 1\<close>.
\<close>

subsection \<open>The C library's streams\<close>


datatype in_event = Byte byte | InError int

record istream =
  input :: "in_event list"
  ferror_in :: bool
  feof_in :: bool
  errno_in :: int

datatype out_event = Accept | OutError int nat \<comment> \<open>the error, and what was written before it\<close>

record ostream =
  written :: "byte list"
  script :: "out_event list"
  ferror_out :: bool
  errno_out :: int

definition clearerr :: "istream \<Rightarrow> istream" where
  "clearerr s = s\<lparr>ferror_in := False, feof_in := False\<rparr>"

definition clearerr_out :: "ostream \<Rightarrow> ostream" where
  "clearerr_out s = s\<lparr>ferror_out := False\<rparr>"

definition getc :: "istream \<Rightarrow> int \<times> istream" where
  "getc s = (case input s of
       [] \<Rightarrow> (- 1, s\<lparr>feof_in := True\<rparr>)
     | Byte b # r \<Rightarrow> (uint b, s\<lparr>input := r\<rparr>)
     | InError e # r \<Rightarrow> (- 1, s\<lparr>input := r, ferror_in := True, errno_in := e\<rparr>))"

definition ungetc :: "int \<Rightarrow> istream \<Rightarrow> istream" where
  "ungetc c s = s\<lparr>input := Byte (word_of_int c) # input s, feof_in := False\<rparr>"

fun fread :: "nat \<Rightarrow> istream \<Rightarrow> byte list \<times> istream" where
  "fread 0 s = ([], s)"
| "fread (Suc n) s = (case input s of
       [] \<Rightarrow> ([], s\<lparr>feof_in := True\<rparr>)
     | Byte b # r \<Rightarrow> (let (bs, s1) = fread n (s\<lparr>input := r\<rparr>) in (b # bs, s1))
     | InError e # r \<Rightarrow> ([], s\<lparr>input := r, ferror_in := True, errno_in := e\<rparr>))"

text \<open>Writing a row of bytes: how many were written. \<open>putc\<close> and \<open>fputs\<close> are cases of it.\<close>

definition fwrite :: "byte list \<Rightarrow> ostream \<Rightarrow> nat \<times> ostream" where
  "fwrite bs s = (if bs = [] then (0, s) else case script s of
       OutError e k # r \<Rightarrow>
         (min k (length bs - 1), s\<lparr>written := written s @ take (min k (length bs - 1)) bs,
            script := r, ferror_out := True, errno_out := e\<rparr>)
     | Accept # r \<Rightarrow> (length bs, s\<lparr>written := written s @ bs, script := r\<rparr>)
     | [] \<Rightarrow> (length bs, s\<lparr>written := written s @ bs\<rparr>))"

definition putc :: "byte \<Rightarrow> ostream \<Rightarrow> int \<times> ostream" where
  "putc ch s = (let (n, s1) = fwrite [ch] s in (if n = 1 then uint ch else - 1, s1))"

text \<open>\<open>fputs\<close> fails, whatever it wrote, when an error is met.\<close>

definition fputs :: "byte list \<Rightarrow> ostream \<Rightarrow> bool \<times> ostream" where
  "fputs bs s = (let (n, s1) = fwrite bs s in (n = length bs, s1))"

subsection \<open>Reading characters\<close>

lemma getc_length:
  "getc s = (c, s') \<Longrightarrow> length (input s') \<le> length (input s) \<and>
     (c \<noteq> - 1 \<or> ferror_in s' \<and> \<not> ferror_in s \<longrightarrow> length (input s') < length (input s))"
  by (auto simp: getc_def split: list.splits in_event.splits)

text \<open>\<open>read_char\<close>: the \<open>getc\<close> before it failed; as long as that was an interruption, try again.\<close>

function read_char :: "istream \<Rightarrow> int \<times> istream" where
  "read_char s =
     (if ferror_in s \<and> errno_in s = EINTR
      then let (result, s1) = getc (clearerr s)
           in if result \<noteq> - 1 then (result, s1) else read_char s1
      else (- 1, s))"
  by pat_completeness auto
termination
proof (relation "measure (\<lambda>s. 2 * length (input s) + (if ferror_in s then 1 else 0))", goal_cases)
  case (2 s x result s1)
  then show ?case
    using getc_length [of "clearerr s" result s1] by (auto simp: clearerr_def)
qed simp

declare read_char.simps [simp del]

definition READ_CHAR :: "istream \<Rightarrow> int \<times> istream" where
  "READ_CHAR s = (let (c, s1) = getc s in if c = - 1 then read_char s1 else (c, s1))"

text \<open>The character, then \<open>eofp\<close> and \<open>status\<close>.\<close>

definition ps_read_char :: "bool \<Rightarrow> istream \<Rightarrow> (byte \<times> bool \<times> int) \<times> istream" where
  "ps_read_char peekp s =
     (let (result, s1) = read_char s
      in if result \<noteq> - 1
         then ((word_of_int result, False, NO_ERRORS), if peekp then ungetc result s1 else s1)
         else let errorp = ferror_in s1; s2 = clearerr s1
              in if errorp then ((0, False, errno_in s2), s2) else ((0, True, NO_ERRORS), s2))"

definition PS_READ_CHAR :: "istream \<Rightarrow> (byte \<times> bool \<times> int) \<times> istream" where
  "PS_READ_CHAR s = (let (c, s1) = getc s
     in if c = - 1 then ps_read_char False s1 else ((word_of_int c, False, 0), s1))"

definition PS_PEEK_CHAR :: "istream \<Rightarrow> (byte \<times> bool \<times> int) \<times> istream" where
  "PS_PEEK_CHAR s = (let (c, s1) = getc s
     in if c = - 1 then ps_read_char True s1 else ((word_of_int c, False, 0), ungetc c s1))"

subsection \<open>Reading integers\<close>

lemma read_char_length:
  "read_char s = (c, s') \<Longrightarrow> length (input s') \<le> length (input s) \<and>
     (c \<noteq> - 1 \<longrightarrow> length (input s') < length (input s))"
proof (induction s arbitrary: c s' rule: read_char.induct)
  case (1 s)
  obtain r s1 where g: "getc (clearerr s) = (r, s1)" by (cases "getc (clearerr s)")
  have len: "length (input s1) \<le> length (input s)" "r \<noteq> - 1 \<Longrightarrow> length (input s1) < length (input s)"
    using getc_length [OF g] by (simp_all add: clearerr_def)
  show ?case
  proof (cases "ferror_in s \<and> errno_in s = EINTR")
    case True
    then have "read_char s = (if r \<noteq> - 1 then (r, s1) else read_char s1)"
      by (subst read_char.simps) (simp add: g)
    then show ?thesis using "1.prems" "1.IH" [OF True g [symmetric] refl, of c s'] len
      by (auto split: if_splits)
  next
    case False
    then show ?thesis using "1.prems" by (subst (asm) read_char.simps) auto
  qed
qed

lemma READ_CHAR_length:
  "READ_CHAR s = (c, s') \<Longrightarrow> c \<noteq> - 1 \<Longrightarrow> length (input s') < length (input s)"
  unfolding READ_CHAR_def
  by (cases "getc s") (use getc_length [of s] read_char_length in \<open>fastforce split: if_splits\<close>)

function skip_whitespace :: "istream \<Rightarrow> int \<times> istream" where
  "skip_whitespace s =
     (let (ch, s1) = READ_CHAR s
      in if ch = 32 \<or> ch = 9 \<or> ch = 10 then skip_whitespace s1 else (ch, s1))"
  by pat_completeness auto
termination
proof (relation "measure (\<lambda>s. length (input s))", goal_cases)
  case (2 s x ch s1)
  then show ?case using READ_CHAR_length [of s ch s1] by auto
qed simp

function read_digits :: "long \<Rightarrow> istream \<Rightarrow> long \<times> int \<times> istream" where
  "read_digits result s =
     (let (ch, s1) = READ_CHAR s
      in if ch < 48 \<or> 57 < ch then (result, ch, s1)
         else read_digits (10 * result + word_of_int (ch - 48)) s1)"
  by pat_completeness auto
termination
proof (relation "measure (\<lambda>(_, s). length (input s))", goal_cases)
  case (2 result s x ch s1)
  then show ?case using READ_CHAR_length [of s ch s1] by auto
qed simp

declare skip_whitespace.simps [simp del] read_digits.simps [simp del]

definition ps_read_integer :: "istream \<Rightarrow> (long \<times> bool \<times> int) \<times> istream" where
  "ps_read_integer s =
     (let (ch0, s0) = skip_whitespace s;
          negate = (ch0 = 45);
          (ch, s1) = (if negate then READ_CHAR s0 else (ch0, s0))
      in if ch < 48 \<or> 57 < ch
         then if ch \<noteq> - 1 then ((0, False, EINVAL), s1)
              else let errorp = ferror_in s1; s2 = clearerr s1
                   in if errorp then ((0, False, errno_in s2), s2) else ((0, True, 0), s2)
         else let (result, ch2, s2) = read_digits (word_of_int (ch - 48)) s1;
                  s3 = (if ch2 \<noteq> - 1 then ungetc ch2 s2 else s2)
              in ((if negate then - result else result, False, 0), s3))"

subsection \<open>Writing\<close>

lemma fwrite_length:
  "fwrite bs s = (n, s') \<Longrightarrow> length (script s') \<le> length (script s) \<and>
     (n \<noteq> length bs \<longrightarrow> length (script s') < length (script s))"
  by (auto simp: fwrite_def split: list.splits out_event.splits if_splits)

lemma uint_not_eof [simp]: "uint (w :: byte) \<noteq> - 1"
  using uint_ge_0 [of w] by linarith

lemma putc_length:
  "putc ch s = (c, s') \<Longrightarrow> c = - 1 \<Longrightarrow> length (script s') < length (script s)"
  unfolding putc_def
  by (cases "fwrite [ch] s") (use fwrite_length [of "[ch]" s] in \<open>auto split: if_splits\<close>)

function ps_write_char :: "byte \<Rightarrow> ostream \<Rightarrow> int \<times> ostream" where
  "ps_write_char ch s =
     (let s0 = clearerr_out s
      in if errno_out s0 \<noteq> EINTR then (errno_out s0, s0)
         else let (c, s1) = putc ch s0
              in if c \<noteq> - 1 then (0, s1) else ps_write_char ch s1)"
  by pat_completeness auto
termination
proof (relation "measure (\<lambda>(_, s). length (script s))", goal_cases)
  case (2 ch s s0 x c s1)
  then show ?case using putc_length [of ch s0 c s1] by (simp add: clearerr_out_def)
qed simp

declare ps_write_char.simps [simp del]

text \<open>The macros \<open>WRITE_CHAR\<close> and \<open>PS_WRITE_CHAR\<close> do the same.\<close>

definition WRITE_CHAR :: "byte \<Rightarrow> ostream \<Rightarrow> int \<times> ostream" where
  "WRITE_CHAR ch s = (let (c, s1) = putc ch s in if c \<noteq> - 1 then (0, s1) else ps_write_char ch s1)"

function write_integer :: "long \<Rightarrow> ostream \<Rightarrow> int \<times> ostream" where
  "write_integer n s =
     (if n = 0 then (0, s)
      else let (st, s1) = write_integer (n div 10) s
           in if st = 0 then WRITE_CHAR (ucast (n mod 10) + 48) s1 else (st, s1))"
  by pat_completeness auto
termination
  by (relation "measure (\<lambda>(n, _). unat n)") (simp_all add: unat_div div_less_dividend unat_gt_0)

declare write_integer.simps [simp del]

definition ps_write_integer :: "long \<Rightarrow> ostream \<Rightarrow> int \<times> ostream" where
  "ps_write_integer n s =
     (if n = 0 then WRITE_CHAR 48 s
      else if 0 <s n then write_integer n s
      else let (st, s1) = WRITE_CHAR 45 s
           in if st = 0 then write_integer (- n) s1 else (st, s1))"

function ps_write_string :: "byte list \<Rightarrow> ostream \<Rightarrow> int \<times> ostream" where
  "ps_write_string str s =
     (let (ok, s1) = fputs str s
      in if ok then (0, s1)
         else let s2 = clearerr_out s1
              in if errno_out s2 \<noteq> EINTR then (errno_out s2, s2) else ps_write_string str s2)"
  by pat_completeness auto
termination
  by (relation "measure (\<lambda>(_, s). length (script s))")
    (auto simp: fputs_def clearerr_out_def split: if_splits prod.splits dest: fwrite_length)

declare ps_write_string.simps [simp del]

subsection \<open>Blocks\<close>

text \<open>
  Every call of \<open>fread\<close> stores at \<open>buffer\<close>, the one after an interruption as well as the
  first, and every call of \<open>fwrite\<close> starts there.
\<close>

lemma fread_length:
  "fread n s = (bs, s') \<Longrightarrow> length bs \<le> n \<and>
     length (input s') + (if ferror_in s' \<and> \<not> ferror_in s then 1 else 0) \<le> length (input s)"
proof (induction n arbitrary: s bs s')
  case (Suc n)
  show ?case
  proof (cases "input s")
    case (Cons e r)
    show ?thesis
    proof (cases e)
      case (Byte b)
      obtain bs1 s1 where f: "fread n (s\<lparr>input := r\<rparr>) = (bs1, s1)"
        by (cases "fread n (s\<lparr>input := r\<rparr>)")
      with Suc.prems Cons Byte show ?thesis using Suc.IH [OF f] by (auto split: if_splits)
    qed (use Suc.prems Cons in auto)
  qed (use Suc.prems in auto)
qed simp

function read_block :: "nat \<Rightarrow> nat \<Rightarrow> byte list \<Rightarrow> istream \<Rightarrow> (nat \<times> byte list \<times> bool \<times> int) \<times> istream" where
  "read_block count got buffer s =
     (let (bs, s1) = fread (count - got) s;
          got1 = got + length bs;
          buffer1 = bs @ drop (length bs) buffer
      in if got1 = count then ((got1, buffer1, False, NO_ERRORS), s1)
         else if ferror_in s1 \<and> errno_in s1 = EINTR then read_block count got1 buffer1 (clearerr s1)
         else ((got1, buffer1, feof_in s1, if ferror_in s1 then errno_in (clearerr s1) else NO_ERRORS),
               clearerr s1))"
  by pat_completeness auto
termination
proof (relation "measure (\<lambda>(_, _, _, s). 2 * length (input s) + (if ferror_in s then 1 else 0))",
    goal_cases)
  case (2 count got buffer s x bs s1)
  then show ?case using fread_length [of "count - got" s bs s1]
    by (auto simp: clearerr_def split: if_splits)
qed simp

definition ps_read_block :: "nat \<Rightarrow> byte list \<Rightarrow> istream \<Rightarrow> (nat \<times> byte list \<times> bool \<times> int) \<times> istream" where
  "ps_read_block count buffer s = read_block count 0 buffer s"

lemma fwrite_error:
  "fwrite bs s = (n, s') \<Longrightarrow> ferror_out s' \<Longrightarrow>
     s' = s \<or> length (script s') \<le> length (script s) \<and> ferror_out s \<or> length (script s') < length (script s)"
  by (auto simp: fwrite_def split: list.splits out_event.splits if_splits)

function write_block :: "nat \<Rightarrow> nat \<Rightarrow> byte list \<Rightarrow> ostream \<Rightarrow> int \<times> ostream" where
  "write_block count sent buffer s =
     (let (n, s1) = fwrite (take (count - sent) buffer) s;
          sent1 = sent + n
      in if sent1 = count then (NO_ERRORS, s1)
         else if ferror_out s1 \<and> errno_out s1 = EINTR
              then write_block count sent1 buffer (clearerr_out s1)
         else (errno_out (clearerr_out s1), clearerr_out s1))"
  by pat_completeness auto
termination
proof (relation "measure (\<lambda>(_, _, _, s). 2 * length (script s) + (if ferror_out s then 1 else 0))",
    goal_cases)
  case (2 count sent buffer s x n s1)
  then show ?case using fwrite_error [of "take (count - sent) buffer" s n s1]
    by (auto simp: clearerr_out_def)
qed simp

definition ps_write_block :: "nat \<Rightarrow> byte list \<Rightarrow> ostream \<Rightarrow> int \<times> ostream" where
  "ps_write_block count buffer s = write_block count 0 buffer s"

declare read_block.simps [simp del] write_block.simps [simp del]

subsection \<open>Printing numbers, and the end of the program on an error\<close>

fun decimal :: "nat \<Rightarrow> byte list" where
  "decimal n = (if n < 10 then [48 + of_nat n] else decimal (n div 10) @ [48 + of_nat (n mod 10)])"

declare decimal.simps [simp del]

definition decimal_long :: "long \<Rightarrow> byte list" where
  "decimal_long n = (if n <s 0 then 45 # decimal (unat (- n)) else decimal (unat n))"

text \<open>What \<open>ps_error\<close> leaves on \<open>stderr\<close>, and its exit status.\<close>

definition ps_error :: "byte list \<Rightarrow> long list \<Rightarrow> byte list \<times> int" where
  "ps_error message irritants =
     (message @ concat (map (\<lambda>n. 32 # decimal_long n) irritants) @ [10], - 1)"

end
