(* ===== verification/Ps_Io_Facts.thy ===== *)
theory Ps_Io_Facts
  imports Ps_Io
begin

text \<open>
  What the buffered input and output of \<open>src/c/unix/io.c\<close> achieves. A stream is \<^emph>\<open>calm\<close> when
  interruptions are the only errors it meets. On calm streams the character and integer
  operations behave as if nothing had been interrupted, and integers survive the round
  trip; the block operations do not.
\<close>

subsection \<open>Calm streams\<close>

fun data :: "in_event list \<Rightarrow> byte list" where
  "data [] = []"
| "data (Byte b # r) = b # data r"
| "data (InError e # r) = data r"

fun calm_event :: "in_event \<Rightarrow> bool" where
  "calm_event (Byte b) = True"
| "calm_event (InError e) = (e = EINTR)"

fun calm_write :: "out_event \<Rightarrow> bool" where
  "calm_write Accept = True"
| "calm_write (OutError e k) = (e = EINTR)"

definition calm_in :: "istream \<Rightarrow> bool" where
  "calm_in s \<longleftrightarrow> list_all calm_event (input s) \<and>
     (ferror_in s \<longrightarrow> errno_in s = EINTR)"

definition calm_out :: "ostream \<Rightarrow> bool" where
  "calm_out s \<longleftrightarrow> list_all calm_write (script s)"

lemma calm_in_clearerr [simp]: "calm_in s \<Longrightarrow> calm_in (clearerr s)"
  by (simp add: calm_in_def clearerr_def)

lemma input_clearerr [simp]: "input (clearerr s) = input s" "ferror_in (clearerr s) = False"
  by (simp_all add: clearerr_def)

lemma input_ungetc [simp]: "input (ungetc c s) = Byte (word_of_int c) # input s"
  by (simp add: ungetc_def)

lemma calm_in_ungetc [simp]: "calm_in (ungetc c s) = calm_in s"
  by (simp add: calm_in_def ungetc_def)

text \<open>What one character taken from the data is.\<close>

definition next_char :: "istream \<Rightarrow> int \<Rightarrow> istream \<Rightarrow> bool" where
  "next_char s c s' \<longleftrightarrow> calm_in s' \<and>
     (case data (input s) of [] \<Rightarrow> c = - 1 \<and> input s' = [] \<and> \<not> ferror_in s'
      | b # r \<Rightarrow> c = uint b \<and> data (input s') = r)"

lemma getc_calm:
  assumes "calm_in s" "getc s = (c, s')"
  shows "calm_in s'"
    "c \<noteq> - 1 \<Longrightarrow> next_char s c s'"
    "c = - 1 \<Longrightarrow> data (input s') = data (input s) \<and> (input s' = [] \<or> ferror_in s')"
  using assms by (auto simp: getc_def calm_in_def next_char_def split: list.splits in_event.splits)

lemma read_char_calm:
  assumes "calm_in s" "input s = [] \<or> ferror_in s" "read_char s = (c, s')"
  shows "next_char s c s'"
  using assms
proof (induction s arbitrary: c s' rule: read_char.induct)
  case (1 s)
  obtain r s1 where g: "getc (clearerr s) = (r, s1)" by (cases "getc (clearerr s)")
  note calm = getc_calm [OF calm_in_clearerr [OF "1.prems"(1)] g]
  show ?case
  proof (cases "ferror_in s")
    case True
    then have e: "errno_in s = EINTR" using "1.prems" by (simp add: calm_in_def)
    show ?thesis
    proof (cases "r = - 1")
      case r: True
      then have "read_char s = read_char s1" by (subst read_char.simps) (simp add: True e g)
      then have "next_char s1 c s'"
        using "1.IH" [OF conjI [OF True e] g [symmetric] refl, of c s'] calm r "1.prems" by simp
      then show ?thesis using calm(3) [OF r] by (simp add: next_char_def)
    next
      case False
      then have "read_char s = (r, s1)" by (subst read_char.simps) (simp add: True e g)
      then show ?thesis using calm(2) [OF False] "1.prems" by (simp add: next_char_def)
    qed
  next
    case False
    then show ?thesis using "1.prems" by (subst (asm) read_char.simps) (auto simp: next_char_def)
  qed
qed

lemma READ_CHAR_calm:
  assumes "calm_in s"
  shows "next_char s (fst (READ_CHAR s)) (snd (READ_CHAR s))"
proof -
  obtain c s1 where g: "getc s = (c, s1)" by (cases "getc s")
  note calm = getc_calm [OF assms g]
  show ?thesis
  proof (cases "c = - 1")
    case True
    obtain d s2 where r: "read_char s1 = (d, s2)" by (cases "read_char s1")
    have "next_char s1 d s2" using calm(1) calm(3) [OF True] by (intro read_char_calm [OF _ _ r]) auto
    then show ?thesis using calm(3) [OF True] by (simp add: READ_CHAR_def g True r next_char_def)
  next
    case False
    then show ?thesis using calm(2) by (simp add: READ_CHAR_def g)
  qed
qed

text \<open>The two cases as rewrite rules.\<close>

lemma READ_CHAR_byte:
  assumes "calm_in s" "data (input s) = b # r"
  obtains s' where "READ_CHAR s = (uint b, s')" "calm_in s'" "data (input s') = r"
  using READ_CHAR_calm [OF assms(1)] assms(2) by (cases "READ_CHAR s") (auto simp: next_char_def)

lemma READ_CHAR_end:
  assumes "calm_in s" "data (input s) = []"
  obtains s' where "READ_CHAR s = (- 1, s')" "calm_in s'" "input s' = []" "\<not> ferror_in s'"
  using READ_CHAR_calm [OF assms(1)] assms(2) by (cases "READ_CHAR s") (auto simp: next_char_def)

subsection \<open>Characters\<close>

text \<open>
  Reading a character of a calm stream, peeking at it included, gives the next
  byte of its data whatever number of interruptions comes first, without an error; at the
  end of the data it reports the end of the file. Peeking leaves the data as it was.
\<close>

theorem ps_read_char_calm:
  assumes "calm_in s" "(rd, rest) \<in> {(PS_READ_CHAR, tl), (PS_PEEK_CHAR, id)}"
  shows "\<exists>s'. calm_in s' \<and> (case data (input s) of
       [] \<Rightarrow> rd s = ((0, True, 0), s') \<and> input s' = []
     | b # r \<Rightarrow> rd s = ((b, False, 0), s') \<and> data (input s') = rest (data (input s)))"
proof -
  obtain c s1 where g: "getc s = (c, s1)" by (cases "getc s")
  note calm = getc_calm [OF assms(1) g]
  obtain d s2 where r: "read_char s1 = (d, s2)" by (cases "read_char s1")
  have n: "next_char s1 d s2" if "c = - 1"
    using calm(1) calm(3) [OF that] by (intro read_char_calm [OF _ _ r]) auto
  show ?thesis
  proof (cases "c = - 1")
    case True
    then show ?thesis
      using n [OF True] calm(3) [OF True] assms(2) uint_not_eof
      by (auto simp: next_char_def PS_READ_CHAR_def PS_PEEK_CHAR_def ps_read_char_def g r NO_ERRORS_def
          split: list.splits)
  next
    case False
    then show ?thesis using calm(2) [OF False] assms(2)
      by (auto simp: PS_READ_CHAR_def PS_PEEK_CHAR_def next_char_def g split: list.splits)
  qed
qed

definition interrupted_input :: "in_event list \<Rightarrow> istream" where
  "interrupted_input evs = \<lparr>input = evs, ferror_in = False, feof_in = False, errno_in = 0\<rparr>"

lemma ps_read_char_calm_witness:
  "\<exists>s'. calm_in s' \<and> PS_READ_CHAR (interrupted_input [InError 4, InError 4, Byte 65]) = ((65, False, 0), s')
     \<and> data (input s') = []"
  using ps_read_char_calm [of "interrupted_input [InError 4, InError 4, Byte 65]" PS_READ_CHAR tl]
  by (simp add: calm_in_def interrupted_input_def EINTR_def)

subsection \<open>Decimal digits\<close>

definition digit :: "byte \<Rightarrow> bool" where
  "digit b \<longleftrightarrow> 48 \<le> b \<and> b \<le> 57"

definition digits_value :: "long \<Rightarrow> byte list \<Rightarrow> long" where
  "digits_value acc ds = foldl (\<lambda>a d. 10 * a + (ucast d - 48)) acc ds"

lemma digit_uint: "digit b \<longleftrightarrow> 48 \<le> uint b \<and> uint b \<le> 57"
  by (simp add: digit_def word_le_def)

lemma digit_long:
  assumes "digit b"
  shows "word_of_int (uint b - 48) = (ucast b - 48 :: long)"
  by (simp add: unsigned_ucast_eq flip: word_of_int_uint)

lemma read_digits_calm:
  assumes "calm_in s" "data (input s) = ds @ rest" "list_all digit ds" "rest = [] \<or> \<not> digit (hd rest)"
  obtains s' where "read_digits acc s =
      (digits_value acc ds, if rest = [] then - 1 else uint (hd rest), s')"
    "calm_in s'" "data (input s') = tl rest"
  using assms
proof (induction ds arbitrary: s acc thesis)
  case Nil
  show ?case
  proof (cases rest)
    case Nil': Nil
    then have e: "data (input s) = []" using Nil.prems by simp
    show ?thesis
      by (rule READ_CHAR_end [OF Nil.prems(2) e], rule Nil.prems(1), subst read_digits.simps)
        (auto simp: Nil' digits_value_def)
  next
    case (Cons b r)
    then have d: "data (input s) = b # r" "\<not> digit b" using Nil.prems by auto
    show ?thesis
      by (rule READ_CHAR_byte [OF Nil.prems(2) d(1)], rule Nil.prems(1), subst read_digits.simps)
        (use d(2) in \<open>auto simp: Cons digits_value_def digit_uint\<close>)
  qed
next
  case (Cons b ds)
  then have d: "data (input s) = b # (ds @ rest)" "digit b" by auto
  obtain s1 where s1: "READ_CHAR s = (uint b, s1)" "calm_in s1" "data (input s1) = ds @ rest"
    by (rule READ_CHAR_byte [OF Cons.prems(2) d(1)])
  have step: "read_digits acc s = read_digits (10 * acc + (ucast b - 48)) s1"
    using d(2) by (subst read_digits.simps) (simp add: s1 digit_uint digit_long)
  show ?case
    by (rule Cons.IH [where s = s1 and acc = "10 * acc + (ucast b - 48)"])
      (use Cons.prems s1 in \<open>auto simp: step digits_value_def\<close>)
qed

definition white :: "byte \<Rightarrow> bool" where
  "white b \<longleftrightarrow> b \<in> {32, 9, 10}"

lemma white_uint: "white b \<longleftrightarrow> uint b = 32 \<or> uint b = 9 \<or> uint b = 10"
  by (auto simp: white_def word_uint_eq_iff)

lemma skip_whitespace_calm:
  assumes "calm_in s" "data (input s) = ws @ b # r" "list_all white ws" "\<not> white b"
  obtains s' where "skip_whitespace s = (uint b, s')" "calm_in s'" "data (input s') = r"
  using assms
proof (induction ws arbitrary: s thesis)
  case Nil
  then have d: "data (input s) = b # r" by simp
  obtain s1 where s1: "READ_CHAR s = (uint b, s1)" "calm_in s1" "data (input s1) = r"
    by (rule READ_CHAR_byte [OF Nil.prems(2) d])
  have "skip_whitespace s = (uint b, s1)"
    using Nil.prems(5) by (subst skip_whitespace.simps) (simp add: s1 white_uint)
  then show ?case using s1 Nil.prems(1) by blast
next
  case (Cons w ws)
  then have d: "data (input s) = w # (ws @ b # r)" "white w" by auto
  obtain s1 where s1: "READ_CHAR s = (uint w, s1)" "calm_in s1" "data (input s1) = ws @ b # r"
    by (rule READ_CHAR_byte [OF Cons.prems(2) d(1)])
  have "skip_whitespace s = skip_whitespace s1"
    using d(2) by (subst skip_whitespace.simps) (simp add: s1 white_uint)
  show ?case
    by (rule Cons.IH [where s = s1]) (use Cons.prems s1 \<open>skip_whitespace s = skip_whitespace s1\<close> in auto)
qed

lemma data_unget [simp]:
  "data (input (if rest = [] then s else ungetc (uint (hd rest)) s)) =
     (if rest = [] then data (input s) else hd rest # data (input s))"
  by simp

text \<open>A sign, if there is one, and digits.\<close>

definition signed_value :: "bool \<Rightarrow> byte list \<Rightarrow> long" where
  "signed_value negate ds = (if negate then - digits_value 0 ds else digits_value 0 ds)"

lemma ps_read_integer_calm:
  assumes s: "calm_in s" "data (input s) = ws @ (if negate then [45] else []) @ ds @ rest"
    and ds: "list_all white ws" "list_all digit ds" "ds \<noteq> []" "rest = [] \<or> \<not> digit (hd rest)"
  obtains s' where "ps_read_integer s = ((signed_value negate ds, False, 0), s')"
    "calm_in s'" "data (input s') = rest"
proof -
  obtain d es where d: "ds = d # es" "digit d" "list_all digit es" using ds by (cases ds) auto
  have d': "\<not> (uint d < 48 \<or> 57 < uint d)" "\<not> white d" "uint d \<noteq> 45"
    using d(2) by (auto simp: digit_uint white_uint)
  obtain c0 s0 c1 s1 where skip: "skip_whitespace s = (c0, s0)" "(c0 = 45) = negate"
    and sign: "(if negate then READ_CHAR s0 else (c0, s0)) = (uint d, s1)"
    and s1: "calm_in s1" "data (input s1) = es @ rest"
  proof (cases negate)
    case True
    then have "data (input s) = ws @ 45 # (d # es @ rest)" using s(2) d by simp
    then obtain s0 where s0: "skip_whitespace s = (uint (45 :: byte), s0)" "calm_in s0"
        "data (input s0) = d # (es @ rest)"
      by (rule skip_whitespace_calm [OF s(1) _ ds(1)]) (auto simp: white_def)
    obtain s1 where "READ_CHAR s0 = (uint d, s1)" "calm_in s1" "data (input s1) = es @ rest"
      by (rule READ_CHAR_byte [OF s0(2,3)])
    then show ?thesis using s0 True by (intro that [of _ s0 s1]) auto
  next
    case False
    then have "data (input s) = ws @ d # (es @ rest)" using s(2) d by simp
    then obtain s0 where "skip_whitespace s = (uint d, s0)" "calm_in s0" "data (input s0) = es @ rest"
      by (rule skip_whitespace_calm [OF s(1) _ ds(1) d'(2)])
    then show ?thesis using False d'(3) by (intro that [of _ s0 s0]) auto
  qed
  obtain s2 where s2: "read_digits (ucast d - 48) s1 =
      (digits_value (ucast d - 48) es, if rest = [] then - 1 else uint (hd rest), s2)"
      "calm_in s2" "data (input s2) = tl rest"
    by (rule read_digits_calm [OF s1 d(3) ds(4)])
  have "ps_read_integer s = ((signed_value negate ds, False, 0),
      if rest = [] then s2 else ungetc (uint (hd rest)) s2)"
    unfolding ps_read_integer_def skip Let_def prod.case sign
    using d'(1) by (simp add: digit_long [OF d(2)] s2 signed_value_def d(1) digits_value_def)
  then show ?thesis
    using s2 by (intro that [of "if rest = [] then s2 else ungetc (uint (hd rest)) s2"]) auto
qed

subsection \<open>Writing\<close>

lemma putc_calm:
  assumes "calm_out s" "putc ch s = (c, s')"
  shows "calm_out s'" "c \<noteq> - 1 \<Longrightarrow> written s' = written s @ [ch]"
    "c = - 1 \<Longrightarrow> written s' = written s \<and> errno_out s' = EINTR"
  using assms by (auto simp: putc_def fwrite_def calm_out_def split: list.splits out_event.splits)

lemma ps_write_char_calm:
  assumes "calm_out s" "errno_out s = EINTR" "ps_write_char ch s = (st, s')"
  shows "st = 0 \<and> calm_out s' \<and> written s' = written s @ [ch]"
  using assms
proof (induction ch s arbitrary: st s' rule: ps_write_char.induct)
  case (1 ch s)
  obtain c s1 where p: "putc ch (clearerr_out s) = (c, s1)" by (cases "putc ch (clearerr_out s)")
  have c: "calm_out (clearerr_out s)" "errno_out (clearerr_out s) = EINTR"
    "written (clearerr_out s) = written s"
    using "1.prems" by (simp_all add: calm_out_def clearerr_out_def)
  note pc = putc_calm [OF c(1) p]
  show ?case
  proof (cases "c = - 1")
    case True
    then have "ps_write_char ch s = ps_write_char ch s1"
      by (subst ps_write_char.simps) (simp add: p c)
    then show ?thesis using "1.IH" [OF refl _ p [symmetric] refl, of st s'] "1.prems" pc True c by simp
  next
    case False
    then have "ps_write_char ch s = (0, s1)" by (subst ps_write_char.simps) (simp add: p c)
    then show ?thesis using "1.prems" pc False c by simp
  qed
qed

lemma WRITE_CHAR_calm:
  assumes "calm_out s"
  obtains s' where "WRITE_CHAR ch s = (0, s')" "calm_out s'" "written s' = written s @ [ch]"
proof -
  obtain c s1 where p: "putc ch s = (c, s1)" by (cases "putc ch s")
  note pc = putc_calm [OF assms p]
  show ?thesis
  proof (cases "c = - 1")
    case True
    obtain st s2 where w: "ps_write_char ch s1 = (st, s2)" by (cases "ps_write_char ch s1")
    have "st = 0 \<and> calm_out s2 \<and> written s2 = written s1 @ [ch]"
      using pc True by (intro ps_write_char_calm [OF _ _ w]) auto
    then show ?thesis using pc(3) [OF True] True by (intro that [of s2]) (auto simp: WRITE_CHAR_def p w)
  next
    case False
    then show ?thesis using pc by (intro that [of s1]) (auto simp: WRITE_CHAR_def p)
  qed
qed

lemma less_10_cases:
  "k < 10 \<longleftrightarrow> k = 0 \<or> k = 1 \<or> k = 2 \<or> k = 3 \<or> k = 4 \<or> k = 5 \<or> k = 6 \<or> k = 7 \<or> k = 8 \<or> k = (9 :: nat)"
  by arith

lemma ucast_digit: "k < 10 \<Longrightarrow> ucast (48 + of_nat k :: byte) = (48 + of_nat k :: long)"
  by (auto simp: less_10_cases)

lemma digit_of_nat: "k < 10 \<Longrightarrow> digit (48 + of_nat k)"
  by (auto simp: less_10_cases digit_def)

lemma byte_of_digit: "ucast (n mod 10 :: long) + 48 = (48 + of_nat (unat n mod 10) :: byte)"
proof -
  have "unat (n mod 10) = unat n mod 10" by (simp add: unat_mod)
  then have "ucast (n mod 10) = (of_nat (unat n mod 10) :: byte)"
    by (metis of_nat_unat)
  then show ?thesis by simp
qed

lemma write_integer_calm:
  assumes "calm_out s" "n \<noteq> 0"
  obtains s' where "write_integer n s = (0, s')" "calm_out s'" "written s' = written s @ decimal (unat n)"
  using assms
proof (induction n s arbitrary: thesis rule: write_integer.induct)
  case (1 n s)
  show ?case
  proof (cases "n div 10 = 0")
    case True
    have "unat n div 10 = unat (n div 10)" by (simp add: unat_div)
    with True have small: "unat n < 10" by (simp add: div_eq_0_iff)
    then have dec: "decimal (unat n) = [48 + of_nat (unat n mod 10)]" by (subst decimal.simps) simp
    obtain s2 where s2: "WRITE_CHAR (ucast (n mod 10) + 48) s = (0, s2)" "calm_out s2"
        "written s2 = written s @ [ucast (n mod 10) + 48]"
      by (rule WRITE_CHAR_calm [OF "1.prems"(2)])
    have "write_integer n s = (0, s2)"
      using "1.prems"(3) by (subst write_integer.simps) (simp add: True write_integer.simps [of 0] s2)
    then show ?thesis using s2 by (intro "1.prems"(1) [of s2]) (simp_all add: dec byte_of_digit)
  next
    case False
    then have big: "\<not> unat n < 10" by (auto simp: word_arith_nat_div)
    obtain s1 where s1: "write_integer (n div 10) s = (0, s1)" "calm_out s1"
        "written s1 = written s @ decimal (unat (n div 10))"
      by (rule "1.IH" [OF "1.prems"(3) _ "1.prems"(2) False])
    obtain s2 where s2: "WRITE_CHAR (ucast (n mod 10) + 48) s1 = (0, s2)" "calm_out s2"
        "written s2 = written s1 @ [ucast (n mod 10) + 48]"
      by (rule WRITE_CHAR_calm [OF s1(2)])
    have "write_integer n s = (0, s2)"
      using "1.prems"(3) by (subst write_integer.simps) (simp add: s1 s2)
    moreover have "decimal (unat n) = decimal (unat (n div 10)) @ [48 + of_nat (unat n mod 10)]"
      using big by (subst decimal.simps) (simp add: unat_div)
    ultimately show ?thesis using s1 s2 by (intro "1.prems"(1) [of s2]) (simp_all add: byte_of_digit)
  qed
qed

lemma ps_write_integer_calm:
  assumes "calm_out s"
  obtains s' where "ps_write_integer n s = (0, s')" "calm_out s'" "written s' = written s @ decimal_long n"
proof (cases "n = 0 \<or> 0 <s n")
  case True
  then have nonneg: "\<not> n <s 0" by (auto simp: word_sless_alt)
  show ?thesis
  proof (cases "n = 0")
    case n: True
    have d: "decimal_long 0 = [48]" by (simp add: decimal_long_def decimal.simps [of 0] word_sless_alt)
    obtain s' where "WRITE_CHAR 48 s = (0, s')" "calm_out s'" "written s' = written s @ [48]"
      by (rule WRITE_CHAR_calm [OF assms])
    then show ?thesis by (intro that [of s']) (simp_all add: ps_write_integer_def n d)
  next
    case False
    obtain s' where "write_integer n s = (0, s')" "calm_out s'" "written s' = written s @ decimal (unat n)"
      by (rule write_integer_calm [OF assms False])
    then show ?thesis using True nonneg False
      by (intro that [of s']) (simp_all add: ps_write_integer_def decimal_long_def)
  qed
next
  case False
  then have neg: "n <s 0" "n \<noteq> 0" "\<not> 0 <s n"
    using sint_eq_0 [of n] by (auto simp: word_sless_alt)
  obtain s1 where s1: "WRITE_CHAR 45 s = (0, s1)" "calm_out s1" "written s1 = written s @ [45]"
    by (rule WRITE_CHAR_calm [OF assms])
  obtain s2 where s2: "write_integer (- n) s1 = (0, s2)" "calm_out s2"
      "written s2 = written s1 @ decimal (unat (- n))"
    by (rule write_integer_calm [OF s1(2), of "- n"]) (use neg in simp_all)
  show ?thesis using s1 s2 neg
    by (intro that [of s2]) (auto simp: ps_write_integer_def decimal_long_def)
qed

subsection \<open>The round trip of integers\<close>

lemma decimal_digits: "list_all digit (decimal n)" "decimal n \<noteq> []"
proof -
  have "list_all digit (decimal n) \<and> decimal n \<noteq> []"
  proof (induction n rule: decimal.induct)
    case (1 n)
    then show ?case by (subst (1 2) decimal.simps) (auto simp: digit_of_nat)
  qed
  then show "list_all digit (decimal n)" "decimal n \<noteq> []" by auto
qed

lemma digits_value_append: "digits_value acc (xs @ [d]) = 10 * digits_value acc xs + (ucast d - 48)"
  by (simp add: digits_value_def)

lemma digits_value_decimal: "digits_value 0 (decimal n) = of_nat n"
proof (induction n rule: decimal.induct)
  case (1 n)
  show ?case
  proof (cases "n < 10")
    case True
    then show ?thesis by (subst decimal.simps) (simp add: digits_value_def ucast_digit)
  next
    case False
    have "10 * (of_nat (n div 10) :: long) + of_nat (n mod 10) = of_nat n"
      by (metis of_nat_add of_nat_mult of_nat_numeral mult_div_mod_eq)
    with 1 False show ?thesis
      by (subst decimal.simps) (simp add: digits_value_append ucast_digit)
  qed
qed

text \<open>
  Property C24. Every 32-bit integer, the least one included, survives being written by
  \<open>ps_write_integer\<close> and read back by \<open>ps_read_integer\<close>, whatever interruptions the two streams
  meet: the writer succeeds, and the reader, given white space, what the writer has put
  out, and more data that does not begin with a digit, returns the integer and leaves the
  rest of the data in the stream.
\<close>

theorem integer_roundtrip:
  assumes "calm_out out" "calm_in inp" "list_all white ws" "rest = [] \<or> \<not> digit (hd rest)"
    and "data (input inp) = ws @ drop (length (written out)) (written (snd (ps_write_integer n out))) @ rest"
  shows "fst (ps_write_integer n out) = 0 \<and>
     (\<exists>inp'. ps_read_integer inp = ((n, False, 0), inp') \<and> data (input inp') = rest)"
proof -
  obtain out' where out': "ps_write_integer n out = (0, out')" "written out' = written out @ decimal_long n"
    by (rule ps_write_integer_calm [OF assms(1)])
  let ?ds = "decimal (unat (if n <s 0 then - n else n))"
  have d: "data (input inp) = ws @ (if n <s 0 then [45] else []) @ ?ds @ rest"
    using assms(5) by (simp add: out' decimal_long_def)
  have v: "signed_value (n <s 0) ?ds = n" by (simp add: signed_value_def digits_value_decimal)
  obtain inp' where "ps_read_integer inp = ((n, False, 0), inp')" "data (input inp') = rest"
    by (rule ps_read_integer_calm [OF assms(2) d assms(3) decimal_digits assms(4)]) (simp add: v)
  then show ?thesis by (auto simp: out')
qed

lemma integer_roundtrip_witness:
  "let out = \<lparr>written = [], script = [OutError 4 0, Accept, OutError 4 0], ferror_out = False, errno_out = 0\<rparr>;
       inp = interrupted_input (InError 4 # map Byte ([32, 45] @ decimal 2147483648) @ [InError 4, Byte 10])
   in fst (ps_write_integer 0x80000000 out) = 0 \<and>
      (\<exists>inp'. ps_read_integer inp = ((0x80000000, False, 0), inp') \<and> data (input inp') = [10])"
proof -
  let ?out = "\<lparr>written = [], script = [OutError 4 0, Accept, OutError 4 0], ferror_out = False, errno_out = 0\<rparr>"
  let ?inp = "interrupted_input (InError 4 # map Byte ([32, 45] @ decimal 2147483648) @ [InError 4, Byte 10])"
  have out: "calm_out ?out" by (simp add: calm_out_def EINTR_def)
  have "list_all calm_event (map Byte bs)" "data (map Byte bs @ evs) = bs @ data evs" for bs evs
    by (induction bs) auto
  then have inp: "calm_in ?inp" "data (input ?inp) = [32, 45] @ decimal 2147483648 @ [10]"
    by (simp_all add: calm_in_def interrupted_input_def EINTR_def list_all_append)
  have "decimal_long 0x80000000 = 45 # decimal 2147483648" by (simp add: decimal_long_def word_sless_alt)
  moreover obtain out' where "ps_write_integer 0x80000000 ?out = (0, out')"
      "written out' = written ?out @ decimal_long 0x80000000"
    by (rule ps_write_integer_calm [OF out])
  ultimately have "written (snd (ps_write_integer 0x80000000 ?out)) = 45 # decimal 2147483648" by simp
  then have "data (input ?inp) =
      [32] @ drop (length (written ?out)) (written (snd (ps_write_integer 0x80000000 ?out))) @ [10]"
    unfolding inp(2) by simp
  from integer_roundtrip [OF out inp(1) _ _ this] show ?thesis
    unfolding Let_def by (simp only: list.simps) (simp add: white_def digit_def)
qed

subsection \<open>Blocks\<close>

lemma fread_bytes:
  assumes "input s = map Byte bs @ e"
  shows "fread (length bs) s = (bs, s\<lparr>input := e\<rparr>)"
    and "e = InError n # r \<Longrightarrow> length bs < m \<Longrightarrow>
      fread m s = (bs, s\<lparr>input := r, ferror_in := True, errno_in := n\<rparr>)"
    and "e = [] \<Longrightarrow> length bs < m \<Longrightarrow> fread m s = (bs, s\<lparr>input := [], feof_in := True\<rparr>)"
proof -
  show "fread (length bs) s = (bs, s\<lparr>input := e\<rparr>)" using assms
    by (induction bs arbitrary: s) (simp_all add: split_beta)
  have split: "\<exists>m'. m = Suc m' \<and> length cs < m'" if "length (c # cs) < m" for c :: byte and cs m
    using that by (cases m) auto
  show "fread m s = (bs, s\<lparr>input := r, ferror_in := True, errno_in := n\<rparr>)"
    if "e = InError n # r" "length bs < m" using assms that
  proof (induction bs arbitrary: s m)
    case Nil then show ?case by (cases m) auto
  next
    case (Cons b bs) then show ?case using split [of b bs m] by auto
  qed
  show "fread m s = (bs, s\<lparr>input := [], feof_in := True\<rparr>)" if "e = []" "length bs < m" using assms that
  proof (induction bs arbitrary: s m)
    case Nil then show ?case by (cases m) auto
  next
    case (Cons b bs) then show ?case using split [of b bs m] by auto
  qed
qed

text \<open>
  A block read of \<open>count\<close> bytes that meets no interruption fills the buffer with
  the next \<open>count\<close> bytes of the stream; when fewer are left it stores and reports those, and
  sets \<open>eofp\<close>.
\<close>

theorem ps_read_block_ok:
  assumes "input s = map Byte bs" "\<not> ferror_in s" "length buffer = count"
  shows "ps_read_block count buffer s =
      (if length bs < count
       then ((length bs, bs @ drop (length bs) buffer, True, 0), clearerr (s\<lparr>input := []\<rparr>))
       else ((count, take count bs, False, 0), s\<lparr>input := map Byte (drop count bs)\<rparr>))"
proof (cases "length bs < count")
  case True
  have "fread count s = (bs, s\<lparr>input := [], feof_in := True\<rparr>)"
    by (rule fread_bytes(3) [OF _ refl True]) (simp add: assms(1))
  then show ?thesis unfolding ps_read_block_def
    using assms(2) True by (subst read_block.simps) (simp add: Let_def clearerr_def NO_ERRORS_def)
next
  case False
  have "input s = map Byte (take count bs) @ map Byte (drop count bs)"
    by (simp add: assms(1) flip: map_append)
  from fread_bytes(1) [OF this]
  have "fread count s = (take count bs, s\<lparr>input := map Byte (drop count bs)\<rparr>)"
    using False by (simp add: min_absorb2)
  then show ?thesis unfolding ps_read_block_def
    using False assms(3) by (subst read_block.simps) (simp add: Let_def NO_ERRORS_def min_absorb2)
qed

lemma ps_read_block_ok_witness:
  "ps_read_block 3 [1, 2, 3] (interrupted_input [Byte 7, Byte 8]) =
     ((2, [7, 8, 3], True, 0), clearerr (interrupted_input []))"
proof -
  let ?s = "interrupted_input [Byte 7, Byte 8]"
  have "input ?s = map Byte [7, 8]" "\<not> ferror_in ?s" "?s\<lparr>input := []\<rparr> = interrupted_input []"
    by (simp_all add: interrupted_input_def)
  with ps_read_block_ok [of ?s "[7, 8]" "[1, 2, 3]" 3] show ?thesis by simp
qed

text \<open>
  Property C31. A block read that is interrupted once, after the bytes \<open>as\<close>, loses data: it
  reports that all \<open>count\<close> bytes were read, but the bytes \<open>bs\<close> read after the interruption
  lie at the start of the buffer, over those read before it, and the end of the buffer is
  what it was.
\<close>

theorem ps_read_block_interrupted:
  assumes "input s = map Byte as @ InError EINTR # map Byte bs" "bs \<noteq> []"
    and "length as + length bs = count" "length buffer = count"
  shows "\<exists>s'. ps_read_block count buffer s =
      ((count, bs @ drop (length bs) (as @ drop (length as) buffer), False, 0), s')"
proof -
  have len: "length as < count" "count - length as = length bs"
    using assms by (cases bs; auto)+
  let ?s1 = "s\<lparr>input := map Byte bs, ferror_in := True, errno_in := EINTR\<rparr>"
  have 1: "fread count s = (as, ?s1)" by (rule fread_bytes(2) [OF assms(1) refl len(1)])
  have 2: "fread (length bs) (clearerr ?s1) = (bs, (clearerr ?s1)\<lparr>input := []\<rparr>)"
    by (rule fread_bytes(1)) simp
  have "read_block count 0 buffer s = read_block count (length as) (as @ drop (length as) buffer) (clearerr ?s1)"
    using len by (subst read_block.simps) (simp add: 1 Let_def)
  also have "\<dots> = ((count, bs @ drop (length bs) (as @ drop (length as) buffer), False, 0),
      (clearerr ?s1)\<lparr>input := []\<rparr>)"
    using assms(3) len by (subst read_block.simps) (simp add: 2 Let_def NO_ERRORS_def)
  finally show ?thesis by (auto simp: ps_read_block_def)
qed

lemma ps_read_block_interrupted_witness:
  "\<exists>s'. ps_read_block 4 [0, 0, 0, 0]
       (interrupted_input [Byte 1, Byte 2, InError 4, Byte 3, Byte 4]) = ((4, [3, 4, 0, 0], False, 0), s')"
  using ps_read_block_interrupted [of "interrupted_input [Byte 1, Byte 2, InError 4, Byte 3, Byte 4]"
      "[1, 2]" "[3, 4]" 4 "[0, 0, 0, 0]"]
  by (simp add: interrupted_input_def EINTR_def)

end
