(* ===== verification/Plain_Streams.thy ===== *)
theory Plain_Streams
  imports Ps_Io_Facts
begin

text \<open>
  Streams without trouble: an input stream whose reads do not fail, an output stream whose
  writes are all accepted. What the procedures of \<open>io.c\<close> do on them, as rules for reading a
  known sequence of bytes and for what is written.
\<close>

subsection \<open>Input\<close>

text \<open>The bytes that are still to be read.\<close>

definition holds :: "istream \<Rightarrow> byte list \<Rightarrow> bool" where
  "holds s bs \<longleftrightarrow> input s = map Byte bs \<and> \<not> ferror_in s"

definition plain_in :: "istream \<Rightarrow> bool" where
  "plain_in s \<longleftrightarrow> (\<exists>bs. holds s bs)"

lemma data_map_Byte [simp]: "data (map Byte bs) = bs"
  by (induction bs) simp_all

lemma holds_calm: "holds s bs \<Longrightarrow> calm_in s" "holds s bs \<Longrightarrow> data (input s) = bs"
  by (simp_all add: holds_def calm_in_def list_all_length)

lemma plain_holds: "plain_in s \<Longrightarrow> holds s (data (input s))"
  by (auto simp: plain_in_def holds_def)

lemma plain_getc: "plain_in s \<Longrightarrow> plain_in (snd (getc s))"
  by (auto simp: plain_in_def holds_def getc_def split: list.splits in_event.splits)

lemma plain_read_char: "\<not> ferror_in s \<Longrightarrow> read_char s = (- 1, s)"
  by (simp add: read_char.simps)

lemma plain_READ_CHAR: "plain_in s \<Longrightarrow> plain_in (snd (READ_CHAR s))"
proof -
  assume s: "plain_in s"
  obtain c s1 where g: "getc s = (c, s1)" by (cases "getc s")
  then have "plain_in s1" using plain_getc [OF s] by simp
  then show ?thesis using g plain_read_char [of s1]
    by (auto simp: READ_CHAR_def plain_in_def holds_def)
qed

lemma plain_ungetc: "plain_in s \<Longrightarrow> plain_in (ungetc c s)"
proof -
  assume "plain_in s"
  then obtain bs where "holds s bs" by (auto simp: plain_in_def)
  then have "holds (ungetc c s) (word_of_int c # bs)" by (simp add: holds_def ungetc_def)
  then show ?thesis by (auto simp: plain_in_def)
qed

lemma plain_skip_whitespace: "plain_in s \<Longrightarrow> plain_in (snd (skip_whitespace s))"
proof (induction s rule: skip_whitespace.induct)
  case (1 s)
  obtain c s1 where r: "READ_CHAR s = (c, s1)" by (cases "READ_CHAR s")
  then have "plain_in s1" using plain_READ_CHAR [OF "1.prems"] by simp
  then show ?case using "1.IH" [OF r [symmetric] refl] by (subst skip_whitespace.simps) (simp add: r)
qed

lemma plain_read_digits: "plain_in s \<Longrightarrow> plain_in (snd (snd (read_digits n s)))"
proof (induction n s rule: read_digits.induct)
  case (1 n s)
  obtain c s1 where r: "READ_CHAR s = (c, s1)" by (cases "READ_CHAR s")
  then have "plain_in s1" using plain_READ_CHAR [OF "1.prems"] by simp
  then show ?case using "1.IH" [OF r [symmetric] refl] by (subst read_digits.simps) (simp add: r)
qed

lemma plain_ps_read_integer: "plain_in s \<Longrightarrow> plain_in (snd (ps_read_integer s))"
proof -
  assume s: "plain_in s"
  obtain c0 s0 where k: "skip_whitespace s = (c0, s0)" by (cases "skip_whitespace s")
  obtain c1 s1 where sg: "(if c0 = 45 then READ_CHAR s0 else (c0, s0)) = (c1, s1)"
    by (cases "if c0 = 45 then READ_CHAR s0 else (c0, s0)")
  have p0: "plain_in s0" using plain_skip_whitespace [OF s] k by simp
  then have p1: "plain_in s1" using sg plain_READ_CHAR [OF p0] by (auto split: if_splits)
  obtain v c2 s2 where d: "read_digits (word_of_int (c1 - 48)) s1 = (v, c2, s2)"
    by (cases "read_digits (word_of_int (c1 - 48)) s1")
  have p2: "plain_in s2" using plain_read_digits [OF p1] d by (metis snd_conv)
  have "plain_in (clearerr s1)" using p1 by (auto simp: plain_in_def holds_def clearerr_def)
  with p1 p2 show ?thesis
    by (simp add: ps_read_integer_def k sg d [simplified] Let_def plain_ungetc)
qed

lemma read_integer_holds:
  assumes "holds s (ws @ decimal_long n @ rest)" "list_all white ws" "rest = [] \<or> \<not> digit (hd rest)"
  obtains s' where "ps_read_integer s = ((n, False, 0), s')" "holds s' rest"
proof -
  let ?ds = "decimal (unat (if n <s 0 then - n else n))"
  note c = holds_calm [OF assms(1)]
  have d: "data (input s) = ws @ (if n <s 0 then [45] else []) @ ?ds @ rest"
    using c(2) by (simp add: decimal_long_def)
  have v: "signed_value (n <s 0) ?ds = n" by (simp add: signed_value_def digits_value_decimal)
  obtain s' where s': "ps_read_integer s = ((n, False, 0), s')" "data (input s') = rest"
    by (rule ps_read_integer_calm [OF c(1) d assms(2) decimal_digits assms(3)]) (simp add: v)
  have "plain_in s'" using plain_ps_read_integer [of s] assms(1) s'(1) by (auto simp: plain_in_def)
  then show ?thesis using plain_holds [of s'] s' that by simp
qed

lemma PS_READ_CHAR_holds:
  assumes "holds s (b # bs)"
  obtains s' where "PS_READ_CHAR s = ((b, False, 0), s')" "holds s' bs"
  using assms by (intro that [of "s\<lparr>input := map Byte bs\<rparr>"]) (auto simp: holds_def PS_READ_CHAR_def getc_def)

lemma PS_READ_CHAR_eof:
  assumes "holds s []"
  obtains s' where "PS_READ_CHAR s = ((0, True, 0), s')"
  using assms
  by (auto simp: holds_def PS_READ_CHAR_def getc_def ps_read_char_def read_char.simps Let_def NO_ERRORS_def)

subsection \<open>Output\<close>

definition plain_out :: "ostream \<Rightarrow> bool" where
  "plain_out s \<longleftrightarrow> set (script s) \<subseteq> {Accept}"

text \<open>A procedure that writes just these bytes and reports no error.\<close>

definition writes :: "(ostream \<Rightarrow> int \<times> ostream) \<Rightarrow> byte list \<Rightarrow> bool" where
  "writes w bs \<longleftrightarrow> (\<forall>s. plain_out s \<longrightarrow>
     (\<exists>s'. w s = (0, s') \<and> plain_out s' \<and> written s' = written s @ bs))"

lemma plain_calm_out: "plain_out s \<Longrightarrow> calm_out s"
  by (auto simp: plain_out_def calm_out_def list_all_iff)

lemma plain_fwrite:
  assumes "plain_out s"
  obtains s' where "fwrite bs s = (length bs, s')" "plain_out s'" "written s' = written s @ bs"
proof (cases "script s")
  case Nil
  then show ?thesis using assms
    by (intro that [of "if bs = [] then s else s\<lparr>written := written s @ bs\<rparr>"]) (auto simp: fwrite_def plain_out_def)
next
  case (Cons e r)
  then have "e = Accept" using assms by (auto simp: plain_out_def)
  with Cons assms show ?thesis
    by (intro that [of "if bs = [] then s else s\<lparr>written := written s @ bs, script := r\<rparr>"])
      (auto simp: fwrite_def plain_out_def)
qed

lemma writes_char: "writes (WRITE_CHAR c) [c]"
  unfolding writes_def
proof (intro allI impI)
  fix s assume "plain_out s"
  then obtain s' where "fwrite [c] s = (length [c], s')" "plain_out s'" "written s' = written s @ [c]"
    by (rule plain_fwrite)
  then show "\<exists>s'. WRITE_CHAR c s = (0, s') \<and> plain_out s' \<and> written s' = written s @ [c]"
    by (simp add: WRITE_CHAR_def putc_def)
qed

lemma writes_string: "writes (ps_write_string bs) bs"
  unfolding writes_def
proof (intro allI impI)
  fix s assume "plain_out s"
  then obtain s' where "fwrite bs s = (length bs, s')" "plain_out s'" "written s' = written s @ bs"
    by (rule plain_fwrite)
  then show "\<exists>s'. ps_write_string bs s = (0, s') \<and> plain_out s' \<and> written s' = written s @ bs"
    by (subst ps_write_string.simps) (simp add: fputs_def)
qed

lemma writes_block: "writes (ps_write_block (length bs) bs) bs"
  unfolding writes_def
proof (intro allI impI)
  fix s assume "plain_out s"
  then obtain s' where "fwrite bs s = (length bs, s')" "plain_out s'" "written s' = written s @ bs"
    by (rule plain_fwrite)
  then show "\<exists>s'. ps_write_block (length bs) bs s = (0, s') \<and> plain_out s' \<and> written s' = written s @ bs"
    unfolding ps_write_block_def by (subst write_block.simps) (simp add: Let_def NO_ERRORS_def)
qed

lemma plain_write_integer: "plain_out s \<Longrightarrow> plain_out (snd (write_integer n s))"
proof (induction n s rule: write_integer.induct)
  case (1 n s)
  show ?case
  proof (cases "n = 0")
    case False
    obtain st s1 where w: "write_integer (n div 10) s = (st, s1)" by (cases "write_integer (n div 10) s")
    have "plain_out s1" using "1.IH" [OF False "1.prems"] w by simp
    then show ?thesis using False w writes_char [of "ucast (n mod 10) + 48"]
      by (subst write_integer.simps) (auto simp: writes_def)
  qed (use 1 in \<open>simp add: write_integer.simps\<close>)
qed

lemma writes_integer: "writes (ps_write_integer n) (decimal_long n)"
  unfolding writes_def
proof (intro allI impI)
  fix s assume s: "plain_out s"
  obtain s' where s': "ps_write_integer n s = (0, s')" "written s' = written s @ decimal_long n"
    by (rule ps_write_integer_calm [OF plain_calm_out [OF s]])
  have "plain_out (snd (ps_write_integer n s))"
    using s writes_char [of 48] writes_char [of 45] plain_write_integer
    by (fastforce simp: ps_write_integer_def writes_def split: prod.splits)
  then show "\<exists>s'. ps_write_integer n s = (0, s') \<and> plain_out s' \<and> written s' = written s @ decimal_long n"
    using s' by simp
qed

end
