(* ===== verification/Descriptors.thy ===== *)
theory Descriptors
  imports Memory
begin

text \<open>
  The data representation of \<open>src/c/kali.h\<close>: a descriptor is a \<open>long\<close> whose two low bits
  are its tag (fixnum, immediate, header, stored object); a stored object is a header cell
  followed by its contents, and its descriptor is the address after the header plus three.
  The macros keep their names; those that read the store take it as first argument.
\<close>

type_synonym scheme_value = long

definition FIXNUMP :: "scheme_value \<Rightarrow> bool" where
  "FIXNUMP x \<longleftrightarrow> x AND 3 = 0"
definition IMMEDIATEP :: "scheme_value \<Rightarrow> bool" where
  "IMMEDIATEP x \<longleftrightarrow> x AND 3 = 1"
definition HEADERP :: "scheme_value \<Rightarrow> bool" where
  "HEADERP x \<longleftrightarrow> x AND 3 = 2"
definition STOBP :: "scheme_value \<Rightarrow> bool" where
  "STOBP x \<longleftrightarrow> x AND 3 = 3"

definition ENTER_FIXNUM :: "long \<Rightarrow> scheme_value" where
  "ENTER_FIXNUM n = push_bit 2 n"
definition EXTRACT_FIXNUM :: "scheme_value \<Rightarrow> long" where
  "EXTRACT_FIXNUM x = sar 2 x"

definition MISC_IMMEDIATE :: "long \<Rightarrow> scheme_value" where
  "MISC_IMMEDIATE n = 1 OR push_bit 2 n"
definition SCHFALSE :: scheme_value where "SCHFALSE = MISC_IMMEDIATE 0"
definition SCHTRUE :: scheme_value where "SCHTRUE = MISC_IMMEDIATE 1"
definition SCHCHAR :: scheme_value where "SCHCHAR = MISC_IMMEDIATE 2"
definition SCHUNSPECIFIC :: scheme_value where "SCHUNSPECIFIC = MISC_IMMEDIATE 3"
definition SCHUNDEFINED :: scheme_value where "SCHUNDEFINED = MISC_IMMEDIATE 4"
definition SCHEOF :: scheme_value where "SCHEOF = MISC_IMMEDIATE 5"
definition SCHNULL :: scheme_value where "SCHNULL = MISC_IMMEDIATE 6"

definition ENTER_BOOLEAN :: "bool \<Rightarrow> scheme_value" where
  "ENTER_BOOLEAN n = (if n then SCHTRUE else SCHFALSE)"
definition EXTRACT_BOOLEAN :: "scheme_value \<Rightarrow> bool" where
  "EXTRACT_BOOLEAN x \<longleftrightarrow> x \<noteq> SCHFALSE"
definition ENTER_CHAR :: "long \<Rightarrow> scheme_value" where
  "ENTER_CHAR c = SCHCHAR OR push_bit 8 c"
definition EXTRACT_CHAR :: "scheme_value \<Rightarrow> long" where
  "EXTRACT_CHAR x = sar 8 x"
definition CHARP :: "scheme_value \<Rightarrow> bool" where
  "CHARP x \<longleftrightarrow> x AND 0xff = SCHCHAR"

subsection \<open>Stored objects\<close>

text \<open>\<open>(char * )(x - STOB_TAG)\<close>, and back: \<open>STOB_TAG + (long) a\<close>.\<close>

definition ADDRESS_AFTER_HEADER :: "scheme_value \<Rightarrow> addr" where
  "ADDRESS_AFTER_HEADER x = uint (- 3 + x)"
definition stob_at :: "addr \<Rightarrow> scheme_value" where
  "stob_at a = 3 + word_of_int a"

definition STOB_REF :: "memory \<Rightarrow> scheme_value \<Rightarrow> int \<Rightarrow> long" where
  "STOB_REF m x i = load m (ADDRESS_AFTER_HEADER x + 4 * i)"
definition set_STOB_REF :: "memory \<Rightarrow> scheme_value \<Rightarrow> int \<Rightarrow> long \<Rightarrow> memory" where
  "set_STOB_REF m x i v = store m (ADDRESS_AFTER_HEADER x + 4 * i) v"
definition STOB_HEADER :: "memory \<Rightarrow> scheme_value \<Rightarrow> long" where
  "STOB_HEADER m x = STOB_REF m x (- 1)"
definition STOB_TYPE :: "memory \<Rightarrow> scheme_value \<Rightarrow> long" where
  "STOB_TYPE m x = sar 2 (STOB_HEADER m x) AND 31"
definition STOB_BLENGTH :: "memory \<Rightarrow> scheme_value \<Rightarrow> long" where
  "STOB_BLENGTH m x = sar 8 (STOB_HEADER m x)"
definition STOB_LLENGTH :: "memory \<Rightarrow> scheme_value \<Rightarrow> long" where
  "STOB_LLENGTH m x = sar 10 (STOB_HEADER m x)"

datatype stobtype =
    STOBTYPE_PAIR | STOBTYPE_SYMBOL | STOBTYPE_VECTOR | STOBTYPE_CLOSURE
  | STOBTYPE_LOCATION | STOBTYPE_CHANNEL | STOBTYPE_PORT | STOBTYPE_RATNUM
  | STOBTYPE_RECORD | STOBTYPE_CONTINUATION | STOBTYPE_EXTENDED_NUMBER
  | STOBTYPE_TEMPLATE | STOBTYPE_WEAK_POINTER | STOBTYPE_EXTERNAL | STOBTYPE_PROXY
  | STOBTYPE_PROXY_DATA | STOBTYPE_ADDRESS_SPACE | STOBTYPE_UNUSED_D_HEADER1
  | STOBTYPE_UNUSED_D_HEADER2 | STOBTYPE_STRING | STOBTYPE_CODE_VECTOR
  | STOBTYPE_DOUBLE | STOBTYPE_BIGNUM

fun stobtype_code :: "stobtype \<Rightarrow> long" where
  "stobtype_code STOBTYPE_PAIR = 0"
| "stobtype_code STOBTYPE_SYMBOL = 1"
| "stobtype_code STOBTYPE_VECTOR = 2"
| "stobtype_code STOBTYPE_CLOSURE = 3"
| "stobtype_code STOBTYPE_LOCATION = 4"
| "stobtype_code STOBTYPE_CHANNEL = 5"
| "stobtype_code STOBTYPE_PORT = 6"
| "stobtype_code STOBTYPE_RATNUM = 7"
| "stobtype_code STOBTYPE_RECORD = 8"
| "stobtype_code STOBTYPE_CONTINUATION = 9"
| "stobtype_code STOBTYPE_EXTENDED_NUMBER = 10"
| "stobtype_code STOBTYPE_TEMPLATE = 11"
| "stobtype_code STOBTYPE_WEAK_POINTER = 12"
| "stobtype_code STOBTYPE_EXTERNAL = 13"
| "stobtype_code STOBTYPE_PROXY = 14"
| "stobtype_code STOBTYPE_PROXY_DATA = 15"
| "stobtype_code STOBTYPE_ADDRESS_SPACE = 16"
| "stobtype_code STOBTYPE_UNUSED_D_HEADER1 = 17"
| "stobtype_code STOBTYPE_UNUSED_D_HEADER2 = 18"
| "stobtype_code STOBTYPE_STRING = 19"
| "stobtype_code STOBTYPE_CODE_VECTOR = 20"
| "stobtype_code STOBTYPE_DOUBLE = 21"
| "stobtype_code STOBTYPE_BIGNUM = 22"

text \<open>\<open>PAIRP\<close>, \<open>STRINGP\<close> and their kin: the tag test guards the read of the header.\<close>

definition stob_has_type :: "stobtype \<Rightarrow> memory \<Rightarrow> scheme_value \<Rightarrow> bool" where
  "stob_has_type t m x \<longleftrightarrow> STOBP x \<and> STOB_TYPE m x = stobtype_code t"

abbreviation PAIRP :: "memory \<Rightarrow> scheme_value \<Rightarrow> bool" where
  "PAIRP \<equiv> stob_has_type STOBTYPE_PAIR"
abbreviation VECTORP :: "memory \<Rightarrow> scheme_value \<Rightarrow> bool" where
  "VECTORP \<equiv> stob_has_type STOBTYPE_VECTOR"
abbreviation STRINGP :: "memory \<Rightarrow> scheme_value \<Rightarrow> bool" where
  "STRINGP \<equiv> stob_has_type STOBTYPE_STRING"

abbreviation CAR :: "memory \<Rightarrow> scheme_value \<Rightarrow> long" where "CAR m x \<equiv> STOB_REF m x 0"
abbreviation CDR :: "memory \<Rightarrow> scheme_value \<Rightarrow> long" where "CDR m x \<equiv> STOB_REF m x 1"

definition VECTOR_LENGTH :: "memory \<Rightarrow> scheme_value \<Rightarrow> long" where
  "VECTOR_LENGTH m x = STOB_LLENGTH m x"
definition STRING_LENGTH :: "memory \<Rightarrow> scheme_value \<Rightarrow> long" where
  "STRING_LENGTH m x = STOB_BLENGTH m x - 1"
definition STRING_REF :: "memory \<Rightarrow> scheme_value \<Rightarrow> int \<Rightarrow> byte" where
  "STRING_REF m x i = m (ADDRESS_AFTER_HEADER x + i)"

subsection \<open>Headers as the storage manager reads them\<close>

text \<open>
  \<open>31 & (h >> 2)\<close>, the length in bytes \<open>(unsigned long) h >> 8\<close>, and the bytes an object
  occupies after its header, the length rounded up to whole cells: \<open>-4 & (3 + length)\<close>.
\<close>

definition header_type :: "long \<Rightarrow> long" where
  "header_type h = 31 AND sar 2 h"
definition header_length :: "long \<Rightarrow> long" where
  "header_length h = drop_bit 8 h"
definition cells_up :: "long \<Rightarrow> long" where
  "cells_up n = (- 4) AND (3 + n)"
definition header_span :: "long \<Rightarrow> int" where
  "header_span h = sint (cells_up (header_length h))"

subsection \<open>Tags\<close>

lemma descriptor_tag_iff [tag_simps]:
  "FIXNUMP x \<longleftrightarrow> uint x mod 4 = 0"
  "IMMEDIATEP x \<longleftrightarrow> uint x mod 4 = 1"
  "HEADERP x \<longleftrightarrow> uint x mod 4 = 2"
  "STOBP x \<longleftrightarrow> uint x mod 4 = 3"
  by (simp_all add: FIXNUMP_def IMMEDIATEP_def HEADERP_def STOBP_def three_and_eq and.commute [of x])

lemma stob_not_header: "STOBP x \<Longrightarrow> \<not> HEADERP x" "HEADERP x \<Longrightarrow> \<not> STOBP x"
  by (simp_all add: tag_simps)

lemma uint_stob_at: "uint (stob_at a) = (3 + a) mod 4294967296"
  by (simp add: stob_at_def uint_word_ariths uint_word_of_int mod_simps)

lemma STOBP_stob_at [simp, intro]: "4 dvd a \<Longrightarrow> STOBP (stob_at a)"
  by (simp add: tag_simps uint_stob_at mod_mod_cancel) presburger

lemma ADDRESS_stob_at [simp]:
  "0 \<le> a \<Longrightarrow> a < 4294967296 \<Longrightarrow> ADDRESS_AFTER_HEADER (stob_at a) = a"
  by (simp add: ADDRESS_AFTER_HEADER_def stob_at_def uint_word_of_int)

lemma stob_at_ADDRESS [simp]: "stob_at (ADDRESS_AFTER_HEADER x) = x"
  by (simp add: ADDRESS_AFTER_HEADER_def stob_at_def)

lemma ADDRESS_range [simp]: "0 \<le> ADDRESS_AFTER_HEADER x" "ADDRESS_AFTER_HEADER x < 4294967296"
  by (simp_all add: ADDRESS_AFTER_HEADER_def)

lemma uint_ADDRESS: "ADDRESS_AFTER_HEADER x = (uint x - 3) mod 4294967296"
  by (simp add: ADDRESS_AFTER_HEADER_def uint_word_ariths)

lemma ADDRESS_aligned: "STOBP x \<Longrightarrow> 4 dvd ADDRESS_AFTER_HEADER x"
proof -
  assume "STOBP x"
  then have "uint x mod 4 = 3" by (simp add: tag_simps)
  then have "(uint x - 3) mod 4 = 0" by presburger
  then have "(uint x - 3) mod 4294967296 mod 4 = 0"
    by (subst mod_mod_cancel) simp_all
  then show ?thesis by (simp add: uint_ADDRESS dvd_eq_mod_eq_0)
qed

lemma ADDRESS_inj: "ADDRESS_AFTER_HEADER x = ADDRESS_AFTER_HEADER y \<longleftrightarrow> x = y"
  by (metis stob_at_ADDRESS)

subsection \<open>Headers\<close>

lemma uint_header_length [hdr_simps]: "uint (header_length h) = uint h div 256"
  by (simp only: header_length_def unsigned_drop_bit_eq) (simp add: drop_bit_eq_div)

lemma uint_cells_up:
  assumes "uint n < 4294967292"
  shows "uint (cells_up n) = (uint n + 3) div 4 * 4"
proof -
  have "uint (3 + n) = uint n + 3"
    using assms by (simp add: uint_word_ariths)
  then show ?thesis by (simp only: cells_up_def minus_four_and)
qed

lemma header_span_eq [hdr_simps]: "header_span h = (uint h div 256 + 3) div 4 * 4"
proof -
  have "uint h div 256 < 16777216" using uint32_lt [of h] by linarith
  then have "uint (cells_up (header_length h)) = (uint h div 256 + 3) div 4 * 4"
    and "uint (cells_up (header_length h)) < 2147483648"
    by (simp_all add: uint_cells_up uint_header_length)
  then show ?thesis by (simp add: header_span_def sint_small)
qed

lemma header_span_nonneg [simp]: "0 \<le> header_span h"
  by (simp add: header_span_eq add_nonneg_nonneg pos_imp_zdiv_nonneg_iff)

lemma header_span_gt [simp]: "- 4 < header_span h"
  by (rule less_le_trans [OF _ header_span_nonneg]) simp

lemma header_span_dvd [simp]: "4 dvd header_span h"
  by (simp add: header_span_eq)

lemma header_length_le_span: "uint (header_length h) \<le> header_span h"
  by (simp only: hdr_simps)

lemma header_span_less: "header_span h < uint (header_length h) + 4"
  by (simp only: hdr_simps)

lemma round_up4_exact: "4 dvd n \<Longrightarrow> (n + 3) div 4 * 4 = (n :: int)"
  by presburger

lemma header_span_exact: "4 dvd uint (header_length h) \<Longrightarrow> header_span h = uint (header_length h)"
  by (simp only: header_span_eq uint_header_length round_up4_exact)

lemma header_span_bound: "header_span h < 16777220"
  using uint32_lt [of h] by (simp only: header_span_eq)

lemma and31_take_bit: "31 AND (w :: long) = take_bit 5 w"
proof -
  have "(31 :: long) = mask 5" by (simp add: mask_eq_exp_minus_1)
  then show ?thesis by (simp only: take_bit_eq_mask and.commute)
qed

lemma header_type_drop_bit: "header_type h = take_bit 5 (drop_bit 2 h)"
  unfolding header_type_def and31_take_bit
  by (rule bit_word_eqI) (auto simp: bit_simps)

lemma uint_header_type [hdr_simps]: "uint (header_type h) = uint h div 4 mod 32"
  by (simp only: header_type_drop_bit unsigned_take_bit_eq unsigned_drop_bit_eq)
    (simp add: take_bit_eq_mod drop_bit_eq_div)

lemma header_type_less_iff: "header_type h < 19 \<longleftrightarrow> uint h div 4 mod 32 < 19"
  by (simp add: word_less_def uint_header_type)

end
