(* ===== verification/Heap_State.thy ===== *)
theory Heap_State
  imports Descriptors
begin

text \<open>
  The state of the storage manager (\<open>src/c/scheme48heap.c\<close>, its static variables) and the
  operations on it that do not trace: the two semispaces, the allocation pointer, the
  static areas, the collection counter. \<open>NULL\<close> is address 0. The arrays of static areas
  are functions of the index, their counts are kept as the code keeps them.
\<close>

record heap =
  mem :: memory
  newspace_begin :: addr
  newspace_end :: addr
  oldspace_begin :: addr
  oldspace_end :: addr
  pure_areas :: "int \<Rightarrow> addr"
  impure_areas :: "int \<Rightarrow> addr"
  pure_sizes :: "int \<Rightarrow> long"
  impure_sizes :: "int \<Rightarrow> long"
  pure_area_count :: long
  impure_area_count :: long
  finding_type :: long
  status :: long
  eofP :: bool
  old_begin :: addr
  old_hp :: addr
  startup_proc :: long
  gc_count_S :: long
  saved_hp :: addr
  saved_limit :: addr
  weak_pointer_hp :: addr
  weak_pointer_limit :: addr
  the_record_type :: long
  hp :: addr
  limit :: addr
  messages :: "string list"

text \<open>The initial state: C statics are zero until \<open>s48_heap_init\<close> runs.\<close>

definition heap_zero :: "memory \<Rightarrow> heap" where
  "heap_zero m = \<lparr>mem = m, newspace_begin = 0, newspace_end = 0, oldspace_begin = 0,
     oldspace_end = 0, pure_areas = (\<lambda>_. 0), impure_areas = (\<lambda>_. 0), pure_sizes = (\<lambda>_. 0),
     impure_sizes = (\<lambda>_. 0), pure_area_count = 0, impure_area_count = 0, finding_type = 0,
     status = 0, eofP = False, old_begin = 0, old_hp = 0, startup_proc = 0, gc_count_S = 0,
     saved_hp = 0, saved_limit = 0, weak_pointer_hp = 0, weak_pointer_limit = 0,
     the_record_type = 0, hp = 0, limit = 0, messages = []\<rparr>"

definition s48_heap_init :: "heap \<Rightarrow> heap" where
  "s48_heap_init h = h\<lparr>pure_area_count := 0, impure_area_count := 0, finding_type := 1,
     status := 0, eofP := False, gc_count_S := 0, the_record_type := 536870911\<rparr>"

definition write_barrier :: "heap \<Rightarrow> addr \<Rightarrow> long \<Rightarrow> heap" where
  "write_barrier h address value = h"

definition heap_pointer :: "heap \<Rightarrow> addr" where
  "heap_pointer h = hp h"

definition set_heap_pointerB :: "heap \<Rightarrow> addr \<Rightarrow> heap" where
  "set_heap_pointerB h value = h\<lparr>hp := value\<rparr>"

definition heap_size :: "heap \<Rightarrow> long" where
  "heap_size h = word_of_int (newspace_end h - newspace_begin h)"

text \<open>The returned pointer first, then the four out parameters in order.\<close>

definition heap_limits :: "heap \<Rightarrow> addr \<times> addr \<times> addr \<times> addr \<times> addr" where
  "heap_limits h = (hp h, newspace_begin h, newspace_end h, oldspace_begin h, oldspace_end h)"

definition preallocate_space :: "heap \<Rightarrow> long \<Rightarrow> long" where
  "preallocate_space h cells = 0"

definition register_static_areas ::
    "long \<Rightarrow> (int \<Rightarrow> addr) \<Rightarrow> (int \<Rightarrow> long) \<Rightarrow> long \<Rightarrow> (int \<Rightarrow> addr) \<Rightarrow> (int \<Rightarrow> long) \<Rightarrow> heap \<Rightarrow> heap" where
  "register_static_areas pure_count pureas puresz impure_count impureas impuresz h =
     h\<lparr>pure_area_count := pure_count, pure_areas := pureas, pure_sizes := puresz,
       impure_area_count := impure_count, impure_areas := impureas, impure_sizes := impuresz\<rparr>"

definition image_writing_okayP :: "heap \<Rightarrow> bool" where
  "image_writing_okayP h = (if 0 = pure_area_count h then 0 = impure_area_count h else False)"

definition gc_count :: "heap \<Rightarrow> long" where
  "gc_count h = gc_count_S h"

definition end_collection :: "heap \<Rightarrow> heap" where
  "end_collection h = h\<lparr>gc_count_S := 1 + gc_count_S h\<rparr>"

text \<open>C division of a \<open>long\<close> truncates towards zero.\<close>

definition long_div :: "long \<Rightarrow> int \<Rightarrow> long" where
  "long_div x k = word_of_int (sgn (sint x) * (\<bar>sint x\<bar> div k))"

definition initialize_heap :: "addr \<Rightarrow> long \<Rightarrow> heap \<Rightarrow> heap" where
  "initialize_heap start heap_cells h =
     (let cells = long_div heap_cells 2;
          semisize = sint (push_bit 2 cells);
          nb = start;
          ne = nb + semisize;
          ob = ne
      in h\<lparr>newspace_begin := nb, newspace_end := ne, oldspace_begin := ob,
           oldspace_end := ob + semisize, hp := nb, limit := ne\<rparr>)"

definition availableP :: "heap \<Rightarrow> long \<Rightarrow> bool" where
  "availableP h cells \<longleftrightarrow> hp h + sint (push_bit 2 cells) < limit h"

definition begin_collection :: "heap \<Rightarrow> heap" where
  "begin_collection h =
     h\<lparr>newspace_begin := oldspace_begin h, oldspace_begin := newspace_begin h,
       newspace_end := oldspace_end h, oldspace_end := newspace_end h,
       saved_limit := limit h, saved_hp := hp h,
       limit := oldspace_end h, hp := oldspace_begin h, weak_pointer_hp := 0\<rparr>"

text \<open>The macro \<open>ALLOCATE_SPACE\<close> of \<open>prescheme.h\<close> is the same function.\<close>

definition allocate_space :: "long \<Rightarrow> long \<Rightarrow> long \<Rightarrow> heap \<Rightarrow> addr \<times> heap" where
  "allocate_space type len key h = (hp h, h\<lparr>hp := hp h + sint (cells_up len)\<rparr>)"

definition available :: "heap \<Rightarrow> long" where
  "available h = sar 2 (word_of_int (limit h - hp h))"

end
