(* ===== verification/Heap_Copy.thy ===== *)
theory Heap_Copy
  imports Heap_State
begin

text \<open>
  The copying part of the storage manager (\<open>src/c/scheme48heap.c\<close>): copying one object or
  one weak pointer to the frontier, tracing a range of cells, and cleaning the weak
  pointers that were copied. A frontier is threaded through the calls as in the code, which
  writes it back to the allocation pointer at the end of a trace.
\<close>

definition in_oldspace :: "heap \<Rightarrow> addr \<Rightarrow> bool" where
  "in_oldspace h a \<longleftrightarrow> \<not> a < oldspace_begin h \<and> a < oldspace_end h"

text \<open>A weak pointer's header, and the code-vector header of a 1024-byte chunk of them.\<close>

definition weak_pointer_header :: long where "weak_pointer_header = 1074"
definition weak_chunk_header :: long where "weak_chunk_header = 261202"

definition new_weak_chunk :: "addr \<Rightarrow> heap \<Rightarrow> heap" where
  "new_weak_chunk frontier h =
     (let old = weak_pointer_hp h;
          m = store (mem h) frontier weak_chunk_header
      in h\<lparr>weak_pointer_hp := frontier, weak_pointer_limit := frontier + 1024,
           mem := store m (frontier + 8) (word_of_int old)\<rparr>)"

definition copy_weak_pointer :: "scheme_value \<Rightarrow> addr \<Rightarrow> heap \<Rightarrow> scheme_value \<times> addr \<times> heap" where
  "copy_weak_pointer weak frontier h =
     (let room = weak_pointer_hp h \<noteq> 0 \<and> weak_pointer_hp h < weak_pointer_limit h;
          h1 = (if room then h else new_weak_chunk frontier h);
          frontier1 = (if room then frontier else frontier + 1024);
          new = stob_at (weak_pointer_hp h1 + 4);
          m = store (mem h1) (weak_pointer_hp h1 + 4)
                (load (mem h1) (ADDRESS_AFTER_HEADER weak));
          h2 = h1\<lparr>weak_pointer_hp := weak_pointer_hp h1 + 8,
                  mem := store m (ADDRESS_AFTER_HEADER weak + (- 4)) new\<rparr>
      in (new, frontier1, h2))"

definition real_copy_object :: "scheme_value \<Rightarrow> addr \<Rightarrow> heap \<Rightarrow> scheme_value \<times> addr \<times> heap" where
  "real_copy_object thing frontier h =
     (let a = ADDRESS_AFTER_HEADER thing;
          hd = load (mem h) (a + (- 4));
          descriptor = load (mem h) a
      in if STOBP hd then (hd, frontier, h)
         else if hd = weak_pointer_header \<and> STOBP descriptor
                 \<and> in_oldspace h (ADDRESS_AFTER_HEADER descriptor)
         then copy_weak_pointer thing frontier h
         else let m1 = store (mem h) frontier hd;
                  data_addr = frontier + 4;
                  new = stob_at data_addr;
                  m2 = store m1 (a + (- 4)) new;
                  m3 = memcpy m2 data_addr a (uint (header_length hd))
              in (new, data_addr + header_span hd, h\<lparr>mem := m3\<rparr>))"

text \<open>
  The loop of \<open>trace_locations!\<close>: a byte-vector header (type 19 and up) skips its object,
  any other cell is traced when it points into the old space. The code has the body of
  \<open>real_copy_object\<close> expanded in place here.
\<close>

function trace_loop :: "addr \<Rightarrow> addr \<Rightarrow> addr \<Rightarrow> heap \<Rightarrow> addr \<times> heap" where
  "trace_loop addr end frontier h =
     (if addr < end
      then let thing = load (mem h) addr; next = addr + 4
           in if HEADERP thing \<and> \<not> header_type thing < 19
              then trace_loop (next + header_span thing) end frontier h
              else if STOBP thing \<and> in_oldspace h (ADDRESS_AFTER_HEADER thing)
              then let (new_thing, frontier1, h1) = real_copy_object thing frontier h
                   in trace_loop next end frontier1 (h1\<lparr>mem := store (mem h1) addr new_thing\<rparr>)
              else trace_loop next end frontier h
      else (frontier, h))"
  by pat_completeness auto
termination
  by (relation "measure (\<lambda>(addr, end, _, _). nat (end - addr))")
    (simp_all add: nat_less_iff add_increasing2)

declare trace_loop.simps [simp del]

definition trace_locationsB :: "addr \<Rightarrow> addr \<Rightarrow> heap \<Rightarrow> heap" where
  "trace_locationsB start end h =
     (let (frontier, h1) = trace_loop start end (hp h) h in h1\<lparr>hp := frontier\<rparr>)"

definition trace_stob_contentsB :: "scheme_value \<Rightarrow> heap \<Rightarrow> heap" where
  "trace_stob_contentsB stob h =
     (let start = ADDRESS_AFTER_HEADER stob;
          hd = load (mem h) (start + (- 4))
      in trace_locationsB start (start + header_span hd) h)"

definition trace_value :: "scheme_value \<Rightarrow> heap \<Rightarrow> scheme_value \<times> heap" where
  "trace_value stob h =
     (if STOBP stob \<and> in_oldspace h (ADDRESS_AFTER_HEADER stob)
      then let (new_thing, new_hp, h1) = real_copy_object stob (hp h) h
           in (new_thing, h1\<lparr>hp := new_hp\<rparr>)
      else (stob, h))"

subsection \<open>What a trace leaves alone\<close>

text \<open>Copying and tracing change the memory, the frontier and the weak-pointer chunk only.\<close>

definition same_spaces :: "heap \<Rightarrow> heap \<Rightarrow> bool" where
  "same_spaces h h' \<longleftrightarrow>
     h'\<lparr>mem := mem h, weak_pointer_hp := weak_pointer_hp h,
        weak_pointer_limit := weak_pointer_limit h, hp := hp h\<rparr> = h"

lemma same_spaces_refl [simp]: "same_spaces h h"
  by (simp add: same_spaces_def)

lemma same_spaces_trans: "same_spaces h1 h2 \<Longrightarrow> same_spaces h2 h3 \<Longrightarrow> same_spaces h1 h3"
  unfolding same_spaces_def by (cases h1; cases h2; cases h3) simp

lemma same_spaces_upd [simp]:
  "same_spaces h (h'\<lparr>mem := m\<rparr>) = same_spaces h h'"
  "same_spaces h (h'\<lparr>hp := a\<rparr>) = same_spaces h h'"
  "same_spaces h (h'\<lparr>weak_pointer_hp := a\<rparr>) = same_spaces h h'"
  "same_spaces h (h'\<lparr>weak_pointer_limit := a\<rparr>) = same_spaces h h'"
  by (simp_all add: same_spaces_def)

lemma same_spaces_upd_left [simp]:
  "same_spaces (h\<lparr>mem := m\<rparr>) h' = same_spaces h h'"
  "same_spaces (h\<lparr>hp := a\<rparr>) h' = same_spaces h h'"
  by (cases h; cases h'; auto simp: same_spaces_def)+

lemma same_spacesD:
  assumes "same_spaces h h'"
  shows "newspace_begin h' = newspace_begin h" "newspace_end h' = newspace_end h"
    "oldspace_begin h' = oldspace_begin h" "oldspace_end h' = oldspace_end h"
    "limit h' = limit h" "in_oldspace h' = in_oldspace h"
    "saved_hp h' = saved_hp h" "saved_limit h' = saved_limit h"
    "impure_area_count h' = impure_area_count h" "pure_area_count h' = pure_area_count h"
  using assms unfolding same_spaces_def in_oldspace_def fun_eq_iff
  by (cases h; cases h'; simp)+

lemma copy_weak_pointer_frame:
  "copy_weak_pointer w f h = (new, f', h') \<Longrightarrow> same_spaces h h' \<and> hp h' = hp h \<and> f \<le> f'"
  by (auto simp: copy_weak_pointer_def new_weak_chunk_def Let_def split: if_splits)

lemma real_copy_object_frame:
  "real_copy_object t f h = (new, f', h') \<Longrightarrow> same_spaces h h' \<and> hp h' = hp h \<and> f \<le> f'"
  by (auto simp: real_copy_object_def Let_def dest: copy_weak_pointer_frame split: if_splits
      intro: add_increasing2)

lemma trace_loop_stop: "\<not> a < e \<Longrightarrow> trace_loop a e f h = (f, h)"
  by (simp add: trace_loop.simps)

lemma trace_loop_skip:
  "a < e \<Longrightarrow> HEADERP (load (mem h) a) \<Longrightarrow> \<not> header_type (load (mem h) a) < 19 \<Longrightarrow>
     trace_loop a e f h = trace_loop (a + 4 + header_span (load (mem h) a)) e f h"
  by (subst trace_loop.simps) (simp add: Let_def)

lemma trace_loop_copy:
  "a < e \<Longrightarrow> STOBP (load (mem h) a) \<Longrightarrow> in_oldspace h (ADDRESS_AFTER_HEADER (load (mem h) a)) \<Longrightarrow>
     real_copy_object (load (mem h) a) f h = (new, f1, h1) \<Longrightarrow>
     trace_loop a e f h = trace_loop (a + 4) e f1 (h1\<lparr>mem := store (mem h1) a new\<rparr>)"
  by (subst trace_loop.simps) (simp add: Let_def stob_not_header)

lemma trace_loop_next:
  "a < e \<Longrightarrow> (HEADERP (load (mem h) a) \<Longrightarrow> header_type (load (mem h) a) < 19) \<Longrightarrow>
     \<not> (STOBP (load (mem h) a) \<and> in_oldspace h (ADDRESS_AFTER_HEADER (load (mem h) a))) \<Longrightarrow>
     trace_loop a e f h = trace_loop (a + 4) e f h"
  by (subst trace_loop.simps) (auto simp: Let_def)

text \<open>An induction rule with one case for each way the loop goes on.\<close>

lemma trace_loop_cases [case_names stop skip copy step]:
  assumes "\<not> a < e \<Longrightarrow> thesis"
    and "a < e \<Longrightarrow> HEADERP (load (mem h) a) \<Longrightarrow> \<not> header_type (load (mem h) a) < 19 \<Longrightarrow> thesis"
    and "\<And>new f1 h1. a < e \<Longrightarrow> STOBP (load (mem h) a) \<Longrightarrow>
      in_oldspace h (ADDRESS_AFTER_HEADER (load (mem h) a)) \<Longrightarrow>
      real_copy_object (load (mem h) a) f h = (new, f1, h1) \<Longrightarrow> thesis"
    and "a < e \<Longrightarrow> (HEADERP (load (mem h) a) \<Longrightarrow> header_type (load (mem h) a) < 19) \<Longrightarrow>
      \<not> (STOBP (load (mem h) a) \<and> in_oldspace h (ADDRESS_AFTER_HEADER (load (mem h) a))) \<Longrightarrow> thesis"
  shows thesis
  using assms by (cases "real_copy_object (load (mem h) a) f h") blast

lemma trace_loop_frame:
  "trace_loop a e f h = (f', h') \<Longrightarrow> same_spaces h h' \<and> hp h' = hp h \<and> f \<le> f'"
proof (induction "nat (e - a)" arbitrary: a f h rule: less_induct)
  case less
  show ?case
  proof (cases rule: trace_loop_cases [where a = a and e = e and h = h and f = f])
    case stop
    with less.prems show ?thesis by (simp add: trace_loop_stop)
  next
    case skip
    have "nat (e - (a + 4 + header_span (load (mem h) a))) < nat (e - a)"
      using skip(1) by (simp add: nat_less_iff)
    from less.hyps [OF this] skip less.prems show ?thesis
      by (simp add: trace_loop_skip)
  next
    case (copy new f1 h1)
    have "nat (e - (a + 4)) < nat (e - a)" using copy(1) by simp
    from less.hyps [OF this, of f1 "h1\<lparr>mem := store (mem h1) a new\<rparr>"]
      copy less.prems real_copy_object_frame [OF copy(4)] show ?thesis
      by (auto simp: trace_loop_copy [OF copy] intro: same_spaces_trans)
  next
    case step
    have "nat (e - (a + 4)) < nat (e - a)" using step(1) by simp
    from less.hyps [OF this, of f h] step less.prems show ?thesis
      by (simp add: trace_loop_next [OF step])
  qed
qed

lemma trace_locationsB_frame:
  "same_spaces h (trace_locationsB s e h) \<and> hp h \<le> hp (trace_locationsB s e h)"
  unfolding trace_locationsB_def
  by (cases "trace_loop s e (hp h) h") (use trace_loop_frame in fastforce)

text \<open>
  The scan loop of \<open>do_gc\<close> and \<open>write_image\<close>: trace what the last round copied until a
  round copies nothing. \<open>None\<close> is the exit of \<open>ps_error\<close> when the new space is full.
\<close>

function scan_loop :: "addr \<Rightarrow> heap \<Rightarrow> heap option" where
  "scan_loop start h =
     (let end = hp h;
          h1 = trace_locationsB start end h
      in if hp h1 < limit h1
         then (if end < hp h1 then scan_loop end h1 else Some h1)
         else None)"
  by pat_completeness auto
termination
proof (relation "measure (\<lambda>(_, h). nat (limit h - hp h))", goal_cases)
  case (2 start h x xa)
  then show ?case
    using trace_locationsB_frame [of h start x] same_spacesD(5) [of h xa] by auto
qed simp

declare scan_loop.simps [simp del]

end
