(* ===== verification/Heap_Cheney.thy ===== *)
theory Heap_Cheney
  imports Heap_Copy
begin

text \<open>
  Why the copying collector is right. Before a collection the old space holds a set of
  objects that do not overlap and whose fields point to objects of the set; a trace keeps
  the invariant that the new space is a row of copies, that the header of a copied object
  is replaced by the descriptor of its copy, and that the fields below the scan pointer
  are already forwarded.
\<close>

subsection \<open>A heap that can be collected\<close>

definition hdr :: "memory \<Rightarrow> addr \<Rightarrow> long" where
  "hdr m a = load m (a + (- 4))"

definition span :: "memory \<Rightarrow> addr \<Rightarrow> int" where
  "span m a = header_span (hdr m a)"

definition dvec :: "memory \<Rightarrow> addr \<Rightarrow> bool" where
  "dvec m a \<longleftrightarrow> header_type (hdr m a) < 19"

definition points_old :: "heap \<Rightarrow> scheme_value \<Rightarrow> bool" where
  "points_old h v \<longleftrightarrow> STOBP v \<and> in_oldspace h (ADDRESS_AFTER_HEADER v)"

definition is_field :: "memory \<Rightarrow> addr \<Rightarrow> int \<Rightarrow> bool" where
  "is_field m a i \<longleftrightarrow> dvec m a \<and> 4 dvd i \<and> 0 \<le> i \<and> i < span m a"

definition wf_field :: "heap \<Rightarrow> addr set \<Rightarrow> scheme_value \<Rightarrow> bool" where
  "wf_field h Obj v \<longleftrightarrow> \<not> HEADERP v \<and> (points_old h v \<longrightarrow> ADDRESS_AFTER_HEADER v \<in> Obj)"

definition wf_object :: "heap \<Rightarrow> addr set \<Rightarrow> addr \<Rightarrow> bool" where
  "wf_object h Obj a \<longleftrightarrow>
     4 dvd a \<and> oldspace_begin h + 4 \<le> a \<and> a < oldspace_end h \<and>
     a + span (mem h) a \<le> oldspace_end h \<and>
     HEADERP (hdr (mem h) a) \<and> hdr (mem h) a \<noteq> weak_pointer_header \<and>
     (dvec (mem h) a \<longrightarrow> 4 dvd uint (header_length (hdr (mem h) a))) \<and>
     (\<forall>i. is_field (mem h) a i \<longrightarrow> wf_field h Obj (load (mem h) (a + i)))"

definition apart :: "memory \<Rightarrow> addr \<Rightarrow> addr \<Rightarrow> bool" where
  "apart m a b \<longleftrightarrow> a + span m a \<le> b - 4 \<or> b + span m b \<le> a - 4"

definition spaces_ok :: "heap \<Rightarrow> bool" where
  "spaces_ok h \<longleftrightarrow>
     4 dvd newspace_begin h \<and> 0 \<le> newspace_begin h \<and> newspace_end h \<le> 4294967296 \<and>
     0 \<le> oldspace_begin h \<and> oldspace_end h \<le> 4294967296 \<and>
     (newspace_end h \<le> oldspace_begin h \<or> oldspace_end h \<le> newspace_begin h)"

definition collectable :: "heap \<Rightarrow> addr set \<Rightarrow> bool" where
  "collectable h Obj \<longleftrightarrow>
     finite Obj \<and> spaces_ok h \<and>
     (\<Sum>a\<in>Obj. 4 + span (mem h) a) < newspace_end h - newspace_begin h \<and>
     (\<forall>a\<in>Obj. wf_object h Obj a) \<and>
     (\<forall>a\<in>Obj. \<forall>b\<in>Obj. a \<noteq> b \<longrightarrow> apart (mem h) a b)"

text \<open>The objects that can be reached from a set of root descriptors.\<close>

inductive reachable :: "heap \<Rightarrow> scheme_value set \<Rightarrow> addr \<Rightarrow> bool" for h R where
  root: "v \<in> R \<Longrightarrow> points_old h v \<Longrightarrow> reachable h R (ADDRESS_AFTER_HEADER v)"
| field: "reachable h R a \<Longrightarrow> is_field (mem h) a i \<Longrightarrow> points_old h (load (mem h) (a + i)) \<Longrightarrow>
     reachable h R (ADDRESS_AFTER_HEADER (load (mem h) (a + i)))"

lemma span_nonneg: "0 \<le> span m a" and span_dvd [simp]: "4 dvd span m a"
  by (simp_all add: span_def)

lemma is_fieldD: "is_field m a i \<Longrightarrow> 0 \<le> i \<and> i + 4 \<le> span m a \<and> 4 dvd i"
  using dvd4_less [OF _ span_dvd] unfolding is_field_def by blast

subsection \<open>The row of copies\<close>

fun row :: "memory \<Rightarrow> (addr \<Rightarrow> addr) \<Rightarrow> addr \<Rightarrow> addr list \<Rightarrow> addr \<Rightarrow> bool" where
  "row m f b [] e \<longleftrightarrow> b = e"
| "row m f b (a # L) e \<longleftrightarrow> f a = b + 4 \<and> row m f (b + 4 + span m a) L e"

lemma row_append: "row m f b (L @ L') e \<longleftrightarrow> (\<exists>c. row m f b L c \<and> row m f c L' e)"
  by (induction L arbitrary: b) auto

lemma row_end: "row m f b L e \<Longrightarrow> e = b + (\<Sum>a\<leftarrow>L. 4 + span m a)"
proof (induction L arbitrary: b)
  case (Cons c L)
  then have "e = b + 4 + span m c + (\<Sum>a\<leftarrow>L. 4 + span m a)" by simp
  then show ?case by simp
qed simp

lemma row_cong: "(\<And>a. a \<in> set L \<Longrightarrow> f a = g a) \<Longrightarrow> row m f b L e \<longleftrightarrow> row m g b L e"
  by (induction L arbitrary: b) auto

lemma row_same_span:
  "row m f b L e \<Longrightarrow> (\<And>a. a \<in> set L \<Longrightarrow> span m' a = span m a) \<Longrightarrow> row m' f b L e"
  by (induction L arbitrary: b) auto

lemma row_le: "row m f b L e \<Longrightarrow> b \<le> e"
proof (induction L arbitrary: b)
  case (Cons c L)
  then have "b + 4 + span m c \<le> e" by simp
  then show ?case using span_nonneg [of m c] by linarith
qed simp

lemma row_bounds: "row m f b L e \<Longrightarrow> a \<in> set L \<Longrightarrow> b + 4 \<le> f a \<and> f a + span m a \<le> e"
proof (induction L arbitrary: b)
  case (Cons c L)
  show ?case
  proof (cases "a = c")
    case True
    with Cons.prems row_le [of m f "b + 4 + span m c" L e] show ?thesis by simp
  next
    case False
    with Cons.prems have "b + 4 + span m c + 4 \<le> f a" "f a + span m a \<le> e"
      using Cons.IH [of "b + 4 + span m c"] by simp_all
    then show ?thesis using span_nonneg [of m c] by linarith
  qed
qed simp

lemma row_dvd: "row m f b L e \<Longrightarrow> 4 dvd b \<Longrightarrow> (\<forall>a\<in>set L. 4 dvd f a) \<and> 4 dvd e"
  by (induction L arbitrary: b) auto

lemma row_apart:
  "row m f b L e \<Longrightarrow> distinct L \<Longrightarrow> a \<in> set L \<Longrightarrow> c \<in> set L \<Longrightarrow> a \<noteq> c \<Longrightarrow>
     f a + span m a \<le> f c - 4 \<or> f c + span m c \<le> f a - 4"
proof (induction L arbitrary: b)
  case (Cons d L)
  then show ?case
    using row_bounds [of m f "b + 4 + span m d" L e] Cons.IH [of "b + 4 + span m d"]
    by (cases "a = d"; cases "c = d") force+
qed simp

text \<open>The next cell after an object is the header of another one, or the end of the row.\<close>

lemma row_next:
  "row m f b L e \<Longrightarrow> a \<in> set L \<Longrightarrow>
     f a + span m a = e \<or> (\<exists>c\<in>set L. f a + span m a = f c - 4)"
proof (induction L arbitrary: b)
  case Nil
  then show ?case by simp
next
  case (Cons d L)
  then show ?case by (cases L) auto
qed

subsection \<open>The invariant of the collector\<close>

definition fw :: "heap \<Rightarrow> (addr \<Rightarrow> addr) \<Rightarrow> scheme_value \<Rightarrow> scheme_value" where
  "fw h f v = (if points_old h v then stob_at (f (ADDRESS_AFTER_HEADER v)) else v)"

text \<open>Old objects keep their contents; the header of a copied one is its forwarding pointer.\<close>

definition inv_old :: "heap \<Rightarrow> addr set \<Rightarrow> (addr \<Rightarrow> addr) \<Rightarrow> addr list \<Rightarrow> memory \<Rightarrow> bool" where
  "inv_old h0 Obj f L m \<longleftrightarrow> (\<forall>a\<in>Obj.
     hdr m a = (if a \<in> set L then stob_at (f a) else hdr (mem h0) a) \<and>
     (\<forall>i. 0 \<le> i \<and> i < span (mem h0) a \<longrightarrow> m (a + i) = mem h0 (a + i)))"

text \<open>A copy has the object's header and bytes; its fields below the scan pointer are forwarded.\<close>

definition inv_field :: "heap \<Rightarrow> (addr \<Rightarrow> addr) \<Rightarrow> addr list \<Rightarrow> addr \<Rightarrow> memory \<Rightarrow> addr \<Rightarrow> int \<Rightarrow> bool" where
  "inv_field h0 f L scan m a i \<longleftrightarrow>
     (if f a + i < scan
      then load m (f a + i) = fw h0 f (load (mem h0) (a + i)) \<and>
           (points_old h0 (load (mem h0) (a + i)) \<longrightarrow>
              ADDRESS_AFTER_HEADER (load (mem h0) (a + i)) \<in> set L)
      else load m (f a + i) = load (mem h0) (a + i))"

definition inv_new :: "heap \<Rightarrow> (addr \<Rightarrow> addr) \<Rightarrow> addr list \<Rightarrow> addr \<Rightarrow> memory \<Rightarrow> bool" where
  "inv_new h0 f L scan m \<longleftrightarrow> (\<forall>a\<in>set L.
     hdr m (f a) = hdr (mem h0) a \<and>
     (\<not> dvec (mem h0) a \<longrightarrow> (\<forall>i. 0 \<le> i \<and> i < uint (header_length (hdr (mem h0) a)) \<longrightarrow>
        m (f a + i) = mem h0 (a + i))) \<and>
     (\<forall>i. is_field (mem h0) a i \<longrightarrow> inv_field h0 f L scan m a i))"

definition cheney_inv ::
    "heap \<Rightarrow> addr set \<Rightarrow> scheme_value set \<Rightarrow> (addr \<Rightarrow> addr) \<Rightarrow> addr list \<Rightarrow> addr \<Rightarrow> addr \<Rightarrow> heap \<Rightarrow> bool"
  where
  "cheney_inv h0 Obj R f L scan F h \<longleftrightarrow>
     same_spaces h0 h \<and> distinct L \<and> set L \<subseteq> Obj \<and>
     row (mem h0) f (newspace_begin h0) L F \<and> scan \<le> F \<and>
     weak_pointer_hp h = weak_pointer_hp h0 \<and> (\<forall>a\<in>set L. reachable h0 R a) \<and>
     inv_old h0 Obj f L (mem h) \<and> inv_new h0 f L scan (mem h)"

lemma collectableD:
  assumes "collectable h Obj" "a \<in> Obj"
  shows "4 dvd a" "oldspace_begin h + 4 \<le> a" "a < oldspace_end h"
    "a + span (mem h) a \<le> oldspace_end h" "HEADERP (hdr (mem h) a)"
    "hdr (mem h) a \<noteq> weak_pointer_header" "0 \<le> a" "a < 4294967296"
  using assms by (auto simp: collectable_def wf_object_def spaces_ok_def)

lemma collectable_field:
  assumes "collectable h Obj" "a \<in> Obj" "is_field (mem h) a i"
  shows "\<not> HEADERP (load (mem h) (a + i))"
    "points_old h (load (mem h) (a + i)) \<Longrightarrow> ADDRESS_AFTER_HEADER (load (mem h) (a + i)) \<in> Obj"
  using assms by (auto simp: collectable_def wf_object_def wf_field_def)

lemma dvec_span:
  assumes "collectable h Obj" "a \<in> Obj" "dvec (mem h) a"
  shows "span (mem h) a = uint (header_length (hdr (mem h) a))"
  using assms by (simp add: collectable_def wf_object_def span_def header_span_exact)

lemma row_total:
  assumes "collectable h Obj" "row (mem h) f (newspace_begin h) L e" "distinct L" "set L \<subseteq> Obj"
  shows "e < newspace_end h"
proof -
  have "(\<Sum>a\<leftarrow>L. 4 + span (mem h) a) = (\<Sum>a\<in>set L. 4 + span (mem h) a)"
    using assms(3) by (rule sum_list_distinct_conv_sum_set)
  also have "\<dots> \<le> (\<Sum>a\<in>Obj. 4 + span (mem h) a)"
    using assms(1,4) by (intro sum_mono2) (auto simp: collectable_def intro: add_nonneg_nonneg span_nonneg)
  finally show ?thesis
    using row_end [OF assms(2)] assms(1) unfolding collectable_def by linarith
qed

text \<open>The memory after copying an object: what changed, and to what.\<close>

lemma copy_memory:
  assumes F: "w = load m (a + (- 4))" "F + 4 + header_span w \<le> a - 4 \<or> a + header_span w \<le> F"
    and m': "m' = memcpy (store (store m F w) (a + (- 4)) v) (F + 4) a (uint (header_length w))"
  shows "\<And>x. x < F \<or> F + 4 + header_span w \<le> x \<Longrightarrow> x < a - 4 \<or> a \<le> x \<Longrightarrow> m' x = m x"
    and "load m' (a + (- 4)) = v"
    and "load m' F = w"
    and "\<And>i. 0 \<le> i \<Longrightarrow> i < uint (header_length w) \<Longrightarrow> m' (F + 4 + i) = m (a + i)"
proof -
  note len = header_length_le_span [of w] header_span_nonneg [of w]
  show "m' x = m x" if "x < F \<or> F + 4 + header_span w \<le> x" "x < a - 4 \<or> a \<le> x" for x
  proof -
    have "m' x = store (store m F w) (a + (- 4)) v x"
      unfolding m' using that len by (intro memcpy_outside) linarith
    also have "\<dots> = store m F w x" using that by (intro store_byte_other) linarith
    also have "\<dots> = m x" using that len by (intro store_byte_other) linarith
    finally show ?thesis .
  qed
  have "load m' (a + (- 4)) = load (store (store m F w) (a + (- 4)) v) (a + (- 4))"
    unfolding m' using F len by (intro load_memcpy_outside) linarith
  then show "load m' (a + (- 4)) = v" by simp
  have "load m' F = load (store (store m F w) (a + (- 4)) v) F"
    unfolding m' by (intro load_memcpy_outside) simp
  also have "\<dots> = load (store m F w) F" using F len by (intro load_store_other) linarith
  finally show "load m' F = w" by simp
  show "m' (F + 4 + i) = m (a + i)" if "0 \<le> i" "i < uint (header_length w)" for i
  proof -
    have "m' (F + 4 + i) = store (store m F w) (a + (- 4)) v (a + i)"
      unfolding m' using that by (rule memcpy_inside)
    also have "\<dots> = store m F w (a + i)" using that by (intro store_byte_other) linarith
    also have "\<dots> = m (a + i)" using that F len by (intro store_byte_other) linarith
    finally show ?thesis .
  qed
qed

text \<open>Copying keeps what is known of the old space \<dots>\<close>

lemma copy_inv_old:
  assumes col: "collectable h0 Obj" and old: "inv_old h0 Obj f L m"
    and a: "a \<in> Obj" "a \<notin> set L"
    and F: "F + 4 + span (mem h0) a \<le> oldspace_begin h0 \<or> oldspace_end h0 \<le> F"
    and out: "\<And>x. x < F \<or> F + 4 + span (mem h0) a \<le> x \<Longrightarrow> x < a - 4 \<or> a \<le> x \<Longrightarrow> m' x = m x"
    and fwd: "load m' (a + (- 4)) = stob_at (F + 4)"
  shows "inv_old h0 Obj (f(a := F + 4)) (L @ [a]) m'"
  unfolding inv_old_def
proof (intro ballI conjI allI impI)
  fix b i assume b: "b \<in> Obj" and i: "0 \<le> i \<and> i < span (mem h0) b"
  note cb = collectableD [OF col b] and ca = collectableD [OF col a(1)]
  have ab: "a = b \<or> apart (mem h0) a b"
    using col a b by (auto simp: collectable_def)
  have "m' (b + i) = m (b + i)"
    using ab i cb F span_nonneg [of "mem h0" a]
    by (intro out) (auto simp: apart_def)
  then show "m' (b + i) = mem h0 (b + i)"
    using old b i by (simp add: inv_old_def)
next
  fix b assume b: "b \<in> Obj"
  note cb = collectableD [OF col b]
  show "hdr m' b = (if b \<in> set (L @ [a]) then stob_at ((f(a := F + 4)) b) else hdr (mem h0) b)"
  proof (cases "b = a")
    case True
    then show ?thesis using fwd by (simp add: hdr_def)
  next
    case False
    then have ab: "apart (mem h0) a b"
      using col a b by (auto simp: collectable_def)
    have "hdr m' b = hdr m b"
      unfolding hdr_def
      using ab cb F span_nonneg [of "mem h0" b] span_nonneg [of "mem h0" a]
      by (intro load_cong out) (auto simp: apart_def)
    then show ?thesis using False old b by (simp add: inv_old_def)
  qed
qed

text \<open>\<dots> and of the copies made before, and adds the new one.\<close>

lemma copy_inv_new:
  assumes col: "collectable h0 Obj" and new: "inv_new h0 f L scan m"
    and a: "a \<in> Obj" "a \<notin> set L" and L: "set L \<subseteq> Obj" and sF: "scan \<le> F"
    and row: "row (mem h0) f (newspace_begin h0) L F"
    and apart_old: "\<And>x. newspace_begin h0 \<le> x \<Longrightarrow> x < F + 4 + span (mem h0) a \<Longrightarrow> x < a - 4 \<or> a \<le> x"
    and out: "\<And>x. x < F \<or> F + 4 + span (mem h0) a \<le> x \<Longrightarrow> x < a - 4 \<or> a \<le> x \<Longrightarrow> m' x = m x"
    and h: "load m' F = hdr (mem h0) a"
    and cont: "\<And>i. 0 \<le> i \<Longrightarrow> i < uint (header_length (hdr (mem h0) a)) \<Longrightarrow> m' (F + 4 + i) = mem h0 (a + i)"
  shows "inv_new h0 (f(a := F + 4)) (L @ [a]) scan m'"
  unfolding inv_new_def
proof (intro ballI conjI allI impI)
  have keep: "m' x = m x" if "newspace_begin h0 \<le> x" "x < F" for x
    using that apart_old [of x] span_nonneg [of "mem h0" a] by (intro out) linarith+
  have keepw: "load m' x = load m x" if "newspace_begin h0 \<le> x" "x + 4 \<le> F" for x
    using that by (intro load_cong keep) auto
  fix b assume b: "b \<in> set (L @ [a])"
  have rb: "newspace_begin h0 + 4 \<le> f b" "f b + span (mem h0) b \<le> F" if "b \<in> set L"
    using row_bounds [OF row that] by simp_all
  show "hdr m' ((f(a := F + 4)) b) = hdr (mem h0) b"
  proof (cases "b = a")
    case True
    then show ?thesis using h by (simp add: hdr_def)
  next
    case False
    with b have bL: "b \<in> set L" by simp
    have "hdr m' (f b) = hdr m (f b)"
      unfolding hdr_def using rb [OF bL] span_nonneg [of "mem h0" b] by (intro keepw) auto
    then show ?thesis using False bL new by (simp add: inv_new_def)
  qed
  { fix i assume nd: "\<not> dvec (mem h0) b" and i: "0 \<le> i \<and> i < uint (header_length (hdr (mem h0) b))"
    show "m' ((f(a := F + 4)) b + i) = mem h0 (b + i)"
    proof (cases "b = a")
      case True
      then show ?thesis using cont i by simp
    next
      case False
      with b have bL: "b \<in> set L" by simp
      have "m' (f b + i) = m (f b + i)"
        using rb [OF bL] i header_length_le_span [of "hdr (mem h0) b"]
        by (intro keep) (auto simp: span_def)
      then show ?thesis using False bL new nd i by (simp add: inv_new_def)
    qed }
  fix i assume fi: "is_field (mem h0) b i"
  show "inv_field h0 (f(a := F + 4)) (L @ [a]) scan m' b i"
  proof (cases "b = a")
    case True
    then have "i + 4 \<le> uint (header_length (hdr (mem h0) a))"
      using is_fieldD [OF fi] dvec_span [OF col a(1)] fi by (simp add: is_field_def)
    then have "load m' (F + 4 + i) = load (mem h0) (a + i)"
      using is_fieldD [OF fi] cont by (intro load_cong) (simp add: add.assoc)
    then show ?thesis using True sF is_fieldD [OF fi] by (simp add: inv_field_def)
  next
    case False
    with b have bL: "b \<in> set L" by simp
    have "load m' (f b + i) = load m (f b + i)"
      using rb [OF bL] is_fieldD [OF fi] by (intro keepw) auto
    moreover have "inv_field h0 f L scan m b i" using new bL fi by (simp add: inv_new_def)
    ultimately show ?thesis
      using False a(2) by (auto simp: inv_field_def fw_def)
  qed
qed

text \<open>The new space up to the frontier and the old space do not overlap.\<close>

lemma new_old_apart:
  assumes col: "collectable h Obj" and "a \<in> Obj" "newspace_begin h \<le> x" "x < newspace_end h"
  shows "x < a - 4 \<or> a + span (mem h) a \<le> x"
  using assms collectableD [OF col assms(2)] by (auto simp: collectable_def spaces_ok_def)

lemma inv_hdr:
  assumes "inv_old h0 Obj f L m" "a \<in> Obj"
  shows "load m (a + (- 4)) = (if a \<in> set L then stob_at (f a) else hdr (mem h0) a)"
  using assms by (simp add: inv_old_def hdr_def)

lemma copy_step:
  assumes col: "collectable h0 Obj" and inv: "cheney_inv h0 Obj R f L scan F h"
    and t: "ADDRESS_AFTER_HEADER t = a" "a \<in> Obj" "reachable h0 R a"
    and c: "real_copy_object t F h = (new, F', h')"
  obtains f' L2 where "cheney_inv h0 Obj R f' (L @ L2) scan F' h'" "a \<in> set (L @ L2)"
    "new = stob_at (f' a)" "\<forall>b\<in>set L. f' b = f b" "row (mem h0) f' F L2 F'"
    "\<forall>x. newspace_begin h0 \<le> x \<and> x < F \<longrightarrow> mem h' x = mem h x"
proof -
  from inv have ss: "same_spaces h0 h" and L: "distinct L" "set L \<subseteq> Obj"
    and row: "row (mem h0) f (newspace_begin h0) L F" and sF: "scan \<le> F"
    and re: "\<forall>a\<in>set L. reachable h0 R a" and old: "inv_old h0 Obj f L (mem h)"
    and new: "inv_new h0 f L scan (mem h)" and weak: "weak_pointer_hp h = weak_pointer_hp h0"
    by (simp_all add: cheney_inv_def)
  have nb: "4 dvd newspace_begin h0" using col by (simp add: collectable_def spaces_ok_def)
  show thesis
  proof (cases "a \<in> set L")
    case True
    then have "4 dvd f a" using row_dvd [OF row nb] by blast
    then have "new = stob_at (f a)" "F' = F" "h' = h"
      using c True t(1) inv_hdr [OF old t(2)] by (simp_all add: real_copy_object_def)
    then show thesis using inv True by (intro that [of f "[]"]) simp_all
  next
    case False
    let ?w = "hdr (mem h0) a" and ?f = "f(a := F + 4)"
    let ?m = "memcpy (store (store (mem h) F ?w) (a + (- 4)) (stob_at (F + 4))) (F + 4) a
                (uint (header_length ?w))"
    note ca = collectableD [OF col t(2)]
    have w: "load (mem h) (a + (- 4)) = ?w" using inv_hdr [OF old t(2)] False by simp
    then have eqs: "new = stob_at (F + 4)" "F' = F + 4 + span (mem h0) a" "h' = h\<lparr>mem := ?m\<rparr>"
      using c t(1) ca stob_not_header by (auto simp: real_copy_object_def Let_def span_def)
    have fresh: "\<forall>b\<in>set L. ?f b = f b" using False by auto
    have row': "row (mem h0) ?f (newspace_begin h0) (L @ [a]) F'"
      using row row_cong [of L ?f f] fresh eqs by (auto simp: row_append)
    have F'_lt: "F' < newspace_end h0"
      using row_total [OF col row'] L False t(2) by simp
    have nF: "newspace_begin h0 \<le> F" using row_le [OF row] .
    have ap: "x < a - 4 \<or> a + span (mem h0) a \<le> x" if "newspace_begin h0 \<le> x" "x < F'" for x
      using new_old_apart [OF col t(2)] that F'_lt by auto
    have aF: "F + 4 + span (mem h0) a \<le> oldspace_begin h0 \<or> oldspace_end h0 \<le> F"
      using F'_lt nF eqs(2) col by (auto simp: collectable_def spaces_ok_def)
    then have aF4: "F + 4 + header_span ?w \<le> a - 4 \<or> a + header_span ?w \<le> F"
      using ca by (auto simp: span_def)
    have below: "x < a - 4 \<or> a \<le> x" if "newspace_begin h0 \<le> x" "x < F'" for x
      using ap [OF that] span_nonneg [of "mem h0" a] by linarith
    note cm = copy_memory [OF w [symmetric] aF4 refl, where v = "stob_at (F + 4)"]
    note out = cm(1) [folded span_def]
    have cont: "?m (F + 4 + i) = mem h0 (a + i)" if "0 \<le> i" "i < uint (header_length ?w)" for i
      using cm(4) [OF that] that old t(2) header_length_le_span [of ?w]
      by (simp add: inv_old_def span_def)
    have "inv_old h0 Obj ?f (L @ [a]) ?m"
      using copy_inv_old [OF col old t(2) False aF out cm(2)] by simp
    moreover have "inv_new h0 ?f (L @ [a]) scan ?m"
      using below by (intro copy_inv_new [OF col new t(2) False L(2) sF row _ out cm(3) cont]) (simp_all add: eqs)
    moreover have "scan \<le> F'" using sF eqs(2) span_nonneg [of "mem h0" a] by linarith
    ultimately have "cheney_inv h0 Obj R ?f (L @ [a]) scan F' h'"
      using ss L False t(2,3) re row' eqs(3) weak by (simp add: cheney_inv_def)
    moreover have "?m x = mem h x" if "newspace_begin h0 \<le> x" "x < F" for x
      using below that eqs(2) span_nonneg [of "mem h0" a] by (intro out) auto
    then have "\<forall>x. newspace_begin h0 \<le> x \<and> x < F \<longrightarrow> mem h' x = mem h x"
      by (simp add: eqs(3))
    ultimately show thesis using fresh eqs by (intro that [of ?f "[a]"]) simp_all
  qed
qed

end
