(* ===== verification/Heap_Scan.thy ===== *)
theory Heap_Scan
  imports Heap_Cheney
begin

text \<open>
  The scan of the copies: one cell at a time, then a whole pass of \<open>trace_locations!\<close> over
  what has been copied, then the loop that repeats it until nothing new is copied. The
  result is the correctness of a collection from a root.
\<close>

subsection \<open>Advancing the scan pointer\<close>

lemma dvd4_cases: "4 dvd i \<Longrightarrow> 4 dvd j \<Longrightarrow> i = j \<or> i + 4 \<le> j \<or> j + 4 \<le> (i :: int)"
  by presburger

lemma skip_step:
  assumes inv: "cheney_inv h0 Obj R f L p F h" and "p' \<le> F" "p \<le> p'"
    and none: "\<And>b i. b \<in> set L \<Longrightarrow> is_field (mem h0) b i \<Longrightarrow> f b + i < p \<or> p' \<le> f b + i"
  shows "cheney_inv h0 Obj R f L p' F h"
proof -
  have "inv_field h0 f L p' (mem h) b i"
    if "inv_field h0 f L p (mem h) b i" "b \<in> set L" "is_field (mem h0) b i" for b i
    using that none [OF that(2,3)] \<open>p \<le> p'\<close> by (auto simp: inv_field_def)
  then show ?thesis using inv \<open>p' \<le> F\<close> by (auto simp: cheney_inv_def inv_new_def)
qed

lemma field_step:
  assumes col: "collectable h0 Obj" and inv: "cheney_inv h0 Obj R f L p F h"
    and a: "a \<in> set L" "is_field (mem h0) a i" "p = f a + i"
    and v: "v = load (mem h0) (a + i)" "points_old h0 v \<Longrightarrow> ADDRESS_AFTER_HEADER v \<in> set L"
  shows "cheney_inv h0 Obj R f L (p + 4) F (h\<lparr>mem := store (mem h) p (fw h0 f v)\<rparr>)"
proof -
  let ?m = "store (mem h) p (fw h0 f v)"
  from inv have L: "distinct L" "set L \<subseteq> Obj"
    and row: "row (mem h0) f (newspace_begin h0) L F"
    and old: "inv_old h0 Obj f L (mem h)"
    and new: "inv_new h0 f L p (mem h)" by (simp_all add: cheney_inv_def)
  note fi = is_fieldD [OF a(2)] and ra = row_bounds [OF row a(1)]
  have pF: "newspace_begin h0 \<le> p" "p + 4 \<le> F" "p < newspace_end h0" "p + 4 \<le> newspace_end h0"
    using fi ra a(3) row_total [OF col row L] by auto
  have old': "inv_old h0 Obj f L ?m"
    unfolding inv_old_def
  proof (intro ballI conjI allI impI)
    fix b assume b: "b \<in> Obj"
    have ap: "p + 4 \<le> b - 4 \<or> b + span (mem h0) b \<le> p"
      using new_old_apart [OF col b, of p] new_old_apart [OF col b, of "p + 3"] pF
        span_nonneg [of "mem h0" b] by linarith
    have "load ?m (b + (- 4)) = load (mem h) (b + (- 4))"
      using ap span_nonneg [of "mem h0" b] by (intro load_store_other) linarith
    then show "hdr ?m b = (if b \<in> set L then stob_at (f b) else hdr (mem h0) b)"
      using inv_hdr [OF old b] by (simp only: hdr_def)
    fix j assume "0 \<le> j \<and> j < span (mem h0) b"
    then show "?m (b + j) = mem h0 (b + j)"
      using ap old b by (subst store_byte_other) (auto simp: inv_old_def)
  qed
  have dis: "f b + span (mem h0) b \<le> p \<or> p + 4 \<le> f b - 4" if "b \<in> set L" "b \<noteq> a" for b
    using row_apart [OF row L(1) that(1) a(1) that(2)] fi a(3) by linarith
  have "inv_new h0 f L (p + 4) ?m"
    unfolding inv_new_def
  proof (intro ballI conjI allI impI)
    fix b assume b: "b \<in> set L"
    have hb: "f b \<le> p \<or> p + 4 \<le> f b - 4"
      using dis [OF b] fi a(3) span_nonneg [of "mem h0" b] by (cases "b = a") force+
    have "hdr ?m (f b) = hdr (mem h) (f b)"
      unfolding hdr_def using hb by (intro load_store_other) linarith
    then show "hdr ?m (f b) = hdr (mem h0) b" using new b by (simp add: inv_new_def)
    { fix j assume nd: "\<not> dvec (mem h0) b" and j: "0 \<le> j \<and> j < uint (header_length (hdr (mem h0) b))"
      then have "b \<noteq> a" using a(2) by (auto simp: is_field_def)
      from dis [OF b this] j header_length_le_span [of "hdr (mem h0) b"]
      have "?m (f b + j) = mem h (f b + j)"
        by (intro store_byte_other) (auto simp: span_def)
      then show "?m (f b + j) = mem h0 (b + j)" using new b nd j by (simp add: inv_new_def) }
    fix j assume fj: "is_field (mem h0) b j"
    note fj' = is_fieldD [OF fj]
    have inv_j: "inv_field h0 f L p (mem h) b j" using new b fj by (simp add: inv_new_def)
    show "inv_field h0 f L (p + 4) ?m b j"
    proof (cases "b = a \<and> j = i")
      case True
      then show ?thesis using a(3) v by (simp add: inv_field_def)
    next
      case False
      have "f b + j + 4 \<le> p \<or> p + 4 \<le> f b + j"
      proof (cases "b = a")
        case True
        with False dvd4_cases [of i j] fi fj' a(3) show ?thesis by auto
      next
        case False
        from dis [OF b this] fj' show ?thesis by linarith
      qed
      then show ?thesis using inv_j by (auto simp: inv_field_def load_store_other)
    qed
  qed
  then show ?thesis using inv old' pF by (simp add: cheney_inv_def)
qed

subsection \<open>A pass over the copies\<close>

definition at_cell :: "memory \<Rightarrow> (addr \<Rightarrow> addr) \<Rightarrow> addr list \<Rightarrow> addr \<Rightarrow> addr \<Rightarrow> bool" where
  "at_cell m f L p e \<longleftrightarrow>
     p = e \<or> (\<exists>a\<in>set L. p = f a - 4 \<or> (\<exists>i. is_field m a i \<and> p = f a + i))"

lemma at_cell_cases [consumes 1, case_names stop header field]:
  assumes "at_cell m f L p e"
  obtains "p = e" | a where "a \<in> set L" "p = f a - 4"
    | a i where "a \<in> set L" "is_field m a i" "p = f a + i"
  using assms unfolding at_cell_def by blast

lemma at_cell_begin: "row m f b L e \<Longrightarrow> at_cell m f L b e"
  by (cases L) (auto simp: at_cell_def)

lemma at_cell_after:
  "row m f b L e \<Longrightarrow> a \<in> set L \<Longrightarrow> at_cell m f L (f a + span m a) e"
  using row_next unfolding at_cell_def by blast

lemma at_cell_field:
  assumes "row m f b L e" "a \<in> set L" "dvec m a" "4 dvd i" "0 \<le> i" "i \<le> span m a"
  shows "at_cell m f L (f a + i) e"
proof (cases "i = span m a")
  case True
  then show ?thesis using at_cell_after assms by simp
next
  case False
  then have "is_field m a i" using assms by (simp add: is_field_def)
  then show ?thesis using assms(2) by (auto simp: at_cell_def)
qed

lemma at_cell_cong:
  "(\<And>a. a \<in> set L \<Longrightarrow> f a = g a) \<Longrightarrow> at_cell m f L p e \<longleftrightarrow> at_cell m g L p e"
  by (auto simp: at_cell_def)

lemma trace_loop_inv:
  assumes col: "collectable h0 Obj"
  shows "cheney_inv h0 Obj R f (L1 @ L2) p F h \<Longrightarrow> row (mem h0) f (newspace_begin h0) L1 e \<Longrightarrow>
     at_cell (mem h0) f L1 p e \<Longrightarrow> trace_loop p e F h = (F', h') \<Longrightarrow>
     \<exists>f' L3. cheney_inv h0 Obj R f' (L1 @ L2 @ L3) e F' h' \<and> (\<forall>b\<in>set (L1 @ L2). f' b = f b) \<and>
       row (mem h0) f' F L3 F'"
proof (induction "nat (e - p)" arbitrary: p f L2 F h rule: less_induct)
  case less
  note inv = less.prems(1) and row1 = less.prems(2) and tr = less.prems(4)
  from inv have row: "row (mem h0) f (newspace_begin h0) (L1 @ L2) F"
    and new: "inv_new h0 f (L1 @ L2) p (mem h)" and L: "set (L1 @ L2) \<subseteq> Obj" "distinct (L1 @ L2)"
    and re: "\<forall>a\<in>set (L1 @ L2). reachable h0 R a" and ss: "same_spaces h0 h"
    by (simp_all add: cheney_inv_def)
  have eF: "e \<le> F"
    using row row1 row_le by (metis row_append row_end)
  have step: "\<exists>f' L3. cheney_inv h0 Obj R f' (L1 @ L2 @ L3) e F' h' \<and>
      (\<forall>b\<in>set (L1 @ L2). f' b = f b) \<and> row (mem h0) f' F L3 F'"
    if "p < p'" "at_cell (mem h0) f L1 p' e" "cheney_inv h0 Obj R f (L1 @ L2) p' F h"
      "trace_loop p' e F h = (F', h')" "p < e" for p'
    using less.hyps [OF _ that(3) row1 that(2,4)] that(1,5) by simp
  from less.prems(3) show ?case
  proof (cases rule: at_cell_cases)
    case stop
    then show ?thesis using inv tr row by (intro exI [of _ f] exI [of _ "[]"]) (simp add: trace_loop_stop)
  next
    case (header a)
    note ra = row_bounds [OF row1 header(1)] and sp = span_nonneg [of "mem h0" a]
    have aL: "a \<in> set (L1 @ L2)" "a \<in> Obj" using header(1) L by auto
    have th: "load (mem h) p = hdr (mem h0) a"
      using new aL header(2) by (simp add: inv_new_def hdr_def)
    note H = collectableD(5) [OF col aL(2)]
    have lt: "p < e" using ra header(2) sp by linarith
    have none: "f b + i < p \<or> p'' \<le> f b + i"
      if "b \<in> set (L1 @ L2)" "is_field (mem h0) b i" "p'' \<le> f a + span (mem h0) a"
         "dvec (mem h0) a \<longrightarrow> p'' \<le> f a" for b i p''
    proof (cases "b = a")
      case True
      then show ?thesis using that is_fieldD [OF that(2)] by (auto simp: is_field_def)
    next
      case False
      then show ?thesis
        using row_apart [OF row L(2) that(1) aL(1)] is_fieldD [OF that(2)] header(2) that(3) by auto
    qed
    show ?thesis
    proof (cases "dvec (mem h0) a")
      case True
      then have "trace_loop p e F h = trace_loop (p + 4) e F h"
        using lt th H by (intro trace_loop_next) (auto simp: dvec_def stob_not_header)
      moreover have "at_cell (mem h0) f L1 (p + 4) e"
        using at_cell_field [OF row1 header(1) True, of 0] header(2) sp by simp
      moreover have "cheney_inv h0 Obj R f (L1 @ L2) (p + 4) F h"
        using none ra header(2) eF sp by (intro skip_step [OF inv]) auto
      ultimately show ?thesis using step [of "p + 4"] tr lt by simp
    next
      case False
      let ?p = "p + 4 + span (mem h0) a"
      have "trace_loop p e F h = trace_loop ?p e F h"
        using lt th H False unfolding span_def dvec_def by (subst trace_loop_skip) simp_all
      moreover have "at_cell (mem h0) f L1 ?p e"
        using at_cell_after [OF row1 header(1)] header(2) by (simp add: algebra_simps)
      moreover have "cheney_inv h0 Obj R f (L1 @ L2) ?p F h"
        using none ra header(2) eF sp False by (intro skip_step [OF inv]) auto
      ultimately show ?thesis using step [of ?p] tr lt sp by simp
    qed
  next
    case (field a i)
    let ?v = "load (mem h0) (a + i)"
    note ra = row_bounds [OF row1 field(1)] and fi = is_fieldD [OF field(2)]
    have aL: "a \<in> set (L1 @ L2)" "a \<in> Obj" using field(1) L by auto
    have th: "load (mem h) p = ?v"
      using new aL field by (auto simp: inv_new_def inv_field_def)
    have lt: "p < e" using ra field(3) fi by linarith
    note wf = collectable_field [OF col aL(2) field(2)]
    have po: "points_old h0 ?v \<longleftrightarrow> STOBP ?v \<and> in_oldspace h (ADDRESS_AFTER_HEADER ?v)"
      by (simp add: points_old_def same_spacesD(6) [OF ss])
    have dv: "dvec (mem h0) a" using field(2) by (simp add: is_field_def)
    have cell: "at_cell (mem h0) f L1 (p + 4) e"
      using at_cell_field [OF row1 field(1) dv, of "i + 4"] fi field(3) by (simp add: algebra_simps)
    show ?thesis
    proof (cases "points_old h0 ?v")
      case True
      obtain nw F1 h1 where c: "real_copy_object ?v F h = (nw, F1, h1)"
        by (cases "real_copy_object ?v F h")
      have "reachable h0 R (ADDRESS_AFTER_HEADER ?v)"
        using re aL field(2) True by (blast intro: reachable.field)
      from copy_step [OF col inv refl wf(2) [OF True] this c]
      obtain f1 L3 where inv1: "cheney_inv h0 Obj R f1 ((L1 @ L2) @ L3) p F1 h1"
        and tgt: "ADDRESS_AFTER_HEADER ?v \<in> set ((L1 @ L2) @ L3)"
        and nw: "nw = stob_at (f1 (ADDRESS_AFTER_HEADER ?v))"
        and f1: "\<forall>b\<in>set (L1 @ L2). f1 b = f b" and row3: "row (mem h0) f1 F L3 F1" by blast
      let ?h = "h1\<lparr>mem := store (mem h1) p nw\<rparr>"
      have "trace_loop p e F h = trace_loop (p + 4) e F1 ?h"
        using lt th True po c by (intro trace_loop_copy) simp_all
      then have tr': "trace_loop (p + 4) e F1 ?h = (F', h')" using tr by simp
      have fw: "fw h0 f1 ?v = nw" using True nw by (simp add: fw_def)
      have "cheney_inv h0 Obj R f1 (L1 @ (L2 @ L3)) (p + 4) F1 ?h"
        using field_step [OF col inv1, of a i ?v] aL field f1 tgt by (simp add: fw)
      moreover have "row (mem h0) f1 (newspace_begin h0) L1 e"
        using row1 f1 row_cong [of L1 f1 f] by simp
      moreover have "at_cell (mem h0) f1 L1 (p + 4) e"
        using cell f1 at_cell_cong [of L1 f1 f] by simp
      ultimately obtain f' L4 where
        *: "cheney_inv h0 Obj R f' (L1 @ (L2 @ L3) @ L4) e F' h'"
          "\<forall>b\<in>set (L1 @ L2 @ L3). f' b = f1 b" "row (mem h0) f' F1 L4 F'"
        using less.hyps [of "p + 4" f1 "L2 @ L3" F1 ?h] tr' lt by auto
      have "row (mem h0) f' F (L3 @ L4) F'"
        using row3 * row_cong [of L3 f' f1] by (auto simp: row_append)
      moreover have "\<forall>b\<in>set (L1 @ L2). f' b = f b" using *(2) f1 by auto
      ultimately show ?thesis
        using *(1) by (intro exI [of _ f'] exI [of _ "L3 @ L4"]) simp
    next
      case False
      then have "trace_loop p e F h = trace_loop (p + 4) e F h"
        using lt th po wf(1) by (intro trace_loop_next) auto
      moreover have "cheney_inv h0 Obj R f (L1 @ L2) (p + 4) F (h\<lparr>mem := store (mem h) p (fw h0 f ?v)\<rparr>)"
        using field_step [OF col inv aL(1) field(2,3) refl] False by simp
      moreover have "store (mem h) p (fw h0 f ?v) = mem h"
        using False th store_load_id by (simp add: fw_def) metis
      ultimately show ?thesis using step [of "p + 4"] cell tr lt by simp
    qed
  qed
qed

subsection \<open>The scan loop\<close>

text \<open>
  The loop always finishes, and finishes with every copy scanned: it cannot run out of the
  new space, because the copies together are no larger than the objects of the old one.
\<close>

lemma scan_loop_inv:
  assumes col: "collectable h0 Obj" and lim: "limit h0 = newspace_end h0"
  shows "cheney_inv h0 Obj R f (L1 @ L2) start (hp h) h \<Longrightarrow>
     row (mem h0) f (newspace_begin h0) L1 start \<Longrightarrow>
     \<exists>h' f' L'. scan_loop start h = Some h' \<and> cheney_inv h0 Obj R f' L' (hp h') (hp h') h' \<and>
       set (L1 @ L2) \<subseteq> set L' \<and> (\<forall>b\<in>set (L1 @ L2). f' b = f b)"
proof (induction "nat (limit h0 - hp h)" arbitrary: f L1 L2 start h rule: less_induct)
  case less
  let ?L = "L1 @ L2"
  from less.prems have row: "row (mem h0) f (newspace_begin h0) ?L (hp h)"
    by (simp add: cheney_inv_def)
  then have row2: "row (mem h0) f start L2 (hp h)"
    using less.prems(2) by (metis row_append row_end)
  then have cell: "at_cell (mem h0) f (?L @ []) start (hp h)"
    using at_cell_begin [OF row2] by (auto simp: at_cell_def)
  obtain F' h' where tr: "trace_loop start (hp h) (hp h) h = (F', h')"
    by (cases "trace_loop start (hp h) (hp h) h")
  have inv: "cheney_inv h0 Obj R f (?L @ []) start (hp h) h" using less.prems(1) by simp
  from trace_loop_inv [OF col inv row _ tr] cell
  obtain f' L3 where inv': "cheney_inv h0 Obj R f' (?L @ L3) (hp h) F' h'"
    and f': "\<forall>b\<in>set ?L. f' b = f b" and row3: "row (mem h0) f' (hp h) L3 F'" by auto
  let ?h = "h'\<lparr>hp := F'\<rparr>"
  have inv'': "cheney_inv h0 Obj R f' (?L @ L3) (hp h) (hp ?h) ?h"
    using inv' by (simp add: cheney_inv_def)
  have F': "F' < newspace_end h0"
    using inv' by (intro row_total [OF col]) (auto simp: cheney_inv_def)
  have lim': "limit ?h = limit h0"
    using inv' same_spacesD(5) [of h0 h'] by (simp add: cheney_inv_def)
  have unf: "scan_loop start h = (if hp h < F' then scan_loop (hp h) ?h else Some ?h)"
    using F' lim lim' by (subst scan_loop.simps) (simp add: trace_locationsB_def tr Let_def)
  show ?case
  proof (cases "hp h < F'")
    case True
    have "nat (limit h0 - hp ?h) < nat (limit h0 - hp h)" using True F' lim by simp
    from less.hyps [OF this inv''] row f' row_cong [of ?L f' f]
    obtain h2 f2 L' where "scan_loop (hp h) ?h = Some h2"
      "cheney_inv h0 Obj R f2 L' (hp h2) (hp h2) h2" "set (?L @ L3) \<subseteq> set L'"
      "\<forall>b\<in>set (?L @ L3). f2 b = f' b" by auto
    then show ?thesis using unf True f'
      by (intro exI [of _ h2] exI [of _ f2] exI [of _ L']) auto
  next
    case False
    then have eq: "F' = hp h" using row_le [OF row3] by simp
    then show ?thesis using unf inv'' f'
      by (intro exI [of _ ?h] exI [of _ f'] exI [of _ "?L @ L3"]) auto
  qed
qed

subsection \<open>Roots\<close>

lemma trace_value_inv:
  assumes col: "collectable h0 Obj" and inv: "cheney_inv h0 Obj R f L scan (hp h) h"
    and v: "v \<in> R" "wf_field h0 Obj v" and tv: "trace_value v h = (v', h')"
  shows "\<exists>f' L2. cheney_inv h0 Obj R f' (L @ L2) scan (hp h') h' \<and> v' = fw h0 f' v \<and>
     (points_old h0 v \<longrightarrow> ADDRESS_AFTER_HEADER v \<in> set (L @ L2)) \<and> (\<forall>b\<in>set L. f' b = f b)"
proof (cases "points_old h0 v")
  case True
  have po: "STOBP v \<and> in_oldspace h (ADDRESS_AFTER_HEADER v)"
    using True inv same_spacesD(6) [of h0 h] by (simp add: points_old_def cheney_inv_def)
  obtain new F' h1 where c: "real_copy_object v (hp h) h = (new, F', h1)"
    by (cases "real_copy_object v (hp h) h")
  then have eqs: "v' = new" "h' = h1\<lparr>hp := F'\<rparr>" using tv po by (simp_all add: trace_value_def)
  have "ADDRESS_AFTER_HEADER v \<in> Obj" "reachable h0 R (ADDRESS_AFTER_HEADER v)"
    using True v by (simp_all add: wf_field_def reachable.root)
  from copy_step [OF col inv refl this c]
  obtain f' L2 where *: "cheney_inv h0 Obj R f' (L @ L2) scan F' h1"
      "ADDRESS_AFTER_HEADER v \<in> set (L @ L2)" "new = stob_at (f' (ADDRESS_AFTER_HEADER v))"
      "\<forall>b\<in>set L. f' b = f b" by blast
  then show ?thesis using True eqs
    by (intro exI [of _ f'] exI [of _ L2]) (simp add: fw_def cheney_inv_def)
next
  case False
  then have "\<not> (STOBP v \<and> in_oldspace h (ADDRESS_AFTER_HEADER v))"
    using inv same_spacesD(6) [of h0 h] by (simp add: points_old_def cheney_inv_def)
  then have "v' = v" "h' = h" using tv by (auto simp: trace_value_def split: if_splits)
  then show ?thesis using inv False
    by (intro exI [of _ f] exI [of _ "[]"]) (simp add: fw_def)
qed

lemma cheney_inv_start:
  "collectable h0 Obj \<Longrightarrow> hp h0 = newspace_begin h0 \<Longrightarrow>
     cheney_inv h0 Obj R f [] (newspace_begin h0) (hp h0) h0"
  by (simp add: cheney_inv_def inv_old_def inv_new_def)

subsection \<open>What a finished collection holds\<close>

text \<open>The copies are an isomorphic image of the objects of \<open>A\<close>.\<close>

definition is_copy :: "heap \<Rightarrow> heap \<Rightarrow> (addr \<Rightarrow> addr) \<Rightarrow> addr set \<Rightarrow> bool" where
  "is_copy h0 h f A \<longleftrightarrow>
     (\<forall>a\<in>A. newspace_begin h0 + 4 \<le> f a \<and> f a + span (mem h0) a \<le> hp h \<and> 4 dvd f a \<and>
        hdr (mem h) (f a) = hdr (mem h0) a \<and>
        (\<not> dvec (mem h0) a \<longrightarrow> (\<forall>i. 0 \<le> i \<and> i < uint (header_length (hdr (mem h0) a)) \<longrightarrow>
           mem h (f a + i) = mem h0 (a + i))) \<and>
        (\<forall>i. is_field (mem h0) a i \<longrightarrow>
           load (mem h) (f a + i) = fw h0 f (load (mem h0) (a + i)))) \<and>
     (\<forall>a\<in>A. \<forall>b\<in>A. a \<noteq> b \<longrightarrow>
        f a + span (mem h0) a \<le> f b - 4 \<or> f b + span (mem h0) b \<le> f a - 4)"

lemma cheney_inv_done:
  assumes col: "collectable h0 Obj" and inv: "cheney_inv h0 Obj R f L (hp h) (hp h) h"
    and roots: "\<And>v. v \<in> R \<Longrightarrow> points_old h0 v \<Longrightarrow> ADDRESS_AFTER_HEADER v \<in> set L"
  shows "set L = {a. reachable h0 R a}" and "is_copy h0 h f {a. reachable h0 R a}"
    and "hp h = newspace_begin h0 + (\<Sum>a | reachable h0 R a. 4 + span (mem h0) a)"
    and "hp h < newspace_end h0"
proof -
  from inv have L: "distinct L" "set L \<subseteq> Obj" and row: "row (mem h0) f (newspace_begin h0) L (hp h)"
    and re: "\<forall>a\<in>set L. reachable h0 R a" and new: "inv_new h0 f L (hp h) (mem h)"
    by (simp_all add: cheney_inv_def)
  have below: "f a + i < hp h" if "a \<in> set L" "is_field (mem h0) a i" for a i
    using row_bounds [OF row that(1)] is_fieldD [OF that(2)] by linarith
  have "a \<in> set L" if "reachable h0 R a" for a
    using that
  proof (induction rule: reachable.induct)
    case (root v)
    then show ?case by (rule roots)
  next
    case (field a i)
    then show ?case using new below [of a i] by (auto simp: inv_new_def inv_field_def)
  qed
  then show eq: "set L = {a. reachable h0 R a}" using re by auto
  have nb: "4 dvd newspace_begin h0" using col by (simp add: collectable_def spaces_ok_def)
  show "is_copy h0 h f {a. reachable h0 R a}"
    unfolding is_copy_def eq [symmetric]
    using row_bounds [OF row] row_dvd [OF row nb] row_apart [OF row L(1)] new below
    by (auto simp: inv_new_def inv_field_def)
  show "hp h = newspace_begin h0 + (\<Sum>a | reachable h0 R a. 4 + span (mem h0) a)"
    using row_end [OF row] sum_list_distinct_conv_sum_set [OF L(1), of "\<lambda>a. 4 + span (mem h0) a"] eq
    by simp
  show "hp h < newspace_end h0" by (rule row_total [OF col row L])
qed

end
