(* ===== verification/Heap_GC.thy ===== *)
theory Heap_GC
  imports Heap_Scan
begin

text \<open>
  The rest of a collection (\<open>src/c/scheme48heap.c\<close>): cleaning the copied weak pointers,
  the finalizer list, and \<open>do_gc\<close>. The loops that follow pointers stored in the heap may
  not end on an arbitrary memory, so they are partial: \<open>None\<close> is a run that does not return,
  because such a loop runs for ever or because \<open>ps_error\<close> has ended the process.
\<close>

subsection \<open>Weak pointers\<close>

function clean_weak_scan :: "addr \<Rightarrow> addr \<Rightarrow> heap \<Rightarrow> heap" where
  "clean_weak_scan scan end h =
     (if scan < end
      then let m = store (mem h) scan weak_pointer_header;
               value = load m (scan + 4);
               hd = load m (ADDRESS_AFTER_HEADER value + (- 4));
               m1 = (if STOBP value \<and> in_oldspace h (ADDRESS_AFTER_HEADER value)
                     then store m (scan + 4) (if STOBP hd then hd else SCHFALSE)
                     else m)
           in clean_weak_scan (scan + 8) end (h\<lparr>mem := m1\<rparr>)
      else h)"
  by pat_completeness auto
termination
  by (relation "measure (\<lambda>(scan, end, _). nat (end - scan))") simp_all

declare clean_weak_scan.simps [simp del]

text \<open>
  The chunks are chained through their third cell, which holds the allocation pointer of
  the chunk before, at that chunk's end. The unused rest of the last chunk becomes a code
  vector.
\<close>

partial_function (option) clean_weak_chunks :: "addr \<Rightarrow> addr \<Rightarrow> addr \<Rightarrow> heap \<Rightarrow> heap option" where
  "clean_weak_chunks start end end16 h =
     (let next = uint (load (mem h) (start + 8));
          h1 = clean_weak_scan start end h
      in if next = 0
         then Some (if end16 < weak_pointer_limit h1
                    then h1\<lparr>mem := store (mem h1) end16
                           (82 + push_bit 8 ((- 4) AND word_of_int (weak_pointer_limit h1 - (end16 + 4))))\<rparr>
                    else h1)
         else clean_weak_chunks (next + (- 1024)) next end16 h1)"

declare clean_weak_chunks.simps [code]

definition clean_weak_pointers :: "heap \<Rightarrow> heap option" where
  "clean_weak_pointers h =
     (if weak_pointer_hp h = 0 then Some h
      else clean_weak_chunks (weak_pointer_limit h + (- 1024)) (weak_pointer_hp h)
             (weak_pointer_hp h) h)"

subsection \<open>Finalizers\<close>

text \<open>
  The first pass over the finalizer list: trace what each object not yet copied holds, and
  its finalizing procedure. 25 is the empty list.
\<close>

partial_function (option) trace_finalizers :: "scheme_value \<Rightarrow> heap \<Rightarrow> heap option" where
  "trace_finalizers alist h =
     (if alist = SCHNULL then Some h
      else let pair = load (mem h) (ADDRESS_AFTER_HEADER alist);
               thing = load (mem h) (ADDRESS_AFTER_HEADER pair);
               descriptor = load (mem h) (ADDRESS_AFTER_HEADER thing + (- 4));
               h1 = (if HEADERP descriptor then trace_stob_contentsB thing h else h);
               (value, h2) = trace_value (load (mem h1) (ADDRESS_AFTER_HEADER pair + 4)) h1;
               h3 = h2\<lparr>mem := store (mem h2) (ADDRESS_AFTER_HEADER pair + 4) value\<rparr>
           in trace_finalizers (load (mem h3) (ADDRESS_AFTER_HEADER alist + 4)) h3)"

declare trace_finalizers.simps [code]

text \<open>Whether a value has been traced already, and its new descriptor, copying it if not.\<close>

definition finalizer_thing :: "scheme_value \<Rightarrow> heap \<Rightarrow> bool \<times> scheme_value \<times> heap" where
  "finalizer_thing thing h =
     (if STOBP thing \<and> in_oldspace h (ADDRESS_AFTER_HEADER thing)
      then let hd = load (mem h) (ADDRESS_AFTER_HEADER thing + (- 4))
           in if STOBP hd then (True, hd, h)
              else let (new_thing, new_hp, h1) = real_copy_object thing (hp h) h
                   in (False, new_thing, h1\<lparr>hp := new_hp\<rparr>)
      else (True, thing, h))"

text \<open>
  The second pass: copy the list itself, and put each entry on the list of those whose
  object is still alive or of those whose object is gone.
\<close>

definition copy_to_hp :: "scheme_value \<Rightarrow> heap \<Rightarrow> scheme_value \<times> heap" where
  "copy_to_hp thing h =
     (let (new, new_hp, h1) = real_copy_object thing (hp h) h in (new, h1\<lparr>hp := new_hp\<rparr>))"

partial_function (option) walk_finalizers ::
    "scheme_value \<Rightarrow> scheme_value \<Rightarrow> scheme_value \<Rightarrow> heap \<Rightarrow> (scheme_value \<times> scheme_value \<times> heap) option" where
  "walk_finalizers alist okay goners h =
     (if alist = SCHNULL then Some (okay, goners, h)
      else let (l, h1) = copy_to_hp alist h;
               (pair, h2) = copy_to_hp (load (mem h1) (ADDRESS_AFTER_HEADER l)) h1;
               thing = load (mem h2) (ADDRESS_AFTER_HEADER pair);
               next = load (mem h2) (ADDRESS_AFTER_HEADER l + 4);
               (tracedP, new_thing, h3) = finalizer_thing thing h2;
               m1 = store (mem h3) (ADDRESS_AFTER_HEADER pair) new_thing;
               m2 = store m1 (ADDRESS_AFTER_HEADER l) pair
           in if tracedP
              then walk_finalizers next l goners
                     (h3\<lparr>mem := store m2 (ADDRESS_AFTER_HEADER l + 4) okay\<rparr>)
              else walk_finalizers next okay l
                     (h3\<lparr>mem := store m2 (ADDRESS_AFTER_HEADER l + 4) goners\<rparr>))"

declare walk_finalizers.simps [code]

subsection \<open>A collection\<close>

function trace_areas :: "(int \<Rightarrow> addr) \<Rightarrow> (int \<Rightarrow> long) \<Rightarrow> int \<Rightarrow> int \<Rightarrow> heap \<Rightarrow> heap" where
  "trace_areas areas sizes count i h =
     (if i < count
      then trace_areas areas sizes count (1 + i)
             (trace_locationsB (areas i) (areas i + sint (sizes i)) h)
      else h)"
  by pat_completeness auto
termination
  by (relation "measure (\<lambda>(_, _, count, i, _). nat (count - i))") simp_all

declare trace_areas.simps [simp del]

text \<open>The result is the live finalizers, then (the out parameter) those to be run.\<close>

definition do_gc :: "scheme_value \<Rightarrow> heap \<Rightarrow> (scheme_value \<times> scheme_value \<times> heap) option" where
  "do_gc finalizer_alist h =
     (let h1 = trace_areas (impure_areas h) (impure_sizes h) (sint (impure_area_count h)) 0 h
      in Option.bind (trace_finalizers finalizer_alist h1) (\<lambda>h2.
         Option.bind (scan_loop (newspace_begin h2) h2) (\<lambda>h3.
         Option.bind (clean_weak_pointers h3) (\<lambda>h4.
           walk_finalizers finalizer_alist SCHNULL SCHNULL h4))))"

end
