(* ===== verification/Heap_Wf.thy ===== *)
theory Heap_Wf
  imports Heap_GC
begin

text \<open>
  The contract between the storage manager and the virtual machine. The current space is
  a row of objects from its beginning to the allocation pointer; no field points into the
  idle space, and a field that points into the current space points to one of the objects.
  A collection that starts from such a heap ends with such a heap, holding an isomorphic
  copy of what the roots reach and nothing else.
\<close>

subsection \<open>Walking a row of objects\<close>

function heap_objects :: "memory \<Rightarrow> addr \<Rightarrow> addr \<Rightarrow> addr list option" where
  "heap_objects m b e =
     (if b < e
      then if HEADERP (load m b)
           then map_option (Cons (b + 4)) (heap_objects m (b + 4 + header_span (load m b)) e)
           else None
      else if b = e then Some [] else None)"
  by pat_completeness auto
termination
  by (relation "measure (\<lambda>(_, b, e). nat (e - b))") (simp_all add: nat_less_iff add_increasing2)

declare heap_objects.simps [simp del]

lemma heap_objects_step:
  "b < e \<Longrightarrow> HEADERP (load m b) \<Longrightarrow>
     heap_objects m b e = map_option (Cons (b + 4)) (heap_objects m (b + 4 + header_span (load m b)) e)"
  "heap_objects m b b = Some []"
  by (subst heap_objects.simps; simp)+

lemma heap_objects_row:
  "heap_objects m b e = Some os \<Longrightarrow>
     row m (\<lambda>a. a) b os e \<and> (\<forall>a\<in>set os. HEADERP (hdr m a)) \<and> sorted_wrt (<) os \<and> (\<forall>a\<in>set os. b < a)"
proof (induction m b e arbitrary: os rule: heap_objects.induct)
  case (1 m b e)
  show ?case
  proof (cases "b < e \<and> HEADERP (load m b)")
    case True
    then obtain os' where os: "heap_objects m (b + 4 + header_span (load m b)) e = Some os'" "os = (b + 4) # os'"
      using "1.prems" by (auto simp: heap_objects_step)
    have h: "hdr m (b + 4) = load m b" by (simp add: hdr_def)
    have sp: "header_span (load m b) = span m (b + 4)" by (simp add: span_def h)
    from True have lt: "b < e" and H: "HEADERP (load m b)" by simp_all
    note IH = "1.IH" [OF lt H os(1), unfolded sp]
    have "b + 4 < a" "b < a" if "a \<in> set os'" for a
      using IH that span_nonneg [of m "b + 4"] by fastforce+
    then show ?thesis using IH os(2) h H by auto
  next
    case False
    then show ?thesis using "1.prems" by (subst (asm) heap_objects.simps) (auto split: if_splits)
  qed
qed

lemma row_heap_objects:
  "row m f b os e \<Longrightarrow> (\<And>a. a \<in> set os \<Longrightarrow> HEADERP (hdr m' (f a)) \<and> span m' (f a) = span m a) \<Longrightarrow>
     heap_objects m' b e = Some (map f os)"
proof (induction os arbitrary: b)
  case Nil
  then show ?case by (simp add: heap_objects_step)
next
  case (Cons a os)
  have h: "hdr m' (b + 4) = load m' b" by (simp add: hdr_def)
  have fa: "f a = b + 4" and row: "row m f (b + 4 + span m a) os e" using Cons.prems(1) by simp_all
  have sp: "header_span (load m' b) = span m a" and H: "HEADERP (load m' b)"
    using Cons.prems(2) [of a] fa h by (simp_all add: span_def)
  have lt: "b < e" using row_le [OF row] span_nonneg [of m a] by linarith
  have "heap_objects m' (b + 4 + span m a) e = Some (map f os)"
    using Cons.prems(2) by (intro Cons.IH [OF row]) simp
  then show ?case by (simp only: heap_objects_step(1) [OF lt H] sp fa list.map option.map)
qed

subsection \<open>Well-formed heaps\<close>

definition in_newspace :: "heap \<Rightarrow> addr \<Rightarrow> bool" where
  "in_newspace h a \<longleftrightarrow> \<not> a < newspace_begin h \<and> a < newspace_end h"

text \<open>A value the virtual machine may hold.\<close>

definition wf_value :: "heap \<Rightarrow> addr list \<Rightarrow> scheme_value \<Rightarrow> bool" where
  "wf_value h os v \<longleftrightarrow> \<not> HEADERP v \<and>
     (STOBP v \<longrightarrow> \<not> in_oldspace h (ADDRESS_AFTER_HEADER v) \<and>
        (in_newspace h (ADDRESS_AFTER_HEADER v) \<longrightarrow> ADDRESS_AFTER_HEADER v \<in> set os))"

definition field_offsets :: "memory \<Rightarrow> addr \<Rightarrow> int list" where
  "field_offsets m a = (if dvec m a then map (\<lambda>k. 4 * int k) [0..<nat (span m a div 4)] else [])"

definition wf_spaces :: "heap \<Rightarrow> bool" where
  "wf_spaces h \<longleftrightarrow>
     4 dvd newspace_begin h \<and> 0 \<le> newspace_begin h \<and> newspace_end h \<le> 4294967296 \<and>
     4 dvd oldspace_begin h \<and> 0 \<le> oldspace_begin h \<and> oldspace_end h \<le> 4294967296 \<and>
     (newspace_end h \<le> oldspace_begin h \<or> oldspace_end h \<le> newspace_begin h) \<and>
     newspace_end h - newspace_begin h = oldspace_end h - oldspace_begin h \<and>
     limit h = newspace_end h \<and> hp h < limit h"

text \<open>No weak pointers: they are the object of other lemmas.\<close>

definition wf_heap :: "heap \<Rightarrow> addr list \<Rightarrow> bool" where
  "wf_heap h os \<longleftrightarrow>
     wf_spaces h \<and> heap_objects (mem h) (newspace_begin h) (hp h) = Some os \<and>
     (\<forall>a\<in>set os. hdr (mem h) a \<noteq> weak_pointer_header \<and>
        (dvec (mem h) a \<longrightarrow> 4 dvd uint (header_length (hdr (mem h) a))) \<and>
        (\<forall>i\<in>set (field_offsets (mem h) a). wf_value h os (load (mem h) (a + i))))"

lemma field_offsets_iff: "i \<in> set (field_offsets m a) \<longleftrightarrow> is_field m a i"
proof
  assume "i \<in> set (field_offsets m a)"
  then show "is_field m a i"
    by (auto simp: field_offsets_def is_field_def zless_nat_eq_int_zless split: if_splits)
next
  assume "is_field m a i"
  then have "dvec m a" "0 \<le> i" "4 dvd i" "i < span m a" by (auto simp: is_field_def)
  moreover from this obtain k where "i = 4 * int k" by (metis dvd_def nonneg_int_cases zero_le_mult_iff zero_less_numeral not_numeral_le_zero)
  moreover have "i + 4 \<le> span m a" using is_fieldD \<open>is_field m a i\<close> by blast
  ultimately have "k < nat (span m a div 4)" by (simp add: zless_nat_eq_int_zless)
  then show "i \<in> set (field_offsets m a)"
    using \<open>dvec m a\<close> \<open>i = 4 * int k\<close> by (auto simp: field_offsets_def)
qed

lemma begin_collection_sel [simp]:
  "mem (begin_collection h) = mem h" "newspace_begin (begin_collection h) = oldspace_begin h"
  "newspace_end (begin_collection h) = oldspace_end h" "oldspace_begin (begin_collection h) = newspace_begin h"
  "oldspace_end (begin_collection h) = newspace_end h" "hp (begin_collection h) = oldspace_begin h"
  "limit (begin_collection h) = oldspace_end h" "weak_pointer_hp (begin_collection h) = 0"
  "impure_area_count (begin_collection h) = impure_area_count h"
  by (simp_all add: begin_collection_def)

lemma points_old_begin [simp]:
  "points_old (begin_collection h) v \<longleftrightarrow> STOBP v \<and> in_newspace h (ADDRESS_AFTER_HEADER v)"
  by (simp add: points_old_def in_oldspace_def in_newspace_def)

text \<open>A well-formed heap is one that can be collected.\<close>

lemma wf_heap_collectable:
  assumes wf: "wf_heap h os"
  shows "collectable (begin_collection h) (set os)"
proof -
  from wf have sp: "wf_spaces h" and ob: "heap_objects (mem h) (newspace_begin h) (hp h) = Some os"
    by (simp_all add: wf_heap_def)
  from heap_objects_row [OF ob] have row: "row (mem h) (\<lambda>a. a) (newspace_begin h) os (hp h)"
    and H: "\<forall>a\<in>set os. HEADERP (hdr (mem h) a)" and dist: "distinct os"
    by (auto simp: strict_sorted_iff)
  have al: "\<forall>a\<in>set os. 4 dvd a" using row_dvd [OF row] sp by (simp add: wf_spaces_def)
  have "wf_object (begin_collection h) (set os) a" if "a \<in> set os" for a
    using row_bounds [OF row that] span_nonneg [of "mem h" a] wf that H al sp
    by (auto simp: wf_object_def wf_heap_def wf_field_def wf_value_def wf_spaces_def field_offsets_iff)
  moreover have "apart (mem h) a b" if "a \<in> set os" "b \<in> set os" "a \<noteq> b" for a b
    using row_apart [OF row dist that] by (simp add: apart_def)
  moreover have "(\<Sum>a\<in>set os. 4 + span (mem h) a) < newspace_end h - newspace_begin h"
    using row_end [OF row] sp sum_list_distinct_conv_sum_set [OF dist, of "\<lambda>a. 4 + span (mem h) a"]
    by (simp add: wf_spaces_def)
  ultimately show ?thesis
    using sp by (auto simp: collectable_def spaces_ok_def wf_spaces_def)
qed

subsection \<open>Collecting a well-formed heap\<close>

text \<open>Tracing a row of root registers, one \<open>trace_value\<close> each.\<close>

fun trace_values :: "scheme_value list \<Rightarrow> heap \<Rightarrow> scheme_value list \<times> heap" where
  "trace_values [] h = ([], h)"
| "trace_values (v # vs) h =
     (let (v', h1) = trace_value v h; (vs', h2) = trace_values vs h1 in (v' # vs', h2))"

lemma trace_values_inv:
  assumes col: "collectable h0 Obj"
  shows "cheney_inv h0 Obj R f L scan (hp h) h \<Longrightarrow> set vs \<subseteq> R \<Longrightarrow> \<forall>v\<in>set vs. wf_field h0 Obj v \<Longrightarrow>
    trace_values vs h = (vs', h') \<Longrightarrow>
    \<exists>f' L2. cheney_inv h0 Obj R f' (L @ L2) scan (hp h') h' \<and> vs' = map (fw h0 f') vs \<and>
      (\<forall>v\<in>set vs. points_old h0 v \<longrightarrow> ADDRESS_AFTER_HEADER v \<in> set (L @ L2)) \<and>
      (\<forall>b\<in>set L. f' b = f b)"
proof (induction vs arbitrary: f L h vs' h')
  case Nil
  then show ?case by (intro exI [of _ f] exI [of _ "[]"]) simp
next
  case (Cons v vs)
  obtain v1 h1 where t: "trace_value v h = (v1, h1)" by (cases "trace_value v h")
  obtain vs2 h2 where ts: "trace_values vs h1 = (vs2, h2)" by (cases "trace_values vs h1")
  from Cons.prems(2,3) have v: "v \<in> R" "wf_field h0 Obj v" by simp_all
  from trace_value_inv [OF col Cons.prems(1) v t]
  obtain f1 L1 where 1: "cheney_inv h0 Obj R f1 (L @ L1) scan (hp h1) h1" "v1 = fw h0 f1 v"
    "points_old h0 v \<longrightarrow> ADDRESS_AFTER_HEADER v \<in> set (L @ L1)" "\<forall>b\<in>set L. f1 b = f b" by blast
  from Cons.IH [OF 1(1) _ _ ts] Cons.prems(2,3)
  obtain f2 L2 where 2: "cheney_inv h0 Obj R f2 ((L @ L1) @ L2) scan (hp h2) h2"
    "vs2 = map (fw h0 f2) vs"
    "\<forall>v\<in>set vs. points_old h0 v \<longrightarrow> ADDRESS_AFTER_HEADER v \<in> set ((L @ L1) @ L2)"
    "\<forall>b\<in>set (L @ L1). f2 b = f1 b" by auto
  have "fw h0 f2 v = fw h0 f1 v" using 1(3) 2(4) by (auto simp: fw_def)
  moreover have "vs' = v1 # vs2" "h' = h2" using Cons.prems(4) t ts by simp_all
  ultimately show ?case
    using 1 2 by (intro exI [of _ f2] exI [of _ "L1 @ L2"]) auto
qed

text \<open>
  Roots traced, what the scan loop then does; the first conclusion also says that it returns.
\<close>

lemma scan_result:
  assumes wf: "wf_heap h os" and vs: "\<forall>v\<in>set vs. wf_value h os v"
    and tr: "trace_values vs (begin_collection h) = (vs', h1)"
  shows "\<exists>h2 f L. scan_loop (newspace_begin h1) h1 = Some h2 \<and> same_spaces (begin_collection h) h1 \<and>
     cheney_inv (begin_collection h) (set os) (set vs) f L (hp h2) (hp h2) h2 \<and>
     vs' = map (fw (begin_collection h) f) vs \<and>
     (\<forall>v\<in>set vs. points_old (begin_collection h) v \<longrightarrow> ADDRESS_AFTER_HEADER v \<in> set L)"
proof -
  let ?h = "begin_collection h"
  note col = wf_heap_collectable [OF wf]
  have wfv: "\<forall>v\<in>set vs. wf_field ?h (set os) v"
    using vs by (auto simp: wf_value_def wf_field_def)
  have start: "cheney_inv ?h (set os) (set vs) id [] (newspace_begin ?h) (hp ?h) ?h"
    using cheney_inv_start [OF col] by simp
  from trace_values_inv [OF col start subset_refl wfv tr]
  obtain f1 L1 where 1: "cheney_inv ?h (set os) (set vs) f1 L1 (newspace_begin ?h) (hp h1) h1"
    "vs' = map (fw ?h f1) vs"
    "\<forall>v\<in>set vs. points_old ?h v \<longrightarrow> ADDRESS_AFTER_HEADER v \<in> set L1" by auto
  have lim: "limit ?h = newspace_end ?h" by simp
  have row: "row (mem ?h) f1 (newspace_begin ?h) [] (newspace_begin ?h)" by simp
  from scan_loop_inv [OF col lim _ row, of "set vs" L1 h1] 1(1)
  obtain h2 f2 L2 where 2: "scan_loop (newspace_begin ?h) h1 = Some h2"
    "cheney_inv ?h (set os) (set vs) f2 L2 (hp h2) (hp h2) h2" "set L1 \<subseteq> set L2"
    "\<forall>b\<in>set L1. f2 b = f1 b" by auto
  have ss: "same_spaces ?h h1" using 1(1) by (simp add: cheney_inv_def)
  moreover have "newspace_begin h1 = newspace_begin ?h" using same_spacesD [OF ss] by simp
  moreover have "vs' = map (fw ?h f2) vs" using 1(2,3) 2(4) by (auto simp: fw_def)
  ultimately show ?thesis using 2 1(3) by (intro exI [of _ h2] exI [of _ f2] exI [of _ L2]) auto
qed

text \<open>Static areas absent, no finalizers: what \<open>do_gc\<close> then does.\<close>

lemma collection_result:
  assumes wf: "wf_heap h os" and vs: "\<forall>v\<in>set vs. wf_value h os v"
    and none: "impure_area_count h = 0" and tr: "trace_values vs (begin_collection h) = (vs', h1)"
  shows "\<exists>h2 f L. do_gc SCHNULL h1 = Some (SCHNULL, SCHNULL, h2) \<and>
     cheney_inv (begin_collection h) (set os) (set vs) f L (hp h2) (hp h2) h2 \<and>
     vs' = map (fw (begin_collection h) f) vs \<and>
     (\<forall>v\<in>set vs. points_old (begin_collection h) v \<longrightarrow> ADDRESS_AFTER_HEADER v \<in> set L)"
proof -
  let ?h = "begin_collection h"
  from scan_result [OF wf vs tr] obtain h2 f L where
    r: "scan_loop (newspace_begin h1) h1 = Some h2" "same_spaces ?h h1"
      "cheney_inv ?h (set os) (set vs) f L (hp h2) (hp h2) h2" "vs' = map (fw ?h f) vs"
      "\<forall>v\<in>set vs. points_old ?h v \<longrightarrow> ADDRESS_AFTER_HEADER v \<in> set L" by blast
  have "impure_area_count h1 = 0" "weak_pointer_hp h2 = 0"
    using same_spacesD(9) [OF r(2)] none r(3) by (simp_all add: cheney_inv_def)
  then have "do_gc SCHNULL h1 = Some (SCHNULL, SCHNULL, h2)"
    using r(1)
    by (simp add: do_gc_def Let_def trace_areas.simps trace_finalizers.simps walk_finalizers.simps
        clean_weak_pointers_def)
  then show ?thesis using r by (intro exI [of _ h2] exI [of _ f] exI [of _ L]) simp
qed

lemma end_collection_sel [simp]:
  "mem (end_collection h) = mem h" "newspace_begin (end_collection h) = newspace_begin h"
  "newspace_end (end_collection h) = newspace_end h" "oldspace_begin (end_collection h) = oldspace_begin h"
  "oldspace_end (end_collection h) = oldspace_end h" "hp (end_collection h) = hp h"
  "limit (end_collection h) = limit h"
  by (simp_all add: end_collection_def)

lemma fw_wf_value:
  assumes wf: "wf_heap h os" and inv: "cheney_inv (begin_collection h) (set os) R f L (hp h2) (hp h2) h2"
    and v: "wf_value h os v" and t: "points_old (begin_collection h) v \<Longrightarrow> ADDRESS_AFTER_HEADER v \<in> set L"
  shows "wf_value (end_collection h2) (map f L) (fw (begin_collection h) f v)"
proof -
  let ?h = "begin_collection h"
  note col = wf_heap_collectable [OF wf]
  from inv have L: "distinct L" "set L \<subseteq> set os" and ss: "same_spaces ?h h2"
    and row: "row (mem ?h) f (newspace_begin ?h) L (hp h2)" by (simp_all add: cheney_inv_def)
  note ssD = same_spacesD [OF ss] and lt = row_total [OF col row L]
  have sp: "wf_spaces h" using wf by (simp add: wf_heap_def)
  show ?thesis
  proof (cases "points_old ?h v")
    case True
    let ?t = "f (ADDRESS_AFTER_HEADER v)"
    from t [OF True] have tL: "ADDRESS_AFTER_HEADER v \<in> set L" .
    have al: "4 dvd ?t" using row_dvd [OF row] tL sp by (auto simp: wf_spaces_def)
    have rng: "oldspace_begin h + 4 \<le> ?t" "?t \<le> hp h2" "0 \<le> ?t" "?t < 4294967296" "?t < oldspace_end h"
      using row_bounds [OF row tL] span_nonneg [of "mem ?h" "ADDRESS_AFTER_HEADER v"] lt sp
      by (auto simp: wf_spaces_def)
    have "fw ?h f v = stob_at ?t" using True by (simp add: fw_def)
    moreover have "\<not> in_oldspace (end_collection h2) ?t"
      using rng sp ssD by (auto simp: in_oldspace_def wf_spaces_def)
    ultimately show ?thesis
      using al rng tL STOBP_stob_at [OF al] by (simp add: wf_value_def stob_not_header)
  next
    case False
    then have "fw ?h f v = v" by (simp only: fw_def if_False)
    moreover have "in_oldspace (end_collection h2) a = in_newspace h a"
      "in_newspace (end_collection h2) a = in_oldspace h a" for a
      using ssD by (simp_all add: in_oldspace_def in_newspace_def)
    ultimately show ?thesis using v False by (simp add: wf_value_def)
  qed
qed

lemma collection_wf:
  assumes wf: "wf_heap h os" and inv: "cheney_inv (begin_collection h) (set os) R f L (hp h2) (hp h2) h2"
  shows "wf_heap (end_collection h2) (map f L)"
proof -
  let ?h = "begin_collection h" and ?m = "mem h2"
  note col = wf_heap_collectable [OF wf]
  from inv have L: "distinct L" "set L \<subseteq> set os" and ss: "same_spaces ?h h2"
    and row: "row (mem ?h) f (newspace_begin ?h) L (hp h2)"
    and new: "inv_new ?h f L (hp h2) ?m" by (simp_all add: cheney_inv_def)
  have hd: "hdr ?m (f a) = hdr (mem h) a" if "a \<in> set L" for a
    using new that by (simp add: inv_new_def)
  then have sd: "span ?m (f a) = span (mem h) a" "dvec ?m (f a) = dvec (mem h) a"
    "is_field ?m (f a) i = is_field (mem h) a i" if "a \<in> set L" for a i
    using that by (simp_all add: span_def dvec_def is_field_def)
  have sp: "wf_spaces (end_collection h2)"
    using wf same_spacesD [OF ss] row_total [OF col row L]
    by (auto simp: wf_heap_def wf_spaces_def)
  have HL: "HEADERP (hdr (mem h) a)" if "a \<in> set L" for a
    using collectableD(5) [OF col, of a] L(2) that by auto
  have objs: "heap_objects ?m (newspace_begin h2) (hp h2) = Some (map f L)"
    using row_heap_objects [OF row, of ?m] hd sd HL same_spacesD [OF ss] by simp
  have "wf_value (end_collection h2) (map f L) (load ?m (f a + i))"
    if "a \<in> set L" "is_field (mem h) a i" for a i
  proof -
    have "f a + i < hp h2" using row_bounds [OF row that(1)] is_fieldD [OF that(2)] by simp
    moreover have "inv_field ?h f L (hp h2) ?m a i"
      using new that by (simp add: inv_new_def)
    ultimately have "load ?m (f a + i) = fw ?h f (load (mem h) (a + i))"
      and "points_old ?h (load (mem h) (a + i)) \<Longrightarrow> ADDRESS_AFTER_HEADER (load (mem h) (a + i)) \<in> set L"
      by (simp_all add: inv_field_def)
    moreover have "wf_value h os (load (mem h) (a + i))"
      using wf L(2) that by (auto simp: wf_heap_def field_offsets_iff)
    ultimately show ?thesis using fw_wf_value [OF wf inv] by simp
  qed
  moreover have "hdr ?m (f a) \<noteq> weak_pointer_header \<and>
      (dvec ?m (f a) \<longrightarrow> 4 dvd uint (header_length (hdr ?m (f a))))" if "a \<in> set L" for a
    using wf L(2) hd [OF that] sd(2) [OF that] that by (auto simp: wf_heap_def)
  ultimately show ?thesis
    using sp objs sd by (auto simp: wf_heap_def field_offsets_iff)
qed

subsection \<open>An example\<close>

text \<open>
  A current space of 64 bytes at 64 with a pair (the fixnum 3 and a string), the string
  \<open>"ab"\<close> and a pair nothing points to; an idle space at 128.
\<close>

definition demo_memory :: memory where
  "demo_memory = store (store (store (store (store (store (store (store (\<lambda>_. 0)
     64 2050) 68 12) 72 83) 76 846) 80 25185) 84 2050) 88 71) 92 25"

definition demo_heap :: heap where
  "demo_heap = (heap_zero demo_memory)
     \<lparr>newspace_begin := 64, newspace_end := 128, oldspace_begin := 128, oldspace_end := 192,
      hp := 96, limit := 128\<rparr>"

lemma demo_heap_wf: "wf_heap demo_heap [68, 80, 88]"
  by code_simp

lemma demo_root_wf: "\<forall>v\<in>set [71]. wf_value demo_heap [68, 80, 88] v"
  by code_simp

lemma demo_no_areas: "impure_area_count demo_heap = 0"
  by (simp add: demo_heap_def heap_zero_def)

subsection \<open>Properties\<close>

text \<open>
  Property C1. A collection is correct: when the roots have been traced from a well-formed
  heap and there are no finalizers, \<open>do_gc\<close> returns, the roots and all fields are
  forwarded along one function \<open>f\<close>, what \<open>f\<close> maps is exactly the objects the roots reach,
  each copied with its header and contents and without overlap, and the allocation pointer
  ends right after them, inside the new space.
\<close>

theorem do_gc_correct:
  assumes "wf_heap h os" and "\<forall>v\<in>set vs. wf_value h os v"
    and "impure_area_count h = 0" and "trace_values vs (begin_collection h) = (vs', h1)"
  shows "\<exists>h2 f. do_gc SCHNULL h1 = Some (SCHNULL, SCHNULL, h2) \<and>
     vs' = map (fw (begin_collection h) f) vs \<and>
     is_copy (begin_collection h) h2 f {a. reachable (begin_collection h) (set vs) a} \<and>
     hp h2 = oldspace_begin h + (\<Sum>a | reachable (begin_collection h) (set vs) a. 4 + span (mem h) a) \<and>
     hp h2 < oldspace_end h"
proof -
  from collection_result [OF assms] obtain h2 f L where
    r: "do_gc SCHNULL h1 = Some (SCHNULL, SCHNULL, h2)" "vs' = map (fw (begin_collection h) f) vs"
    and inv: "cheney_inv (begin_collection h) (set os) (set vs) f L (hp h2) (hp h2) h2"
    and roots: "\<forall>v\<in>set vs. points_old (begin_collection h) v \<longrightarrow> ADDRESS_AFTER_HEADER v \<in> set L" by blast
  from cheney_inv_done [OF wf_heap_collectable [OF assms(1)] inv] roots r show ?thesis
    by (intro exI [of _ h2] exI [of _ f]) simp
qed

theorem do_gc_correct_witness:
  "\<exists>h2 f. do_gc SCHNULL (snd (trace_values [71] (begin_collection demo_heap))) =
       Some (SCHNULL, SCHNULL, h2) \<and>
     fst (trace_values [71] (begin_collection demo_heap)) = map (fw (begin_collection demo_heap) f) [71] \<and>
     hp h2 < 192"
  using do_gc_correct [OF demo_heap_wf demo_root_wf demo_no_areas surjective_pairing]
  by (auto simp: demo_heap_def)

text \<open>
  Property C2. A collection keeps the heap well formed: after it the (new) current space is
  again a row of objects whose fields point to objects of it or outside both spaces, and
  the traced roots are values of that heap, so that the next collection can follow.
\<close>

theorem do_gc_wf:
  assumes "wf_heap h os" and "\<forall>v\<in>set vs. wf_value h os v"
    and "impure_area_count h = 0" and "trace_values vs (begin_collection h) = (vs', h1)"
  shows "\<exists>h2 os'. do_gc SCHNULL h1 = Some (SCHNULL, SCHNULL, h2) \<and>
     wf_heap (end_collection h2) os' \<and> (\<forall>v\<in>set vs'. wf_value (end_collection h2) os' v)"
proof -
  from collection_result [OF assms] obtain h2 f L where
    r: "do_gc SCHNULL h1 = Some (SCHNULL, SCHNULL, h2)" "vs' = map (fw (begin_collection h) f) vs"
    and inv: "cheney_inv (begin_collection h) (set os) (set vs) f L (hp h2) (hp h2) h2"
    and roots: "\<forall>v\<in>set vs. points_old (begin_collection h) v \<longrightarrow> ADDRESS_AFTER_HEADER v \<in> set L" by blast
  from collection_wf [OF assms(1) inv] fw_wf_value [OF assms(1) inv] assms(2) roots r show ?thesis
    by (intro exI [of _ h2] exI [of _ "map f L"]) simp
qed

theorem do_gc_wf_witness:
  "\<exists>h2 os'. do_gc SCHNULL (snd (trace_values [71] (begin_collection demo_heap))) =
       Some (SCHNULL, SCHNULL, h2) \<and> wf_heap (end_collection h2) os'"
  using do_gc_wf [OF demo_heap_wf demo_root_wf demo_no_areas surjective_pairing] by auto

end
