(* ===== verification/Heap_Find.thy ===== *)
theory Heap_Find
  imports Heap_Wf
begin

text \<open>
  Finding all objects of a type, and all records of a record type (\<open>find_all\<close> and
  \<open>find_all_records\<close> of \<open>src/c/scheme48heap.c\<close>): a walk over the current space and the static
  areas, which pushes the descriptors of the objects found on the frontier, under the cell
  that becomes the header of the vector returned. The two procedures differ in their test
  only; the locale \<open>object_test\<close> states what a test may look at.
\<close>

subsection \<open>The code\<close>

text \<open>The test of \<open>find_all\<close>, on the header at an address, and that of \<open>find_all_records\<close>.\<close>

definition type_test :: "heap \<Rightarrow> addr \<Rightarrow> bool" where
  "type_test h a \<longleftrightarrow> finding_type h = header_type (load (mem h) a)"

definition record_test :: "heap \<Rightarrow> addr \<Rightarrow> bool" where
  "record_test h a \<longleftrightarrow> finding_type h = header_type (load (mem h) a) \<and>
     the_record_type h = load (mem h) (ADDRESS_AFTER_HEADER (stob_at (a + 4)))"

definition push_found :: "addr \<Rightarrow> heap \<Rightarrow> heap" where
  "push_found a h = h\<lparr>mem := store (mem h) (hp h) (stob_at (a + 4)), hp := hp h + 4\<rparr>"

function find_area :: "(heap \<Rightarrow> addr \<Rightarrow> bool) \<Rightarrow> addr \<Rightarrow> addr \<Rightarrow> heap \<Rightarrow> bool \<times> heap" where
  "find_area p a end h =
     (if a < end
      then if HEADERP (load (mem h) a)
           then if p h a
                then if hp h + 16 < limit h
                     then find_area p (a + (4 + header_span (load (mem h) a))) end (push_found a h)
                     else (False, h)
                else find_area p (a + (4 + header_span (load (mem h) a))) end h
           else (False, h\<lparr>messages := messages h @ [''heap is in an inconsistent state.'']\<rparr>)
      else (True, h))"
  by pat_completeness auto
termination
  by (relation "measure (\<lambda>(_, a, end, _). nat (end - a))") (simp_all add: nat_less_iff add_increasing2)

declare find_area.simps [simp del]

function find_areas ::
    "(heap \<Rightarrow> addr \<Rightarrow> bool) \<Rightarrow> (int \<Rightarrow> addr) \<Rightarrow> (int \<Rightarrow> long) \<Rightarrow> int \<Rightarrow> int \<Rightarrow> heap \<Rightarrow> bool \<times> heap" where
  "find_areas p areas sizes count i h =
     (if i < count
      then let (ok, h1) = find_area p (areas i) (areas i + sint (sizes i)) h
           in if ok then find_areas p areas sizes count (1 + i) h1 else (False, h1)
      else (True, h))"
  by pat_completeness auto
termination
  by (relation "measure (\<lambda>(_, _, _, count, i, _). nat (count - i))") simp_all

declare find_areas.simps [simp del]

text \<open>The exit of a failed search, and the whole search: current space, impure areas, pure areas.\<close>

definition give_up :: "addr \<Rightarrow> heap \<Rightarrow> scheme_value \<times> heap" where
  "give_up start h = (1, h\<lparr>hp := start\<rparr>)"

definition find_objects :: "(heap \<Rightarrow> addr \<Rightarrow> bool) \<Rightarrow> heap \<Rightarrow> scheme_value \<times> heap" where
  "find_objects p h =
     (let start = hp h;
          h1 = h\<lparr>mem := store (mem h) start 0, hp := start + 4\<rparr>;
          (ok, h2) = find_area p (newspace_begin h1) start h1
      in if \<not> ok then give_up start h2
         else let (ok, h3) = find_areas p (impure_areas h2) (impure_sizes h2) (sint (impure_area_count h2)) 0 h2
         in if \<not> ok then give_up start h3
         else let (ok, h4) = find_areas p (pure_areas h3) (pure_sizes h3) (sint (pure_area_count h3)) 0 h3
         in if \<not> ok then give_up start h4
         else (stob_at (start + 4),
               h4\<lparr>mem := store (mem h4) start (10 + push_bit 8 (word_of_int (hp h4 - (start + 4))))\<rparr>))"

definition find_all :: "long \<Rightarrow> heap \<Rightarrow> scheme_value \<times> heap" where
  "find_all type h = find_objects type_test (h\<lparr>finding_type := type\<rparr>)"

definition find_all_records :: "scheme_value \<Rightarrow> heap \<Rightarrow> scheme_value \<times> heap" where
  "find_all_records record_type h =
     find_objects record_test (h\<lparr>the_record_type := record_type, finding_type := 8\<rparr>)"

subsection \<open>A walk as a list of pushes\<close>

definition same_below :: "addr \<Rightarrow> heap \<Rightarrow> heap \<Rightarrow> bool" where
  "same_below e h h' \<longleftrightarrow> (\<forall>a<e. mem h' a = mem h a) \<and>
     finding_type h' = finding_type h \<and> the_record_type h' = the_record_type h"

lemma same_below_load: "same_below e h h' \<Longrightarrow> a + 4 \<le> e \<Longrightarrow> load (mem h') a = load (mem h) a"
  by (rule load_cong) (simp add: same_below_def)

lemma same_below_trans: "same_below e h1 h2 \<Longrightarrow> same_below e h2 h3 \<Longrightarrow> same_below e h1 h3"
  by (simp add: same_below_def)

fun push_all :: "addr list \<Rightarrow> heap \<Rightarrow> bool \<times> heap" where
  "push_all [] h = (True, h)"
| "push_all (a # as) h = (if hp h + 16 < limit h then push_all as (push_found (a - 4) h) else (False, h))"

lemma push_found_below: "e \<le> hp h \<Longrightarrow> same_below e h (push_found a h)"
  by (simp add: same_below_def push_found_def mem_simps)

lemma heap_objects_cong:
  "heap_objects m b e = Some os \<Longrightarrow> (\<And>a. b \<le> a \<Longrightarrow> a < e \<Longrightarrow> m' a = m a) \<Longrightarrow> 4 dvd e - b \<Longrightarrow>
     heap_objects m' b e = Some os"
proof (induction m b e arbitrary: os rule: heap_objects.induct)
  case (1 m b e)
  show ?case
  proof (cases "b < e")
    case True
    have be: "b + 4 \<le> e" using "1.prems"(3) True by presburger
    then have ld: "load m' b = load m b" using "1.prems"(2) by (intro load_cong) simp
    have H: "HEADERP (load m b)"
      using "1.prems"(1) True by (subst (asm) heap_objects.simps) (simp split: if_splits)
    then obtain os' where os: "heap_objects m (b + 4 + header_span (load m b)) e = Some os'" "os = (b + 4) # os'"
      using "1.prems"(1) True by (auto simp: heap_objects_step)
    have "4 dvd e - (b + 4 + header_span (load m b))"
      using "1.prems"(3) header_span_dvd [of "load m b"] by presburger
    moreover have "m' a = m a" if "b + 4 + header_span (load m b) \<le> a" "a < e" for a
    proof -
      have "0 \<le> header_span (load m b)" by simp
      then have "b \<le> a" using that(1) by linarith
      then show ?thesis using that(2) by (rule "1.prems"(2))
    qed
    ultimately have "heap_objects m' (b + 4 + header_span (load m b)) e = Some os'"
      using "1.IH" [OF True H os(1)] by blast
    then show ?thesis
      using True H ld os(2) by (simp add: heap_objects_step)
  next
    case False
    then show ?thesis using "1.prems"(1)
      by (subst (asm) heap_objects.simps, subst heap_objects.simps) simp
  qed
qed

subsection \<open>What a test may look at\<close>

text \<open>
  A test on the object whose header is at \<open>a\<close> reads the header and the cell after it, and
  the static variables of the search.
\<close>

locale object_test =
  fixes p :: "heap \<Rightarrow> addr \<Rightarrow> bool"
  assumes test_local:
    "same_below (a + 8) h h' \<Longrightarrow> 0 \<le> a \<Longrightarrow> a + 4 < 4294967296 \<Longrightarrow> p h' a = p h a"
begin

lemma find_area_pushes:
  "heap_objects (mem h) b e = Some os \<Longrightarrow> 4 dvd e - b \<Longrightarrow> 0 \<le> b \<Longrightarrow> e < 4294967296 \<Longrightarrow> e + 4 \<le> hp h \<Longrightarrow>
     find_area p b e h = push_all (filter (\<lambda>a. p h (a - 4)) os) h"
proof (induction "nat (e - b)" arbitrary: b os h rule: less_induct)
  case less
  show ?case
  proof (cases "b < e")
    case False
    then show ?thesis using less.prems(1)
      by (subst (asm) heap_objects.simps) (auto simp: find_area.simps split: if_splits)
  next
    case True
    let ?sp = "header_span (load (mem h) b)"
    have H: "HEADERP (load (mem h) b)"
      using less.prems(1) True by (subst (asm) heap_objects.simps) (simp split: if_splits)
    then obtain os' where os: "heap_objects (mem h) (b + 4 + ?sp) e = Some os'" "os = (b + 4) # os'"
      using less.prems(1) True by (auto simp: heap_objects_step)
    have dv: "4 dvd e - (b + 4 + ?sp)"
      using less.prems(2) header_span_dvd [of "load (mem h) b"] by presburger
    have lt: "nat (e - (b + 4 + ?sp)) < nat (e - b)" and b': "0 \<le> b + 4 + ?sp"
      using True less.prems(3) by (simp_all add: nat_less_iff)
    have IH: "find_area p (b + 4 + ?sp) e h' = push_all (filter (\<lambda>a. p h' (a - 4)) os') h'"
      if "heap_objects (mem h') (b + 4 + ?sp) e = Some os'" "e + 4 \<le> hp h'" for h'
      using less.hyps [OF lt that(1) dv b' less.prems(4) that(2)] .
    show ?thesis
    proof (cases "p h b \<and> hp h + 16 < limit h")
      case True': True
      let ?h = "push_found b h"
      have sb: "same_below (e + 4) h ?h" using less.prems(5) by (rule push_found_below)
      have "heap_objects (mem ?h) (b + 4 + ?sp) e = Some os'"
        using sb by (intro heap_objects_cong [OF os(1) _ dv]) (simp add: same_below_def)
      moreover have "e + 4 \<le> hp ?h" using less.prems(5) by (simp add: push_found_def)
      moreover have "p ?h (a - 4) = p h (a - 4)" if "a \<in> set os'" for a
      proof (rule test_local)
        have "heap_objects (mem h) (b + 4 + ?sp) e = Some os'" by (rule os(1))
        from heap_objects_row [OF this]
        have r: "row (mem h) (\<lambda>a. a) (b + 4 + ?sp) os' e" by simp
        from row_bounds [OF r that] have a: "b + 4 + ?sp + 4 \<le> a" "a \<le> e"
          using span_nonneg [of "mem h" a] by linarith+
        then show "same_below (a - 4 + 8) h ?h" using sb by (simp add: same_below_def)
        have "0 \<le> ?sp" by simp
        then show "0 \<le> a - 4" using a less.prems(3) by linarith
        show "a - 4 + 4 < 4294967296" using a less.prems(4) by simp
      qed
      ultimately show ?thesis
        using IH [of ?h] True True' H os(2) by (subst find_area.simps) (simp add: add.assoc cong: filter_cong)
    next
      case False
      then show ?thesis using IH [OF os(1) less.prems(5)] True H os(2)
        by (subst find_area.simps) (auto simp: add.assoc)
    qed
  qed
qed

end

interpretation by_type: object_test type_test
  by unfold_locales (simp add: type_test_def same_below_load, simp add: same_below_def)

interpretation by_record: object_test record_test
  by unfold_locales (simp add: record_test_def same_below_load, simp add: same_below_def)

subsection \<open>The outcome of the pushes\<close>

lemma push_all_cells:
  "push_all os h = (ok, h') \<Longrightarrow>
     \<exists>k\<le>length os. h' = h\<lparr>mem := store_cells (mem h) (hp h) (map stob_at (take k os)), hp := hp h + 4 * int k\<rparr> \<and>
       (ok \<longrightarrow> k = length os)"
proof (induction os arbitrary: h)
  case (Cons a os)
  show ?case
  proof (cases "hp h + 16 < limit h")
    case True
    let ?h = "push_found (a - 4) h"
    from Cons True obtain k where k: "k \<le> length os" "ok \<longrightarrow> k = length os"
      "h' = ?h\<lparr>mem := store_cells (mem ?h) (hp ?h) (map stob_at (take k os)), hp := hp ?h + 4 * int k\<rparr>"
      by fastforce
    then show ?thesis by (intro exI [of _ "Suc k"]) (simp add: push_found_def)
  next
    case False
    then show ?thesis using Cons.prems by (intro exI [of _ 0]) simp
  qed
qed simp

lemma push_all_ok:
  "fst (push_all os h) \<longleftrightarrow> os = [] \<or> hp h + 4 * int (length os) + 12 < limit h"
proof (induction os arbitrary: h)
  case (Cons a os)
  from Cons [of "push_found (a - 4) h"] show ?case
    by (auto simp: push_found_def)
qed simp

lemma find_areas_none: "find_areas p areas sizes 0 0 h = (True, h)"
  by (simp add: find_areas.simps)

lemma find_objects_result:
  assumes "object_test p" and wf: "wf_heap h os"
    and none: "impure_area_count h = 0" "pure_area_count h = 0"
    and sel: "sel = filter (\<lambda>a. p (h\<lparr>mem := store (mem h) (hp h) 0, hp := hp h + 4\<rparr>) (a - 4)) os"
  shows "if sel = [] \<or> hp h + 4 * int (length sel) + 16 < limit h
    then find_objects p h = (stob_at (hp h + 4),
      h\<lparr>mem := store (store_cells (store (mem h) (hp h) 0) (hp h + 4) (map stob_at sel)) (hp h)
           (10 + push_bit 8 (word_of_int (4 * int (length sel)))), hp := hp h + 4 + 4 * int (length sel)\<rparr>)
    else \<exists>m. find_objects p h = (SCHFALSE, h\<lparr>mem := m\<rparr>) \<and> (\<forall>a<hp h. m a = mem h a)"
proof -
  note walk = object_test.find_area_pushes [OF assms(1)]
  let ?h1 = "h\<lparr>mem := store (mem h) (hp h) 0, hp := hp h + 4\<rparr>"
  from wf have sp: "wf_spaces h" and ob: "heap_objects (mem h) (newspace_begin h) (hp h) = Some os"
    by (simp_all add: wf_heap_def)
  have "row (mem h) (\<lambda>a. a) (newspace_begin h) os (hp h)" using heap_objects_row [OF ob] by simp
  then have dv: "4 dvd hp h - newspace_begin h"
    using row_dvd sp by (auto simp: wf_spaces_def)
  have ob1: "heap_objects (mem ?h1) (newspace_begin h) (hp h) = Some os"
    by (rule heap_objects_cong [OF ob _ dv]) (simp add: mem_simps)
  obtain ok h2 where pu: "push_all sel ?h1 = (ok, h2)" by (cases "push_all sel ?h1")
  have fa: "find_area p (newspace_begin h) (hp h) ?h1 = (ok, h2)"
    using walk [of ?h1 "newspace_begin h" "hp h" os] ob1 dv sp pu unfolding sel [symmetric]
    by (simp add: wf_spaces_def)
  from push_all_cells [OF pu] obtain k where k: "k \<le> length sel" "ok \<longrightarrow> k = length sel"
    and h2: "h2 = ?h1\<lparr>mem := store_cells (mem ?h1) (hp ?h1) (map stob_at (take k sel)), hp := hp ?h1 + 4 * int k\<rparr>"
    by blast
  have okiff: "ok \<longleftrightarrow> sel = [] \<or> hp h + 4 * int (length sel) + 16 < limit h"
    using push_all_ok [of sel ?h1] pu by (simp add: ac_simps)
  show ?thesis
  proof (cases ok)
    case True
    then show ?thesis
      using okiff fa h2 k none by (simp add: find_objects_def Let_def find_areas_none ac_simps)
  next
    case False
    have "find_objects p h = (SCHFALSE, h\<lparr>mem := mem h2\<rparr>)"
      using False fa h2
      by (simp add: find_objects_def give_up_def Let_def SCHFALSE_def MISC_IMMEDIATE_def)
    moreover have "\<forall>a<hp h. mem h2 a = mem h a" using h2 by (simp add: mem_simps)
    ultimately show ?thesis using False okiff by auto
  qed
qed

subsection \<open>Adding an object at the frontier\<close>

lemma wf_value_mono: "wf_value h os v \<Longrightarrow> wf_value h (os @ os') v"
  by (auto simp: wf_value_def)

text \<open>The current space with one more object at its end.\<close>

lemma wf_heap_extend:
  assumes wf: "wf_heap h os" and sp: "wf_spaces h'"
    and same: "newspace_begin h' = newspace_begin h" "in_newspace h' = in_newspace h" "in_oldspace h' = in_oldspace h"
    and below: "\<And>a. a < hp h \<Longrightarrow> mem h' a = mem h a"
    and H: "HEADERP (hdr (mem h') (hp h + 4))" "hdr (mem h') (hp h + 4) \<noteq> weak_pointer_header"
      "dvec (mem h') (hp h + 4) \<longrightarrow> 4 dvd uint (header_length (hdr (mem h') (hp h + 4)))"
    and end_of: "hp h' = hp h + 4 + span (mem h') (hp h + 4)"
    and fields: "\<And>i. is_field (mem h') (hp h + 4) i \<Longrightarrow> wf_value h (os @ [hp h + 4]) (load (mem h') (hp h + 4 + i))"
  shows "wf_heap h' (os @ [hp h + 4])"
proof -
  from wf have ob: "heap_objects (mem h) (newspace_begin h) (hp h) = Some os" by (simp add: wf_heap_def)
  note row = heap_objects_row [OF ob]
  have keep: "load (mem h') a = load (mem h) a" if "a + 4 \<le> hp h" for a
    using that below by (intro load_cong) simp
  have hd: "hdr (mem h') a = hdr (mem h) a" if "a \<in> set os" for a
    using row_bounds [OF conjunct1 [OF row] that] span_nonneg [of "mem h" a]
    unfolding hdr_def by (intro keep) linarith
  then have sd: "span (mem h') a = span (mem h) a" "dvec (mem h') a = dvec (mem h) a"
    "is_field (mem h') a i = is_field (mem h) a i" if "a \<in> set os" for a i
    using that by (simp_all add: span_def dvec_def is_field_def)
  have "row (mem h') (\<lambda>a. a) (newspace_begin h) os (hp h)"
    using row_same_span [OF conjunct1 [OF row]] sd(1) by simp
  then have "row (mem h') (\<lambda>a. a) (newspace_begin h) (os @ [hp h + 4]) (hp h')"
    using end_of by (simp add: row_append)
  then have "heap_objects (mem h') (newspace_begin h') (hp h') = Some (map (\<lambda>a. a) (os @ [hp h + 4]))"
    unfolding same(1)
  proof (rule row_heap_objects)
    fix a assume "a \<in> set (os @ [hp h + 4])"
    then show "HEADERP (hdr (mem h') a) \<and> span (mem h') a = span (mem h') a"
      using conjunct2 [OF row] hd H(1) by (cases "a = hp h + 4") simp_all
  qed
  moreover have "wf_value h' (os @ [hp h + 4]) v \<longleftrightarrow> wf_value h (os @ [hp h + 4]) v" for v
    by (simp add: wf_value_def same)
  moreover have "wf_value h (os @ [hp h + 4]) (load (mem h') (a + i))" if "a \<in> set os" "is_field (mem h) a i" for a i
  proof -
    have "a + i + 4 \<le> hp h"
      using row_bounds [OF conjunct1 [OF row] that(1)] is_fieldD [OF that(2)] by simp
    then show ?thesis
      using wf that keep by (simp add: wf_heap_def field_offsets_iff wf_value_mono)
  qed
  moreover have "hdr (mem h') a \<noteq> weak_pointer_header \<and>
      (dvec (mem h') a \<longrightarrow> 4 dvd uint (header_length (hdr (mem h') a)))" if "a \<in> set os" for a
    using wf hd [OF that] sd(2) [OF that] that by (simp add: wf_heap_def)
  ultimately show ?thesis
    using sp H fields sd by (auto simp: wf_heap_def field_offsets_iff)
qed

lemma vector_header_arith:
  "(10 + 1024 * k) mod 4 = (2 :: int)" "(10 + 1024 * k) div 4 mod 32 = (2 :: int)"
  "(10 + 1024 * k) div 256 = (4 * k :: int)"
proof -
  have 1: "10 + 1024 * k = 2 + (2 + 256 * k) * 4" and 2: "2 + 256 * k = 2 + (8 * k) * 32"
    and 3: "10 + 1024 * k = 10 + (4 * k) * 256" by simp_all
  show "(10 + 1024 * k) mod 4 = (2 :: int)" by (simp only: 1 mod_mult_self1) simp
  have "(10 + 1024 * k) div 4 = 2 + 256 * k" by (subst 1, subst div_mult_self1) simp_all
  then show "(10 + 1024 * k) div 4 mod 32 = (2 :: int)" by (simp only: 2 mod_mult_self1) simp
  show "(10 + 1024 * k) div 256 = (4 * k :: int)" by (subst 3, subst div_mult_self1) simp_all
qed

text \<open>The header \<open>10 + (len << 8)\<close> of a vector of \<open>n\<close> cells.\<close>

lemma vector_header:
  assumes "n < 4194304"
  defines "w \<equiv> 10 + push_bit 8 (word_of_int (4 * int n)) :: long"
  shows "uint w = 10 + 1024 * int n" "HEADERP w" "header_type w = 2" "uint (header_length w) = 4 * int n"
    "w \<noteq> weak_pointer_header" "header_span w = 4 * int n"
proof -
  have "uint (word_of_int (4 * int n) :: long) = 4 * int n"
    using assms(1) by (intro uint_word_of_int_id) simp_all
  then have "uint (push_bit 8 (word_of_int (4 * int n)) :: long) = 1024 * int n"
    using assms(1) by (simp only: unsigned_push_bit_eq) (simp add: push_bit_eq_mult take_bit_eq_mod)
  moreover have "uint (10 + v :: long) = (10 + uint v) mod 4294967296" for v
    by (simp add: uint_word_ariths)
  ultimately show u: "uint w = 10 + 1024 * int n"
    using assms(1) by (simp add: w_def)
  have mods: "uint w mod 4 = 2" "uint w div 4 mod 32 = 2" "uint w div 256 = 4 * int n"
    unfolding u using vector_header_arith [of "int n"] by simp_all
  show "HEADERP w" using mods(1) by (simp only: tag_simps)
  have "uint (header_type w) = uint (2 :: long)" using mods(2) by (simp add: uint_header_type)
  then show "header_type w = 2" by (simp only: word_uint_eq_iff)
  show l: "uint (header_length w) = 4 * int n" using mods(3) by (simp only: uint_header_length)
  show "w \<noteq> weak_pointer_header"
  proof
    assume "w = weak_pointer_header"
    then have "uint w = 1074" by (simp add: weak_pointer_header_def)
    then show False using mods(2) by simp
  qed
  show "header_span w = 4 * int n" using l by (simp add: header_span_exact)
qed

subsection \<open>The vector returned\<close>

definition holds_vector :: "memory \<Rightarrow> scheme_value \<Rightarrow> long list \<Rightarrow> bool" where
  "holds_vector m v xs \<longleftrightarrow> VECTORP m v \<and> uint (header_length (STOB_HEADER m v)) = 4 * int (length xs) \<and>
     (\<forall>i<length xs. STOB_REF m v (int i) = xs ! i)"

definition vector_at :: "heap \<Rightarrow> addr list \<Rightarrow> heap" where
  "vector_at h sel = h\<lparr>mem := store (store_cells (store (mem h) (hp h) 0) (hp h + 4) (map stob_at sel)) (hp h)
     (10 + push_bit 8 (word_of_int (4 * int (length sel)))), hp := hp h + 4 + 4 * int (length sel)\<rparr>"

lemma vector_at_mem:
  "a < hp h \<Longrightarrow> mem (vector_at h sel) a = mem h a"
  "hdr (mem (vector_at h sel)) (hp h + 4) = 10 + push_bit 8 (word_of_int (4 * int (length sel)))"
  "i < length sel \<Longrightarrow> load (mem (vector_at h sel)) (hp h + 4 + 4 * int i) = stob_at (sel ! i)"
  by (simp_all add: vector_at_def mem_simps hdr_def)

lemma wf_heap_top:
  assumes "wf_heap h os"
  shows "4 dvd hp h" "0 \<le> hp h" "hp h + 4 \<le> 4294967296"
    and "a \<in> set os \<Longrightarrow> 4 dvd a \<and> 0 \<le> a \<and> a \<le> hp h \<and> in_newspace h a"
proof -
  from assms have sp: "wf_spaces h" and ob: "heap_objects (mem h) (newspace_begin h) (hp h) = Some os"
    by (simp_all add: wf_heap_def)
  note row = conjunct1 [OF heap_objects_row [OF ob]]
  show d: "4 dvd hp h" "0 \<le> hp h" using row_dvd [OF row] row_le [OF row] sp by (auto simp: wf_spaces_def)
  have "hp h < 4294967296" using sp by (auto simp: wf_spaces_def)
  then show "hp h + 4 \<le> 4294967296" using d(1) by presburger
  show "4 dvd a \<and> 0 \<le> a \<and> a \<le> hp h \<and> in_newspace h a" if "a \<in> set os"
    using row_dvd [OF row] row_bounds [OF row that] span_nonneg [of "mem h" a] that sp
    by (auto simp: wf_spaces_def in_newspace_def)
qed

lemma vector_at_wf:
  assumes wf: "wf_heap h os" and sel: "set sel \<subseteq> set os" "length sel < 4194304"
    and room: "hp h + 4 + 4 * int (length sel) < limit h"
  shows "wf_heap (vector_at h sel) (os @ [hp h + 4])"
    and "holds_vector (mem (vector_at h sel)) (stob_at (hp h + 4)) (map stob_at sel)"
proof -
  let ?h = "vector_at h sel" and ?w = "10 + push_bit 8 (word_of_int (4 * int (length sel))) :: long"
  note W = vector_header [OF sel(2)] and top = wf_heap_top [OF wf]
  from wf have sp: "wf_spaces h" by (simp add: wf_heap_def)
  have lim: "limit h = newspace_end h" "newspace_end h \<le> 4294967296"
    "newspace_end h \<le> oldspace_begin h \<or> oldspace_end h \<le> newspace_begin h"
    using sp by (simp_all add: wf_spaces_def)
  have sp': "span (mem ?h) (hp h + 4) = 4 * int (length sel)"
    unfolding span_def vector_at_mem(2) by (rule W(6))
  have v: "wf_value h (os @ [hp h + 4]) (stob_at a)" if "a \<in> set os" for a
    using top(4) [OF that] that room lim
    by (auto simp: wf_value_def stob_not_header in_oldspace_def in_newspace_def)
  show "wf_heap ?h (os @ [hp h + 4])"
  proof (rule wf_heap_extend [OF wf])
    show "wf_spaces ?h" using sp room by (simp add: vector_at_def wf_spaces_def)
    show "newspace_begin ?h = newspace_begin h" "in_newspace ?h = in_newspace h" "in_oldspace ?h = in_oldspace h"
      by (simp_all add: vector_at_def in_newspace_def in_oldspace_def fun_eq_iff)
    show "mem ?h a = mem h a" if "a < hp h" for a by (rule vector_at_mem(1) [OF that])
    show "hp ?h = hp h + 4 + span (mem ?h) (hp h + 4)" by (simp only: sp') (simp add: vector_at_def)
    show "wf_value h (os @ [hp h + 4]) (load (mem ?h) (hp h + 4 + i))" if "is_field (mem ?h) (hp h + 4) i" for i
    proof -
      from that have "4 dvd i" "0 \<le> i" "i < 4 * int (length sel)"
        unfolding is_field_def sp' by simp_all
      moreover from this obtain k where "i = 4 * int k"
        by (metis dvd_def nonneg_int_cases zero_le_mult_iff zero_less_numeral not_numeral_le_zero)
      ultimately have "k < length sel" "i = 4 * int k" by simp_all
      moreover from this have "sel ! k \<in> set os" using sel(1) nth_mem by blast
      ultimately show ?thesis using vector_at_mem(3) [of k sel h] v by simp
    qed
  qed (simp_all only: vector_at_mem(2) W dvec_def, simp_all)
  have a: "ADDRESS_AFTER_HEADER (stob_at (hp h + 4)) = hp h + 4"
    using top lim room by (intro ADDRESS_stob_at) simp_all
  have hd: "STOB_HEADER (mem ?h) (stob_at (hp h + 4)) = ?w"
    using vector_at_mem(2) [of h sel] by (simp add: STOB_HEADER_def STOB_REF_def a hdr_def)
  then have "VECTORP (mem ?h) (stob_at (hp h + 4))"
    using W(3) top(1) by (simp add: stob_has_type_def STOB_TYPE_def header_type_def and.commute)
  then show "holds_vector (mem ?h) (stob_at (hp h + 4)) (map stob_at sel)"
    using hd W(4) vector_at_mem(3) [of _ sel h]
    by (simp add: holds_vector_def STOB_REF_def a)
qed

lemma wf_heap_statics [simp]:
  "wf_heap (h\<lparr>finding_type := t\<rparr>) os \<longleftrightarrow> wf_heap h os"
  "wf_heap (h\<lparr>the_record_type := r\<rparr>) os \<longleftrightarrow> wf_heap h os"
  by (simp_all add: wf_heap_def wf_spaces_def wf_value_def in_oldspace_def in_newspace_def)

text \<open>Well-formedness depends on the spaces and on the memory of the current space only.\<close>

lemma wf_heap_same:
  assumes wf: "wf_heap h os" and sp: "wf_spaces h'"
    and same: "newspace_begin h' = newspace_begin h" "hp h' = hp h"
      "in_newspace h' = in_newspace h" "in_oldspace h' = in_oldspace h"
      "\<And>a. newspace_begin h \<le> a \<Longrightarrow> a < hp h \<Longrightarrow> mem h' a = mem h a"
  shows "wf_heap h' os"
proof -
  let ?m = "mem h'"
  from wf have ob: "heap_objects (mem h) (newspace_begin h) (hp h) = Some os" and sp0: "wf_spaces h"
    by (simp_all add: wf_heap_def)
  note row = conjunct1 [OF heap_objects_row [OF ob]]
  have dv: "4 dvd hp h - newspace_begin h" using row_dvd [OF row] sp0 by (auto simp: wf_spaces_def)
  have keep: "load ?m a = load (mem h) a" if "newspace_begin h \<le> a" "a + 4 \<le> hp h" for a
    using that by (intro load_cong same(5)) simp_all
  have hd: "hdr ?m a = hdr (mem h) a" if "a \<in> set os" for a
    using row_bounds [OF row that] span_nonneg [of "mem h" a] unfolding hdr_def by (intro keep) linarith+
  then have sd: "dvec ?m a = dvec (mem h) a" "is_field ?m a i = is_field (mem h) a i" if "a \<in> set os" for a i
    using that by (simp_all add: span_def dvec_def is_field_def)
  have fd: "load ?m (a + i) = load (mem h) (a + i)" if "a \<in> set os" "is_field (mem h) a i" for a i
    using row_bounds [OF row that(1)] is_fieldD [OF that(2)] by (intro keep) simp_all
  have "heap_objects ?m (newspace_begin h') (hp h') = Some os"
    unfolding same(1,2) using same(5) by (intro heap_objects_cong [OF ob _ dv])
  moreover have "wf_value h' os v = wf_value h os v" for v
    by (simp add: wf_value_def same)
  ultimately show ?thesis
    using wf sp hd sd fd by (simp add: wf_heap_def field_offsets_iff)
qed

lemma wf_heap_mem:
  assumes wf: "wf_heap h os" and same: "\<forall>a<hp h. m a = mem h a"
  shows "wf_heap (h\<lparr>mem := m\<rparr>) os"
  using wf same
  by (intro wf_heap_same [OF wf])
    (simp_all add: wf_heap_def wf_spaces_def in_newspace_def in_oldspace_def fun_eq_iff)

text \<open>The result of a search, for a test that agrees with a predicate on the objects of the heap.\<close>

lemma find_objects_correct:
  assumes "object_test p" and wf: "wf_heap h os"
    and none: "impure_area_count h = 0" "pure_area_count h = 0"
    and P: "\<And>a. a \<in> set os \<Longrightarrow> p (h\<lparr>mem := store (mem h) (hp h) 0, hp := hp h + 4\<rparr>) (a - 4) = P a"
    and small: "length (filter P os) < 4194304" and room: "hp h + 4 < limit h"
  shows "if filter P os = [] \<or> hp h + 4 * int (length (filter P os)) + 16 < limit h
    then \<exists>h'. find_objects p h = (stob_at (hp h + 4), h') \<and> wf_heap h' (os @ [hp h + 4]) \<and>
      holds_vector (mem h') (stob_at (hp h + 4)) (map stob_at (filter P os)) \<and> (\<forall>a<hp h. mem h' a = mem h a)
    else \<exists>h'. find_objects p h = (SCHFALSE, h') \<and> wf_heap h' os \<and> hp h' = hp h \<and>
      (\<forall>a<hp h. mem h' a = mem h a)"
proof -
  have "filter P os = filter (\<lambda>a. p (h\<lparr>mem := store (mem h) (hp h) 0, hp := hp h + 4\<rparr>) (a - 4)) os"
    using P by (intro filter_cong) simp_all
  note r = find_objects_result [OF assms(1) wf none this]
  show ?thesis
  proof (cases "filter P os = [] \<or> hp h + 4 * int (length (filter P os)) + 16 < limit h")
    case True
    then have "find_objects p h = (stob_at (hp h + 4), vector_at h (filter P os))"
      using r by (simp add: vector_at_def)
    moreover have "hp h + 4 + 4 * int (length (filter P os)) < limit h" using True room by auto
    ultimately show ?thesis
      using vector_at_wf [OF wf filter_is_subset small] True vector_at_mem(1) by auto
  next
    case False
    then obtain m where m: "find_objects p h = (SCHFALSE, h\<lparr>mem := m\<rparr>)" "\<forall>a<hp h. m a = mem h a"
      using r by (simp only: if_False) blast
    with False wf_heap_mem [OF wf m(2)] show ?thesis
      by (simp only: if_False) (intro exI [of _ "h\<lparr>mem := m\<rparr>"], simp)
  qed
qed

lemma test_objects:
  assumes "wf_heap h os" "a \<in> set os"
  shows "load (store (mem h) (hp h) 0) (a - 4) = hdr (mem h) a"
    and "0 < span (mem h) a \<Longrightarrow>
      load (store (mem h) (hp h) 0) (ADDRESS_AFTER_HEADER (stob_at a)) = load (mem h) a"
proof -
  from assms have ob: "heap_objects (mem h) (newspace_begin h) (hp h) = Some os"
    by (simp add: wf_heap_def)
  note b = row_bounds [OF conjunct1 [OF heap_objects_row [OF ob]] assms(2)] and top = wf_heap_top [OF assms(1)]
  show "load (store (mem h) (hp h) 0) (a - 4) = hdr (mem h) a"
    using b span_nonneg [of "mem h" a] by (simp add: hdr_def load_store_other)
  assume "0 < span (mem h) a"
  then have "4 \<le> span (mem h) a" using dvd4_less [of 0 "span (mem h) a"] by simp
  moreover have "ADDRESS_AFTER_HEADER (stob_at a) = a"
    using top(3) top(4) [OF assms(2)] by (intro ADDRESS_stob_at) auto
  ultimately show "load (store (mem h) (hp h) 0) (ADDRESS_AFTER_HEADER (stob_at a)) = load (mem h) a"
    using b by (simp add: load_store_other)
qed

subsection \<open>Properties\<close>

text \<open>
  Property C9. Finding all objects of a type: from a well-formed heap without static areas
  \<open>find_all\<close> returns a vector that holds exactly the objects with that type in their header,
  in the order of the heap, and the heap with the vector added at its end is well formed;
  when the objects found do not fit below the limit the result is false and the allocation
  pointer is where it was. Nothing below the old allocation pointer changes.
\<close>

theorem find_all_correct:
  assumes "wf_heap h os" and "impure_area_count h = 0" and "pure_area_count h = 0"
    and "sel = filter (\<lambda>a. header_type (hdr (mem h) a) = t) os"
    and "length sel < 4194304" and "hp h + 4 < limit h"
  shows "if sel = [] \<or> hp h + 4 * int (length sel) + 16 < limit h
    then \<exists>h'. find_all t h = (stob_at (hp h + 4), h') \<and> wf_heap h' (os @ [hp h + 4]) \<and>
      holds_vector (mem h') (stob_at (hp h + 4)) (map stob_at sel) \<and> (\<forall>a<hp h. mem h' a = mem h a)
    else \<exists>h'. find_all t h = (SCHFALSE, h') \<and> wf_heap h' os \<and> hp h' = hp h \<and>
      (\<forall>a<hp h. mem h' a = mem h a)"
proof -
  let ?h = "h\<lparr>finding_type := t\<rparr>"
  have "type_test (?h\<lparr>mem := store (mem ?h) (hp ?h) 0, hp := hp ?h + 4\<rparr>) (a - 4) \<longleftrightarrow>
      header_type (hdr (mem h) a) = t" if "a \<in> set os" for a
    using test_objects(1) [OF assms(1) that] by (auto simp: type_test_def)
  from find_objects_correct [where h = ?h and os = os, OF by_type.object_test_axioms _ _ _ this] assms
  show ?thesis by (simp add: find_all_def split del: if_split cong: if_cong)
qed

theorem find_all_correct_witness:
  "\<exists>h'. find_all 0 demo_heap = (stob_at 100, h') \<and> wf_heap h' [68, 80, 88, 100] \<and>
     holds_vector (mem h') (stob_at 100) [stob_at 68, stob_at 88]"
proof -
  have sel: "[68, 88] = filter (\<lambda>a. header_type (hdr (mem demo_heap) a) = 0) [68, 80, 88]"
    by code_simp
  show ?thesis
    using find_all_correct [OF demo_heap_wf demo_no_areas _ sel]
    by (auto simp: demo_heap_def heap_zero_def)
qed

text \<open>
  Property C10. Finding all records of a type: \<open>find_all_records\<close> returns a vector of exactly
  the records whose first field is the given record type, or false when they do not fit;
  records have at least that field.
\<close>

theorem find_all_records_correct:
  assumes "wf_heap h os" and "impure_area_count h = 0" and "pure_area_count h = 0"
    and "\<forall>a\<in>set os. header_type (hdr (mem h) a) = stobtype_code STOBTYPE_RECORD \<longrightarrow> 0 < span (mem h) a"
    and "sel = filter (\<lambda>a. header_type (hdr (mem h) a) = stobtype_code STOBTYPE_RECORD \<and> load (mem h) a = r) os"
    and "length sel < 4194304" and "hp h + 4 < limit h"
  shows "if sel = [] \<or> hp h + 4 * int (length sel) + 16 < limit h
    then \<exists>h'. find_all_records r h = (stob_at (hp h + 4), h') \<and> wf_heap h' (os @ [hp h + 4]) \<and>
      holds_vector (mem h') (stob_at (hp h + 4)) (map stob_at sel) \<and> (\<forall>a<hp h. mem h' a = mem h a)
    else \<exists>h'. find_all_records r h = (SCHFALSE, h') \<and> wf_heap h' os \<and> hp h' = hp h \<and>
      (\<forall>a<hp h. mem h' a = mem h a)"
proof -
  let ?h = "h\<lparr>the_record_type := r, finding_type := 8\<rparr>"
  have "record_test (?h\<lparr>mem := store (mem ?h) (hp ?h) 0, hp := hp ?h + 4\<rparr>) (a - 4) \<longleftrightarrow>
      header_type (hdr (mem h) a) = stobtype_code STOBTYPE_RECORD \<and> load (mem h) a = r"
    if "a \<in> set os" for a
    using test_objects [OF assms(1) that] assms(4) that by (auto simp: record_test_def)
  from find_objects_correct [where h = ?h and os = os, OF by_record.object_test_axioms _ _ _ this] assms
  show ?thesis by (simp add: find_all_records_def split del: if_split cong: if_cong)
qed

text \<open>A record with the type 25 and one without, in the space of 64 bytes.\<close>

definition records_heap :: heap where
  "records_heap = demo_heap\<lparr>mem := store (store (store (store (store (store (\<lambda>_. 0)
     64 2082) 68 25) 72 8) 76 1058) 80 21) 84 10, hp := 88\<rparr>"

lemma records_heap_wf: "wf_heap records_heap [68, 80, 88]"
  by code_simp

theorem find_all_records_correct_witness:
  "\<exists>h'. find_all_records 25 records_heap = (stob_at 92, h') \<and> wf_heap h' [68, 80, 88, 92] \<and>
     holds_vector (mem h') (stob_at 92) [stob_at 68]"
proof -
  have sel: "[68] = filter (\<lambda>a. header_type (hdr (mem records_heap) a) = stobtype_code STOBTYPE_RECORD \<and>
      load (mem records_heap) a = 25) [68, 80, 88]" by code_simp
  have rec: "\<forall>a\<in>set [68, 80, 88]. header_type (hdr (mem records_heap) a) = stobtype_code STOBTYPE_RECORD
      \<longrightarrow> 0 < span (mem records_heap) a" by code_simp
  show ?thesis
    using find_all_records_correct [OF records_heap_wf _ _ rec sel]
    by (auto simp: records_heap_def demo_heap_def heap_zero_def)
qed

end
