(* ===== verification/Image_Header.thy ===== *)
theory Image_Header
  imports Files Plain_Streams Heap_Find
begin

text \<open>
  The header of a heap image (\<open>check_image_header\<close> of \<open>src/c/scheme48heap.c\<close>): anything up to
  a form feed and the line end after it, the version, then four integers (bytes per cell,
  beginning and end of the saved space in cells, the start-up procedure) and what follows
  up to a second form feed. A line of \<open>stderr\<close> is an element of \<open>messages\<close>; \<open>strerror\<close> and
  the answers of \<open>fopen\<close> and \<open>fclose\<close> are arguments.
\<close>

subsection \<open>Messages\<close>

definition say :: "string \<Rightarrow> heap \<Rightarrow> heap" where
  "say line h = h\<lparr>messages := messages h @ [line]\<rparr>"

text \<open>Closing the image's port, which is what every failure ends with; the result is \<open>- 1\<close>.\<close>

definition close_image :: "int \<times> int \<Rightarrow> heap \<Rightarrow> long \<times> heap" where
  "close_image closed h =
     (if ps_close closed = NO_ERRORS then (- 1, h) else (- 1, say ''Error closing image file'' h))"

definition image_error :: "(long \<Rightarrow> string) \<Rightarrow> int \<times> int \<Rightarrow> string \<Rightarrow> heap \<Rightarrow> long \<times> heap" where
  "image_error strerror closed message h =
     (let h1 = say message h;
          h2 = (if status h1 = 0 then h1 else say (strerror (status h1)) h1)
      in close_image closed h2)"

subsection \<open>Reading the header\<close>

lemma getc_measure:
  "getc s = (c, s') \<Longrightarrow> c \<noteq> - 1 \<Longrightarrow> length (input s') < length (input s) \<and> ferror_in s' = ferror_in s"
  by (auto simp: getc_def split: list.splits in_event.splits)

lemma read_char_end:
  "read_char s = (- 1, s') \<Longrightarrow> length (input s') \<le> length (input s) \<and>
     (ferror_in s' \<and> \<not> ferror_in s \<longrightarrow> length (input s') < length (input s))"
proof (induction s arbitrary: s' rule: read_char.induct)
  case (1 s)
  obtain r s1 where g: "getc (clearerr s) = (r, s1)" by (cases "getc (clearerr s)")
  show ?case
  proof (cases "ferror_in s \<and> errno_in s = EINTR")
    case True
    then have "read_char s = (if r \<noteq> - 1 then (r, s1) else read_char s1)"
      by (subst read_char.simps) (simp add: g)
    then show ?thesis
      using "1.prems" "1.IH" [OF True g [symmetric] refl, of s'] getc_length [OF g] True
      by (auto simp: clearerr_def split: if_splits)
  next
    case False
    then show ?thesis using "1.prems" by (subst (asm) read_char.simps) auto
  qed
qed

text \<open>A character that is neither the end nor an error takes something from the stream.\<close>

lemma PS_READ_CHAR_progress:
  assumes "PS_READ_CHAR s = ((ch, False, st), s')"
  shows "2 * length (input s') + (if ferror_in s' then 1 else 0) <
     2 * length (input s) + (if ferror_in s then 1 else 0)"
proof -
  obtain c s1 where g: "getc s = (c, s1)" by (cases "getc s")
  show ?thesis
  proof (cases "c = - 1")
    case False
    then show ?thesis using assms g getc_measure [OF g] by (auto simp: PS_READ_CHAR_def)
  next
    case True
    obtain r s2 where r: "read_char s1 = (r, s2)" by (cases "read_char s1")
    show ?thesis
    proof (cases "r = - 1")
      case True': True
      then have f: "ferror_in s2" and s': "s' = clearerr s2"
        using assms g r True by (auto simp: PS_READ_CHAR_def ps_read_char_def Let_def split: if_splits)
      show ?thesis
        using f s' getc_length [OF g] read_char_end [of s1 s2] r True'
        by (cases "ferror_in s1"; cases "ferror_in s") auto
    next
      case False
      then have "s' = s2" using assms g r True by (auto simp: PS_READ_CHAR_def ps_read_char_def)
      then show ?thesis using read_char_length [OF r] False getc_length [OF g] by auto
    qed
  qed
qed

text \<open>Reading up to a character: whether the end was met, and the status.\<close>

function read_until :: "byte \<Rightarrow> istream \<Rightarrow> (bool \<times> int) \<times> istream" where
  "read_until stop s =
     (case PS_READ_CHAR s of ((ch, eof, st), s1) \<Rightarrow>
         if eof then ((eof, st), s1)
         else if st = NO_ERRORS
              then if stop = ch then ((False, st), s1) else read_until stop s1
              else ((eof, st), s1))"
  by pat_completeness auto
termination
proof (relation "measure (\<lambda>(_, s). 2 * length (input s) + (if ferror_in s then 1 else 0))", goal_cases)
  case (2 stop s x s1 ch y eof st)
  then have "PS_READ_CHAR s = ((ch, False, st), s1)" by simp
  from PS_READ_CHAR_progress [OF this] show ?case by simp
qed simp

declare read_until.simps [simp del]

text \<open>\<open>Kali 19\<close>, and the comparison with what is read: the same, the end, the status.\<close>

definition version :: "byte list" where
  "version = [75, 97, 108, 105, 32, 49, 57]"

function read_version :: "nat \<Rightarrow> istream \<Rightarrow> (bool \<times> bool \<times> int) \<times> istream" where
  "read_version i s =
     (case PS_READ_CHAR s of ((ch, eof, st), s1) \<Rightarrow>
         if eof then ((False, eof, st), s1)
         else if st = NO_ERRORS
              then if i = length version then ((10 = ch, False, st), s1)
                   else if i < length version \<and> ch = version ! i then read_version (1 + i) s1
                   else ((False, False, st), s1)
              else ((False, eof, st), s1))"
  by pat_completeness auto
termination
  by (relation "measure (\<lambda>(i, _). length version - i)") auto

declare read_version.simps [simp del]

text \<open>
  What is made of a result read: the flags of the search are set from it. The code tests the
  global \<open>status\<close>, not the status of the read, which therefore gets lost.
\<close>

definition noted :: "bool \<Rightarrow> int \<Rightarrow> 'a \<Rightarrow> 'a \<Rightarrow> heap \<Rightarrow> 'a \<times> heap" where
  "noted eof st thing other h =
     (if eof then (other, h\<lparr>eofP := True\<rparr>)
      else if status h = 0 then (thing, h)
      else (other, h\<lparr>eofP := True, status := word_of_int st\<rparr>))"

definition skip_to :: "byte \<Rightarrow> istream \<Rightarrow> heap \<Rightarrow> istream \<times> heap" where
  "skip_to stop s h =
     (if eofP h then (s, h)
      else let ((eof, st), s1) = read_until stop s in (s1, snd (noted eof st () () h)))"

definition check_version :: "istream \<Rightarrow> heap \<Rightarrow> bool \<times> istream \<times> heap" where
  "check_version s h =
     (if eofP h then (False, s, h)
      else let ((same, eof, st), s1) = read_version 0 s;
               (r, h1) = noted eof st same False h
           in (r, s1, h1))"

definition read_entry :: "istream \<Rightarrow> heap \<Rightarrow> long \<times> istream \<times> heap" where
  "read_entry s h =
     (if eofP h then (- 1, s, h)
      else let ((thing, eof, st), s1) = ps_read_integer s;
               (r, h1) = noted eof st thing (- 1) h
           in (r, s1, h1))"

text \<open>The parts of the header in their order; the version and the bytes per cell are the results.\<close>

definition read_header :: "istream \<Rightarrow> heap \<Rightarrow> (bool \<times> long) \<times> istream \<times> heap" where
  "read_header s0 h0 =
     (let (s1, h1) = skip_to 12 s0 h0;
          (s2, h2) = skip_to 10 s1 h1;
          (same_versionP, s3, h3) = check_version s2 h2;
          (bytes_per_cell, s4, h4) = read_entry s3 h3;
          (begin_cells, s5, h5) = read_entry s4 h4;
          h5' = h5\<lparr>old_begin := uint (push_bit 2 begin_cells)\<rparr>;
          (hp_cells, s6, h6) = read_entry s5 h5';
          h6' = h6\<lparr>old_hp := uint (push_bit 2 hp_cells)\<rparr>;
          (proc, s7, h7) = read_entry s6 h6';
          (s8, h8) = skip_to 12 s7 (h7\<lparr>startup_proc := proc\<rparr>)
      in ((same_versionP, bytes_per_cell), s8, h8))"

text \<open>What is made of a header that has been read: the size of the image in bytes, or \<open>- 1\<close>.\<close>

definition finish_header :: "(long \<Rightarrow> string) \<Rightarrow> int \<times> int \<Rightarrow> bool \<Rightarrow> long \<Rightarrow> heap \<Rightarrow> long \<times> heap" where
  "finish_header strerror closed same_versionP bytes_per_cell h =
     (if status h \<noteq> 0 then image_error strerror closed ''Error reading from image file'' h
      else if eofP h
      then image_error strerror closed ''Premature EOF when reading image file'' (h\<lparr>status := word_of_int EDOM\<rparr>)
      else if \<not> same_versionP
      then image_error strerror closed ''Format of image is incompatible with this version of system'' h
      else if bytes_per_cell \<noteq> 4
      then image_error strerror closed ''Incompatible bytes-per-cell in image'' h
      else (word_of_int (old_hp h - old_begin h), h))"

text \<open>The size, and the image's port.\<close>

definition check_image_header ::
  "(byte list \<Rightarrow> byte list option) \<Rightarrow> (byte list \<Rightarrow> byte list option) \<Rightarrow>
   (byte list \<Rightarrow> byte \<Rightarrow> int + istream) \<Rightarrow> (long \<Rightarrow> string) \<Rightarrow> int \<times> int \<Rightarrow>
     byte list \<Rightarrow> heap \<Rightarrow> long \<times> istream option \<times> heap" where
  "check_image_header getenv getpwnam fopen strerror closed filename h =
     (case ps_open_input_file getenv getpwnam fopen filename of
        (None, st) \<Rightarrow> (- 1, None, say (strerror (word_of_int st)) (say ''Can't open heap image file'' h))
      | (Some port, st) \<Rightarrow>
          let ((same_versionP, bytes_per_cell), port1, h1) =
                read_header port (h\<lparr>status := word_of_int NO_ERRORS, eofP := False\<rparr>);
              (len, h2) = finish_header strerror closed same_versionP bytes_per_cell h1
          in (len, Some port1, h2))"

end
