(* ===== verification/Image_Write.thy ===== *)
theory Image_Write
  imports Image_Header
begin

text \<open>
  Writing a heap image (\<open>write_image\<close> of \<open>src/c/scheme48heap.c\<close>): the objects the resumption
  procedure reaches are copied to the idle space as a collection does, the copy is written
  behind a header, and the current space is repaired, since copying has replaced headers by
  forwarding pointers. The channels among the copies are marked closed
  (\<open>mark_traced_channels_closedB\<close> of \<open>src/c/scheme48vm.c\<close>).
\<close>

subsection \<open>Channels\<close>

text \<open>What is printed of a closed channel: its number, or its name if it has one.\<close>

definition text_of :: "byte list \<Rightarrow> string" where
  "text_of bs = map (\<lambda>b. char_of (unat b)) bs"

definition channel_name :: "memory \<Rightarrow> scheme_value \<Rightarrow> string option" where
  "channel_name m channel =
     (let descriptor = load m (ADDRESS_AFTER_HEADER channel + 4)
      in if FIXNUMP descriptor then Some (text_of (decimal_long (sar 2 descriptor)))
         else map_option text_of (c_string m (ADDRESS_AFTER_HEADER descriptor)))"

text \<open>The channel's copy gets the status 0 (closed) and the number \<open>- 1\<close>.\<close>

definition close_traced_channel :: "scheme_value \<Rightarrow> heap \<Rightarrow> heap option" where
  "close_traced_channel channel h =
     (if channel = 1 then Some h
      else let header = load (mem h) (ADDRESS_AFTER_HEADER channel + (- 4))
           in if STOBP header
              then map_option (\<lambda>name.
                  let h1 = say (''Channel closed in dumped image: '' @ name) h;
                      m = store (mem h1) (ADDRESS_AFTER_HEADER header) 0
                  in h1\<lparr>mem := store m (ADDRESS_AFTER_HEADER header + 8) (- 4)\<rparr>) (channel_name (mem h) channel)
              else Some h)"

text \<open>
  The table of the virtual machine's channels is a function, with its size; \<open>None\<close> is a
  name without an end.
\<close>

partial_function (option) mark_traced_channels_from ::
    "(int \<Rightarrow> scheme_value) \<Rightarrow> int \<Rightarrow> int \<Rightarrow> heap \<Rightarrow> heap option" where
  "mark_traced_channels_from vm_channels number_of_channels i h =
     (if i = number_of_channels then Some h
      else case close_traced_channel (vm_channels i) h of
             None \<Rightarrow> None
           | Some h1 \<Rightarrow> mark_traced_channels_from vm_channels number_of_channels (1 + i) h1)"

declare mark_traced_channels_from.simps [code]

definition mark_traced_channels_closedB :: "(int \<Rightarrow> scheme_value) \<Rightarrow> int \<Rightarrow> heap \<Rightarrow> heap option" where
  "mark_traced_channels_closedB vm_channels number_of_channels h =
     mark_traced_channels_from vm_channels number_of_channels 0 h"

subsection \<open>The header\<close>

text \<open>Each part is written when nothing has gone wrong before; \<open>status\<close> keeps the first error.\<close>

definition if_okay :: "(ostream \<Rightarrow> int \<times> ostream) \<Rightarrow> int \<times> ostream \<Rightarrow> int \<times> ostream" where
  "if_okay write s = (if fst s = NO_ERRORS then write (snd s) else s)"

definition write_image_header :: "heap \<Rightarrow> scheme_value \<Rightarrow> ostream \<Rightarrow> int \<times> ostream" where
  "write_image_header h resume_proc port =
     (let newline = if_okay (WRITE_CHAR 10);
          page = if_okay (WRITE_CHAR 12);
          integer = (\<lambda>n. if_okay (ps_write_integer n));
          s1 = newline (page (newline (NO_ERRORS, port)));
          s2 = newline (if_okay (ps_write_string version) s1);
          s3 = newline (integer 4 s2);
          s4 = newline (integer (sar 2 (word_of_int (newspace_begin h))) s3);
          s5 = newline (integer (sar 2 (word_of_int (hp h))) s4);
          s6 = newline (integer resume_proc s5)
      in page s6)"

subsection \<open>Repairing the current space\<close>

function restore_headers :: "addr \<Rightarrow> addr \<Rightarrow> memory \<Rightarrow> memory" where
  "restore_headers a end m =
     (if a < end
      then let d = load m a;
               hd = (if HEADERP d then d else load m (ADDRESS_AFTER_HEADER d + (- 4)));
               m1 = (if HEADERP d then m else store m a hd)
           in restore_headers (a + (4 + header_span hd)) end m1
      else m)"
  by pat_completeness auto
termination
  by (relation "measure (\<lambda>(a, end, _). nat (end - a))") (simp_all add: nat_less_iff add_increasing2)

declare restore_headers.simps [simp del]

definition swap_spaces :: "heap \<Rightarrow> heap" where
  "swap_spaces h =
     h\<lparr>newspace_begin := oldspace_begin h, oldspace_begin := newspace_begin h,
       newspace_end := oldspace_end h, oldspace_end := newspace_end h\<rparr>"

definition resume_old_space :: "heap \<Rightarrow> heap" where
  "resume_old_space h =
     (let h1 = (swap_spaces h)\<lparr>limit := saved_limit h, hp := saved_hp h\<rparr>
      in h1\<lparr>mem := restore_headers (newspace_begin h1) (hp h1) (mem h1)\<rparr>)"

subsection \<open>The whole operation\<close>

text \<open>
  The code has the bodies of \<open>begin_collection\<close> and \<open>trace_value\<close> expanded in place. The
  objects are written after a cell that holds one, which shows the byte order.\<close>

definition write_objects :: "heap \<Rightarrow> int \<times> ostream \<Rightarrow> (int \<times> ostream) \<times> heap" where
  "write_objects h s =
     (let h1 = h\<lparr>mem := store (mem h) (hp h) 1\<rparr>;
          s1 = if_okay (ps_write_block 4 (load_bytes (mem h1) (hp h1) 4)) s;
          size = unat (word_of_int (hp h1 - newspace_begin h1) :: long);
          s2 = if_okay (ps_write_block size (load_bytes (mem h1) (newspace_begin h1) size)) s1
      in (s2, h1))"

definition write_image ::
  "(heap \<Rightarrow> heap option) \<Rightarrow> scheme_value \<Rightarrow> ostream \<Rightarrow> heap \<Rightarrow> (int \<times> ostream \<times> heap) option" where
  "write_image mark_channels resume_proc port h =
     (let (resume, h3) = trace_value resume_proc (begin_collection h)
      in Option.bind (scan_loop (newspace_begin h3) h3) (\<lambda>h4.
         Option.bind (clean_weak_pointers h4) (\<lambda>h5.
         Option.bind (mark_channels h5) (\<lambda>h6.
           let (s, h7) = write_objects h6 (write_image_header h6 resume port)
           in Some (fst s, snd s, resume_old_space (h7\<lparr>status := word_of_int (fst s)\<rparr>))))))"

end
