(* ===== verification/Image_Read.thy ===== *)
theory Image_Read
  imports Image_Header
begin

text \<open>
  Reading a heap image (\<open>read_image\<close> of \<open>src/c/scheme48heap.c\<close>): the marker cell that shows
  the byte order, the block of objects, the correction of the byte order and the relocation
  of the descriptors by the distance between the space the image was written from and the
  one it is read to.
\<close>

subsection \<open>Byte order\<close>

definition reverse_byte_order :: "memory \<Rightarrow> addr \<Rightarrow> memory" where
  "reverse_byte_order m a =
     (let x = m a;
          m1 = m(a := m (a + 3));
          m2 = m1(a + 3 := x);
          y = m2 (a + 1);
          m3 = m2(a + 1 := m2 (a + 2))
      in m3(a + 2 := y))"

text \<open>The contents of byte vectors (type 19 and up) stay as they are.\<close>

function reverse_cells :: "addr \<Rightarrow> addr \<Rightarrow> memory \<Rightarrow> memory" where
  "reverse_cells ptr end m =
     (if ptr < end
      then let m1 = reverse_byte_order m ptr;
               value = load m1 ptr;
               next = ptr + 4
           in if HEADERP value
              then if header_type value < 19 then reverse_cells next end m1
                   else reverse_cells (next + header_span value) end m1
              else reverse_cells next end m1
      else m)"
  by pat_completeness auto
termination
  by (relation "measure (\<lambda>(ptr, end, _). nat (end - ptr))")
    (simp_all add: nat_less_iff add_increasing2)

declare reverse_cells.simps [simp del]

subsection \<open>Relocation\<close>

definition relocate :: "int \<Rightarrow> scheme_value \<Rightarrow> scheme_value" where
  "relocate delta v = (if STOBP v then stob_at (ADDRESS_AFTER_HEADER v + delta) else v)"

function relocate_cells :: "addr \<Rightarrow> addr \<Rightarrow> int \<Rightarrow> memory \<Rightarrow> memory" where
  "relocate_cells ptr end delta m =
     (if ptr < end
      then let d = relocate delta (load m ptr);
               m1 = store m ptr d
           in if HEADERP d
              then if header_type d < 19 then relocate_cells (ptr + 4) end delta m1
                   else relocate_cells (ptr + (4 + header_span d)) end delta m1
              else relocate_cells (ptr + 4) end delta m1
      else m)"
  by pat_completeness auto
termination
  by (relation "measure (\<lambda>(ptr, end, _, _). nat (end - ptr))")
    (simp_all add: nat_less_iff add_increasing2)

declare relocate_cells.simps [simp del]

subsection \<open>The blocks\<close>

text \<open>
  A block read to the allocation pointer: no message when all of it came. The count is
  converted to the unsigned type of \<open>fread\<close>.
\<close>

definition read_to_heap :: "long \<Rightarrow> istream \<Rightarrow> heap \<Rightarrow> string option \<times> istream \<times> heap" where
  "read_to_heap need port h =
     (let ((got, buffer, eof, st), port1) =
            ps_read_block (unat need) (load_bytes (mem h) (hp h) (unat need)) port;
          h1 = h\<lparr>mem := store_bytes (mem h) (hp h) buffer\<rparr>
      in if st = NO_ERRORS
         then if eof then (Some ''Premature EOF when reading image file'', port1, h1)
              else if word_of_nat got <s need then (Some ''Read returned too few bytes'', port1, h1)
              else (None, port1, h1)
         else (Some ''Error reading from image file'', port1, h1\<lparr>status := word_of_int st\<rparr>))"

text \<open>The end of a successful reading: the new allocation pointer and the start-up procedure.\<close>

definition install_image :: "bool \<Rightarrow> int \<Rightarrow> addr \<Rightarrow> heap \<Rightarrow> long \<times> heap" where
  "install_image reverseP delta new_hp h =
     (let start = hp h;
          h1 = (if reverseP
                then say ''Correcting byte order of resumed image.'' h
                       \<lparr>mem := reverse_cells start new_hp (mem h)\<rparr>
                else h);
          h2 = (if delta = 0 then h1 else h1\<lparr>mem := relocate_cells start new_hp delta (mem h1)\<rparr>)
      in (relocate delta (startup_proc h2), h2\<lparr>hp := new_hp\<rparr>))"

text \<open>
  The rest of the image, after the marker. \<open>fclose\<close> gives its answer the first and the
  second time it is called: a port that could not be closed is closed again.
\<close>

definition read_objects ::
  "(long \<Rightarrow> string) \<Rightarrow> (nat \<Rightarrow> int \<times> int) \<Rightarrow> istream \<Rightarrow> bool \<Rightarrow> long \<Rightarrow> heap \<Rightarrow> long \<times> heap" where
  "read_objects strerror fclose port reverseP startup_space h =
     (let delta = hp h - old_begin h;
          new_hp = old_hp h + delta
      in if new_hp + sint startup_space < newspace_end h
         then let (problem, port1, h1) = read_to_heap (word_of_int (old_hp h - old_begin h)) port h;
                  ((_, eof, st), port2) = PS_READ_CHAR port1
              in case problem of
                   Some message \<Rightarrow> image_error strerror (fclose 0) message h1
                 | None \<Rightarrow>
                     if st \<noteq> NO_ERRORS
                     then image_error strerror (fclose 0) ''Error reading from image file'' h1
                     else if \<not> eof
                     then image_error strerror (fclose 0) ''Image file has extraneous data after image'' h1
                     else if ps_close (fclose 0) \<noteq> NO_ERRORS
                     then image_error strerror (fclose 1) ''Error closing image file'' h1
                     else install_image reverseP delta new_hp h1
         else image_error strerror (fclose 0) ''Heap not big enough to restore this image'' h)"

definition read_image ::
  "(long \<Rightarrow> string) \<Rightarrow> (nat \<Rightarrow> int \<times> int) \<Rightarrow> istream \<Rightarrow> long \<Rightarrow> heap \<Rightarrow> long \<times> heap" where
  "read_image strerror fclose port startup_space h =
     (let (problem, port1, h1) = read_to_heap 4 port h
      in case problem of
           Some message \<Rightarrow> image_error strerror (fclose 0) message h1
         | None \<Rightarrow>
             if load (mem h1) (hp h1) = 1
             then read_objects strerror fclose port1 False startup_space h1
             else let h2 = h1\<lparr>mem := reverse_byte_order (mem h1) (hp h1)\<rparr>
                  in if load (mem h2) (hp h2) = 1
                     then read_objects strerror fclose port1 True startup_space h2
                     else image_error strerror (fclose 0) ''Unable to correct byte order'' h2)"

end
