(* ===== verification/Image_Cells.thy ===== *)
theory Image_Cells
  imports Image_Read
begin

text \<open>
  The two passes \<open>read_image\<close> makes over an image, the correction of the byte order and the
  relocation, are one loop with two functions on a cell. The locale \<open>cell_pass\<close> states the
  loop and proves what it leaves of a row of objects; it is interpreted on both.
\<close>

subsection \<open>A pass over the cells of a row of objects\<close>

text \<open>What a pass with the function \<open>t\<close> leaves of the objects laid out as in \<open>mT\<close>.\<close>

definition passed :: "(long \<Rightarrow> long) \<Rightarrow> memory \<Rightarrow> memory \<Rightarrow> memory \<Rightarrow> addr list \<Rightarrow> bool" where
  "passed t mT m m' os \<longleftrightarrow> (\<forall>a\<in>set os.
     hdr m' a = hdr mT a \<and>
     (\<forall>i. is_field mT a i \<longrightarrow> load m' (a + i) = t (load m (a + i))) \<and>
     (\<not> dvec mT a \<longrightarrow> (\<forall>i. 0 \<le> i \<and> i < span mT a \<longrightarrow> m' (a + i) = m (a + i))))"

text \<open>What it needs of them: headers that become headers, fields that do not.\<close>

definition passable :: "(long \<Rightarrow> long) \<Rightarrow> memory \<Rightarrow> memory \<Rightarrow> addr list \<Rightarrow> bool" where
  "passable t mT m os \<longleftrightarrow> (\<forall>a\<in>set os.
     t (hdr m a) = hdr mT a \<and> (\<forall>i. is_field mT a i \<longrightarrow> \<not> HEADERP (t (load m (a + i)))))"

locale cell_pass =
  fixes t :: "long \<Rightarrow> long" and pass :: "addr \<Rightarrow> addr \<Rightarrow> memory \<Rightarrow> memory"
  assumes pass_stop: "\<not> p < e \<Longrightarrow> pass p e m = m"
    and pass_cell: "p < e \<Longrightarrow> \<not> (HEADERP (t (load m p)) \<and> \<not> header_type (t (load m p)) < 19) \<Longrightarrow>
      pass p e m = pass (p + 4) e (store m p (t (load m p)))"
    and pass_bytes: "p < e \<Longrightarrow> HEADERP (t (load m p)) \<Longrightarrow> \<not> header_type (t (load m p)) < 19 \<Longrightarrow>
      pass p e m = pass (p + 4 + header_span (t (load m p))) e (store m p (t (load m p)))"
begin

lemma pass_fields:
  "(\<And>j. j < k \<Longrightarrow> \<not> HEADERP (t (load m (p + 4 * int j)))) \<Longrightarrow> p + 4 * int k \<le> e \<Longrightarrow>
     pass p e m = pass (p + 4 * int k) e
       (store_cells m p (map (\<lambda>j. t (load m (p + 4 * int j))) [0..<k]))"
proof (induction k arbitrary: p m)
  case (Suc k)
  let ?m = "store m p (t (load m p))"
  have keep: "load ?m (p + 4 + 4 * int j) = load m (p + 4 * int (Suc j))" for j
    by (simp add: load_store_other algebra_simps)
  have "pass p e m = pass (p + 4) e ?m"
    using Suc.prems(1) [of 0] Suc.prems(2) by (intro pass_cell) simp_all
  also have "\<dots> = pass (p + 4 + 4 * int k) e
      (store_cells ?m (p + 4) (map (\<lambda>j. t (load ?m (p + 4 + 4 * int j))) [0..<k]))"
  proof (rule Suc.IH)
    show "\<not> HEADERP (t (load ?m (p + 4 + 4 * int j)))" if "j < k" for j
      unfolding keep using Suc.prems(1) [of "Suc j"] that by simp
    show "p + 4 + 4 * int k \<le> e" using Suc.prems(2) by simp
  qed
  also have "map (\<lambda>j. t (load ?m (p + 4 + 4 * int j))) [0..<k] = map (\<lambda>j. t (load m (p + 4 * int j))) [1..<Suc k]"
    by (simp only: keep map_Suc_upt [symmetric] map_map comp_def One_nat_def)
  also have "store_cells ?m (p + 4) (map (\<lambda>j. t (load m (p + 4 * int j))) [1..<Suc k]) =
      store_cells m p (map (\<lambda>j. t (load m (p + 4 * int j))) [0..<Suc k])"
    by (subst (2) upt_conv_Cons) simp_all
  finally show ?case by (simp add: algebra_simps)
qed simp

lemma pass_row:
  "row mT (\<lambda>a. a) b os e \<Longrightarrow> (\<forall>a\<in>set os. HEADERP (hdr mT a)) \<Longrightarrow>
     (\<forall>a\<in>set os. dvec mT a \<longrightarrow> 4 dvd uint (header_length (hdr mT a))) \<Longrightarrow> passable t mT m os \<Longrightarrow>
     passed t mT m (pass b e m) os \<and> (\<forall>x. x < b \<or> e \<le> x \<longrightarrow> pass b e m x = m x)"
proof (induction os arbitrary: b m)
  case Nil
  then show ?case by (simp add: passed_def pass_stop)
next
  case (Cons a os)
  let ?n = "span mT a"
  have a: "a = b + 4" using Cons.prems(1) by simp
  have row: "row mT (\<lambda>a. a) (b + 4 + ?n) os e"
    by (rule conjunct2 [OF iffD1 [OF row.simps(2) Cons.prems(1)]])
  have le: "b + 4 + ?n \<le> e" using row_le [OF row] .
  note sp = span_nonneg [of mT a]
  have be: "b < e" using le sp by linarith
  have H: "HEADERP (hdr mT a)" using Cons.prems(2) by simp
  have th: "t (load m b) = hdr mT a" using Cons.prems(4) a by (simp add: passable_def hdr_def)
  define m1 where "m1 = store m b (hdr mT a)"
  have above: "b + 4 + ?n + 4 \<le> c" if "c \<in> set os" for c
    using row_bounds [OF row that] by simp
  have next_row: "passed t mT m (pass (b + 4 + ?n) e m2) os \<and>
      (\<forall>x. x < b + 4 + ?n \<or> e \<le> x \<longrightarrow> pass (b + 4 + ?n) e m2 x = m2 x)"
    if out: "\<And>x. b + 4 + ?n \<le> x \<Longrightarrow> m2 x = m x" for m2
  proof -
    have ld: "load m2 (c + i) = load m (c + i)" if "c \<in> set os" "- 4 \<le> i" for c i
      using above [OF that(1)] that(2) by (intro load_cong out) simp
    have hd: "hdr m2 c = hdr m c" if "c \<in> set os" for c using ld [OF that, of "- 4"] by (simp add: hdr_def)
    have "passable t mT m2 os"
      using Cons.prems(4) hd ld is_fieldD by (fastforce simp: passable_def)
    from Cons.IH [OF row _ _ this] Cons.prems(2,3)
    have r: "passed t mT m2 (pass (b + 4 + ?n) e m2) os"
      "\<forall>x. x < b + 4 + ?n \<or> e \<le> x \<longrightarrow> pass (b + 4 + ?n) e m2 x = m2 x" by simp_all
    have "passed t mT m (pass (b + 4 + ?n) e m2) os"
      unfolding passed_def
    proof (intro ballI conjI allI impI)
      fix c assume c: "c \<in> set os"
      show "hdr (pass (b + 4 + ?n) e m2) c = hdr mT c" using r(1) c by (simp add: passed_def)
      fix i
      show "load (pass (b + 4 + ?n) e m2) (c + i) = t (load m (c + i))" if "is_field mT c i"
        using r(1) c ld [OF c, of i] is_fieldD [OF that] that by (simp add: passed_def)
      show "pass (b + 4 + ?n) e m2 (c + i) = m (c + i)" if "\<not> dvec mT c" "0 \<le> i \<and> i < span mT c"
        using r(1) c out [of "c + i"] above [OF c] that by (simp add: passed_def)
    qed
    then show ?thesis using r(2) by blast
  qed
  show ?case
  proof (cases "dvec mT a")
    case False
    have p: "pass b e m = pass (b + 4 + ?n) e m1"
      using be H th False unfolding m1_def span_def dvec_def by (subst pass_bytes) simp_all
    have "m1 x = m x" if "b + 4 + ?n \<le> x" for x
      using that sp by (simp add: m1_def store_byte_other)
    from next_row [of m1, OF this]
    have nr: "passed t mT m (pass b e m) os"
      "\<And>x. x < b + 4 + ?n \<or> e \<le> x \<Longrightarrow> pass b e m x = m1 x" unfolding p by blast+
    have "hdr (pass b e m) a = hdr m1 a"
      unfolding hdr_def a using nr(2) sp by (intro load_cong) simp
    moreover have "hdr m1 a = hdr mT a" by (simp add: m1_def hdr_def a)
    moreover have "pass b e m (a + i) = m (a + i)" if "0 \<le> i" "i < ?n" for i
      using nr(2) [of "a + i"] that a by (simp add: m1_def store_byte_other)
    moreover have "\<not> is_field mT a i" for i using False by (simp add: is_field_def)
    ultimately show ?thesis
      using nr le sp by (auto simp: passed_def m1_def store_byte_other)
  next
    case True
    define k where "k = nat (?n div 4)"
    have "4 dvd ?n" by simp
    then have k: "4 * int k = ?n" using sp by (auto simp: k_def dvd_def)
    have fld: "is_field mT a (4 * int j)" if "j < k" for j
      using True that k by (simp add: is_field_def)
    define vs where "vs = map (\<lambda>j. t (load m (b + 4 + 4 * int j))) [0..<k]"
    have keep: "load m1 (b + 4 + 4 * int j) = load m (b + 4 + 4 * int j)" for j
      by (simp add: m1_def load_store_other)
    have nh: "\<not> HEADERP (t (load m (b + 4 + 4 * int j)))" if "j < k" for j
      using Cons.prems(4) fld [OF that] a by (simp add: passable_def)
    have "pass b e m = pass (b + 4) e m1"
      using be True th unfolding m1_def by (subst pass_cell) (simp_all add: dvec_def)
    also have "\<dots> = pass (b + 4 + ?n) e (store_cells m1 (b + 4) vs)"
      using pass_fields [of k m1 "b + 4" e] nh le unfolding keep k vs_def by simp
    finally have p: "pass b e m = pass (b + 4 + ?n) e (store_cells m1 (b + 4) vs)" .
    have len: "4 * int (length vs) = ?n" by (simp add: vs_def k)
    have "store_cells m1 (b + 4) vs x = m x" if "b + 4 + ?n \<le> x" for x
      using that sp len by (simp add: m1_def store_byte_other store_cells_outside)
    from next_row [of "store_cells m1 (b + 4) vs", OF this]
    have nr: "passed t mT m (pass b e m) os"
      "\<And>x. x < b + 4 + ?n \<or> e \<le> x \<Longrightarrow> pass b e m x = store_cells m1 (b + 4) vs x"
      unfolding p by blast+
    have "hdr (pass b e m) a = hdr (store_cells m1 (b + 4) vs) a"
      unfolding hdr_def a using nr(2) sp by (intro load_cong) simp
    also have "\<dots> = load m1 b" by (simp add: hdr_def a load_store_cells_outside)
    also have "\<dots> = hdr mT a" by (simp add: m1_def)
    finally have "hdr (pass b e m) a = hdr mT a" .
    moreover have "load (pass b e m) (a + i) = t (load m (a + i))" if "is_field mT a i" for i
    proof -
      note i = is_fieldD [OF that]
      then obtain j where j: "i = 4 * int j"
        by (metis dvd_def nonneg_int_cases zero_le_mult_iff zero_less_numeral not_numeral_le_zero)
      then have jk: "j < k" using i k by simp
      have "load (pass b e m) (a + i) = load (store_cells m1 (b + 4) vs) (a + i)"
        using nr(2) i a by (intro load_cong) simp
      also have "\<dots> = vs ! j" using load_store_cells [of j vs m1 "b + 4"] jk a j by (simp add: vs_def)
      finally show ?thesis using jk a j by (simp add: vs_def)
    qed
    ultimately have "passed t mT m (pass b e m) (a # os)"
      using nr(1) True by (simp add: passed_def)
    moreover have "pass b e m x = m x" if "x < b \<or> e \<le> x" for x
    proof -
      have "pass b e m x = store_cells m1 (b + 4) vs x" using that le sp by (intro nr(2)) linarith
      also have "\<dots> = m1 x" using that le sp len by (intro store_cells_outside) linarith
      also have "\<dots> = m x" using that le sp unfolding m1_def by (intro store_byte_other) linarith
      finally show ?thesis .
    qed
    ultimately show ?thesis by simp
  qed
qed

end

subsection \<open>The two passes\<close>

text \<open>A cell with its bytes in the other order.\<close>

definition bswap :: "long \<Rightarrow> long" where
  "bswap w = load (reverse_byte_order (store (\<lambda>_. 0) 0 w) 0) 0"

lemma reverse_byte_order_at:
  assumes "0 \<le> i" "i < 4"
  shows "reverse_byte_order m p (p + i) = m (p + (3 - i))"
proof -
  from assms consider "i = 0" | "i = 1" | "i = 2" | "i = 3" by linarith
  then show ?thesis by cases (simp_all add: reverse_byte_order_def Let_def)
qed

lemma load_reverse_byte_order: "load (reverse_byte_order m p) p = bswap (load m p)"
  unfolding bswap_def
proof (rule load_cong)
  fix i :: int assume i: "0 \<le> i" "i < 4"
  have "store (\<lambda>_. 0) 0 (load m p) (0 + (3 - i)) = m (p + (3 - i))"
    using i by (intro load_inj_byte) simp_all
  then show "reverse_byte_order m p (p + i) = reverse_byte_order (store (\<lambda>_. 0) 0 (load m p)) 0 (0 + i)"
    using i by (simp only: reverse_byte_order_at)
qed

lemma bswap_bswap [simp]: "bswap (bswap w) = w"
proof -
  let ?m = "store (\<lambda>_. 0) 0 w"
  have "bswap (bswap w) = load (reverse_byte_order (reverse_byte_order ?m 0) 0) 0"
    by (simp only: load_reverse_byte_order load_store_same)
  also have "\<dots> = load ?m 0"
  proof (rule load_cong)
    fix i :: int assume "0 \<le> i" "i < 4"
    then show "reverse_byte_order (reverse_byte_order ?m 0) 0 (0 + i) = ?m (0 + i)"
      using reverse_byte_order_at [of i "reverse_byte_order ?m 0" 0] reverse_byte_order_at [of "3 - i" ?m 0]
      by simp
  qed
  finally show ?thesis by simp
qed

lemma store_load_frame:
  assumes "\<And>x. x < p \<or> p + 4 \<le> x \<Longrightarrow> m' x = m x"
  shows "store m p (load m' p) = m'"
proof
  fix x
  show "store m p (load m' p) x = m' x"
  proof (cases "x < p \<or> p + 4 \<le> x")
    case True
    then show ?thesis using assms by (simp add: store_byte_other)
  next
    case False
    then have "store m p (load m' p) (p + (x - p)) = m' (p + (x - p))"
      by (intro load_inj_byte) simp_all
    then show ?thesis by simp
  qed
qed

lemma reverse_byte_order_store: "reverse_byte_order m p = store m p (bswap (load m p))"
proof -
  have "store m p (load (reverse_byte_order m p) p) = reverse_byte_order m p"
    by (rule store_load_frame) (auto simp: reverse_byte_order_def Let_def)
  then show ?thesis by (simp only: load_reverse_byte_order)
qed

interpretation reversal: cell_pass bswap reverse_cells
proof
  fix p e :: addr and m
  show "reverse_cells p e m = m" if "\<not> p < e" using that by (simp add: reverse_cells.simps)
  show "reverse_cells p e m = reverse_cells (p + 4) e (store m p (bswap (load m p)))"
    if "p < e" "\<not> (HEADERP (bswap (load m p)) \<and> \<not> header_type (bswap (load m p)) < 19)"
    using that by (subst reverse_cells.simps) (auto simp: Let_def reverse_byte_order_store)
  show "reverse_cells p e m =
      reverse_cells (p + 4 + header_span (bswap (load m p))) e (store m p (bswap (load m p)))"
    if "p < e" "HEADERP (bswap (load m p))" "\<not> header_type (bswap (load m p)) < 19"
    using that by (subst reverse_cells.simps) (simp add: Let_def reverse_byte_order_store)
qed

interpretation relocation: cell_pass "relocate delta" "\<lambda>p e m. relocate_cells p e delta m" for delta
proof
  fix p e :: addr and m
  show "relocate_cells p e delta m = m" if "\<not> p < e" using that by (simp add: relocate_cells.simps)
  show "relocate_cells p e delta m = relocate_cells (p + 4) e delta (store m p (relocate delta (load m p)))"
    if "p < e" "\<not> (HEADERP (relocate delta (load m p)) \<and> \<not> header_type (relocate delta (load m p)) < 19)"
    using that by (subst relocate_cells.simps) (auto simp: Let_def)
  show "relocate_cells p e delta m =
      relocate_cells (p + 4 + header_span (relocate delta (load m p))) e delta (store m p (relocate delta (load m p)))"
    if "p < e" "HEADERP (relocate delta (load m p))" "\<not> header_type (relocate delta (load m p)) < 19"
    using that by (subst relocate_cells.simps) (simp add: Let_def add.assoc)
qed

subsection \<open>Images\<close>

text \<open>
  The objects of an image: a row from \<open>b\<close> to \<open>e\<close>, every descriptor of which points to an
  object of it.
\<close>

definition wf_image :: "memory \<Rightarrow> addr \<Rightarrow> addr \<Rightarrow> addr list \<Rightarrow> bool" where
  "wf_image m b e os \<longleftrightarrow> 4 dvd b \<and> 0 \<le> b \<and> e \<le> 4294967296 \<and> heap_objects m b e = Some os \<and>
     (\<forall>a\<in>set os. hdr m a \<noteq> weak_pointer_header \<and> (dvec m a \<longrightarrow> 4 dvd uint (header_length (hdr m a))) \<and>
        (\<forall>i\<in>set (field_offsets m a). \<not> HEADERP (load m (a + i)) \<and>
           (STOBP (load m (a + i)) \<longrightarrow> ADDRESS_AFTER_HEADER (load m (a + i)) \<in> set os)))"

text \<open>The image of a machine with the other byte order.\<close>

definition foreign :: "memory \<Rightarrow> memory \<Rightarrow> addr list \<Rightarrow> bool" where
  "foreign m m0 os \<longleftrightarrow> (\<forall>a\<in>set os. hdr m0 a = bswap (hdr m a) \<and>
     (\<forall>i\<in>set (field_offsets m a). load m0 (a + i) = bswap (load m (a + i))) \<and>
     (\<not> dvec m a \<longrightarrow> (\<forall>i. 0 \<le> i \<and> i < span m a \<longrightarrow> m0 (a + i) = m (a + i))))"

text \<open>The objects \<open>os\<close> of \<open>m\<close>, moved by \<open>delta\<close>.\<close>

definition restored :: "memory \<Rightarrow> addr list \<Rightarrow> int \<Rightarrow> memory \<Rightarrow> bool" where
  "restored m os delta m' \<longleftrightarrow> (\<forall>a\<in>set os. hdr m' (a + delta) = hdr m a \<and>
     (\<forall>i. is_field m a i \<longrightarrow> load m' (a + delta + i) = relocate delta (load m (a + i))) \<and>
     (\<not> dvec m a \<longrightarrow> (\<forall>i. 0 \<le> i \<and> i < span m a \<longrightarrow> m' (a + delta + i) = m (a + i))))"

lemma wf_image_row:
  assumes "wf_image m b e os"
  shows "row m (\<lambda>a. a) b os e" "\<forall>a\<in>set os. HEADERP (hdr m a)" "\<forall>a\<in>set os. 4 dvd a"
    "\<forall>a\<in>set os. dvec m a \<longrightarrow> 4 dvd uint (header_length (hdr m a))"
    "\<forall>a\<in>set os. 0 \<le> a \<and> b < a \<and> a \<le> e" "4 dvd e" "b \<le> e"
proof -
  from assms have ob: "heap_objects m b e = Some os" and b: "4 dvd b" "0 \<le> b" by (simp_all add: wf_image_def)
  from heap_objects_row [OF ob] show r: "row m (\<lambda>a. a) b os e" and "\<forall>a\<in>set os. HEADERP (hdr m a)" by simp_all
  show "\<forall>a\<in>set os. 4 dvd a" "4 dvd e" using row_dvd [OF r b(1)] by simp_all
  show "\<forall>a\<in>set os. dvec m a \<longrightarrow> 4 dvd uint (header_length (hdr m a))" using assms by (simp add: wf_image_def)
  show "\<forall>a\<in>set os. 0 \<le> a \<and> b < a \<and> a \<le> e"
    using row_bounds [OF r] span_nonneg [of m] b(2) by (smt (verit, best))
  show "b \<le> e" by (rule row_le [OF r])
qed

subsection \<open>The bytes of a row\<close>

lemma row_covers:
  "row m (\<lambda>a. a) b os e \<Longrightarrow> b \<le> x \<Longrightarrow> x < e \<Longrightarrow> \<exists>a\<in>set os. a - 4 \<le> x \<and> x < a + span m a"
proof (induction os arbitrary: b)
  case (Cons a os)
  then show ?case by (cases "x < a + span m a") auto
qed simp

lemma row_bytes:
  assumes row: "row m (\<lambda>a. a) b os e"
    and same: "\<And>a. a \<in> set os \<Longrightarrow> hdr m' a = hdr m a"
      "\<And>a i. a \<in> set os \<Longrightarrow> is_field m a i \<Longrightarrow> load m' (a + i) = load m (a + i)"
      "\<And>a i. a \<in> set os \<Longrightarrow> \<not> dvec m a \<Longrightarrow> 0 \<le> i \<Longrightarrow> i < span m a \<Longrightarrow> m' (a + i) = m (a + i)"
    and x: "b \<le> x" "x < e"
  shows "m' x = m x"
proof -
  from row_covers [OF row x] obtain a where a: "a \<in> set os" "a - 4 \<le> x" "x < a + span m a" by blast
  show ?thesis
  proof (cases "x < a")
    case True
    have "m' (a + (- 4) + (x - a + 4)) = m (a + (- 4) + (x - a + 4))"
      using same(1) [OF a(1)] a True by (intro load_inj_byte) (simp_all add: hdr_def)
    then show ?thesis by simp
  next
    case xa: False
    show ?thesis
    proof (cases "dvec m a")
      case True
      define i where "i = (x - a) div 4 * 4"
      have i: "i \<le> x - a" "x - a < i + 4" "4 dvd i" "0 \<le> i"
        unfolding i_def using xa by (simp_all add: pos_imp_zdiv_nonneg_iff)
      have "is_field m a i" using True i a(3) by (simp add: is_field_def)
      then have "m' (a + i + (x - a - i)) = m (a + i + (x - a - i))"
        using same(2) [OF a(1)] i by (intro load_inj_byte) simp_all
      then show ?thesis by simp
    next
      case False
      then show ?thesis using same(3) [OF a(1) False, of "x - a"] a xa by simp
    qed
  qed
qed

end
