(* ===== verification/Image_Restore.thy ===== *)
theory Image_Restore
  imports Image_Cells
begin

text \<open>
  What reading an image does: from the bytes of a well-formed image, in either byte order,
  \<open>read_image\<close> builds a well-formed heap that holds the objects of the image, moved.
\<close>

subsection \<open>The image at its new place\<close>

definition shift :: "int \<Rightarrow> memory \<Rightarrow> memory" where
  "shift d m = (\<lambda>x. m (x - d))"

lemma load_shift [simp]: "load (shift d m) (a + d) = load m a"
  by (rule load_cong) (simp add: shift_def)

lemma hdr_shift [simp]: "hdr (shift d m) (a + d) = hdr m a"
  unfolding hdr_def by (rule load_cong) (simp add: shift_def algebra_simps)

lemma span_shift [simp]:
  "span (shift d m) (a + d) = span m a" "dvec (shift d m) (a + d) = dvec m a"
  "is_field (shift d m) (a + d) i = is_field m a i"
  by (simp_all add: span_def dvec_def is_field_def)

lemma row_shift:
  "row m (\<lambda>a. a) b os e \<Longrightarrow> row (shift d m) (\<lambda>a. a) (b + d) (map (\<lambda>a. a + d) os) (e + d)"
proof (induction os arbitrary: b)
  case (Cons a os)
  have "row m (\<lambda>a. a) (b + 4 + span m a) os e" by (rule conjunct2 [OF iffD1 [OF row.simps(2) Cons.prems]])
  from Cons.IH [OF this] have "row (shift d m) (\<lambda>a. a) (b + d + 4 + span m a) (map (\<lambda>a. a + d) os) (e + d)"
    by (simp add: ac_simps)
  moreover have "a + d = b + d + 4" using Cons.prems by simp
  ultimately show ?case unfolding list.map row.simps span_shift by blast
qed simp

text \<open>A memory with the image at its new place, byte for byte.\<close>

definition placed :: "memory \<Rightarrow> addr \<Rightarrow> addr \<Rightarrow> int \<Rightarrow> memory \<Rightarrow> bool" where
  "placed m b e d m' \<longleftrightarrow> (\<forall>x. b \<le> x \<and> x < e \<longrightarrow> m' (x + d) = m x)"

lemma placed_load: "placed m b e d m' \<Longrightarrow> b \<le> x \<Longrightarrow> x + 4 \<le> e \<Longrightarrow> load m' (x + d) = load m x"
proof (rule load_cong)
  fix i :: int assume "placed m b e d m'" "b \<le> x" "x + 4 \<le> e" "0 \<le> i" "i < 4"
  then have "m' (x + i + d) = m (x + i)" by (simp add: placed_def)
  then show "m' (x + d + i) = m (x + i)" by (simp add: ac_simps)
qed

lemma placed_object:
  assumes "placed m b e d m'" "row mT (\<lambda>a. a) b os e" "a \<in> set os"
  shows "hdr m' (a + d) = hdr m a"
    and "is_field mT a i \<Longrightarrow> load m' (a + d + i) = load m (a + i)"
    and "0 \<le> i \<Longrightarrow> i < span mT a \<Longrightarrow> m' (a + d + i) = m (a + i)"
proof -
  note rb = row_bounds [OF assms(2,3)] and sp = span_nonneg [of mT a]
  have "load m' (a - 4 + d) = load m (a - 4)"
    using rb sp by (intro placed_load [OF assms(1)]) linarith+
  then show "hdr m' (a + d) = hdr m a" by (simp add: hdr_def algebra_simps)
  show "load m' (a + d + i) = load m (a + i)" if "is_field mT a i"
    using placed_load [OF assms(1), of "a + i"] rb is_fieldD [OF that] by (simp add: algebra_simps)
  show "m' (a + d + i) = m (a + i)" if "0 \<le> i" "i < span mT a"
    using assms(1) rb that by (auto simp: placed_def algebra_simps dest: spec [of _ "a + i"])
qed

subsection \<open>Correcting the byte order\<close>

lemma reverse_restores:
  assumes wf: "wf_image m b e os" and f: "foreign m m0 os" and pl: "placed m0 b e d m1"
  shows "placed m b e d (reverse_cells (b + d) (e + d) m1)"
proof -
  let ?mT = "shift d m" and ?os = "map (\<lambda>a. a + d) os"
  note r = wf_image_row [OF wf]
  note po = placed_object [OF pl r(1)]
  have row: "row ?mT (\<lambda>a. a) (b + d) ?os (e + d)" by (rule row_shift [OF r(1)])
  have nh: "\<not> HEADERP (load m (a + i))" if "a \<in> set os" "is_field m a i" for a i
    using wf that by (simp add: wf_image_def field_offsets_iff)
  have fo: "hdr m0 a = bswap (hdr m a)" "is_field m a i \<Longrightarrow> load m0 (a + i) = bswap (load m (a + i))"
    "\<not> dvec m a \<Longrightarrow> 0 \<le> i \<Longrightarrow> i < span m a \<Longrightarrow> m0 (a + i) = m (a + i)" if "a \<in> set os" for a i
    using f that by (simp_all add: foreign_def field_offsets_iff)
  have "passable bswap ?mT m1 ?os"
    using po fo nh by (auto simp: passable_def)
  from reversal.pass_row [OF row _ _ this] r(2,4)
  have p: "passed bswap ?mT m1 (reverse_cells (b + d) (e + d) m1) ?os" by simp
  show ?thesis
    unfolding placed_def
  proof (intro allI impI)
    fix x assume x: "b \<le> x \<and> x < e"
    have "reverse_cells (b + d) (e + d) m1 (x + d) = ?mT (x + d)"
    proof (rule row_bytes [OF row])
      fix a' assume "a' \<in> set ?os"
      then obtain a where a: "a \<in> set os" "a' = a + d" by auto
      show "hdr (reverse_cells (b + d) (e + d) m1) a' = hdr ?mT a'"
        using p a by (simp add: passed_def)
      fix i
      show "load (reverse_cells (b + d) (e + d) m1) (a' + i) = load ?mT (a' + i)" if i: "is_field ?mT a' i"
      proof -
        have fi: "is_field m a i" using i a(2) by simp
        have "load (reverse_cells (b + d) (e + d) m1) (a' + i) = bswap (load m1 (a' + i))"
          using p a i by (simp add: passed_def)
        also have "\<dots> = load m (a + i)" using po(2) [OF a(1) fi] fo(2) [OF a(1) fi] a(2) by simp
        also have "\<dots> = load ?mT (a + i + d)" by simp
        finally show ?thesis using a(2) by (simp add: algebra_simps)
      qed
      show "reverse_cells (b + d) (e + d) m1 (a' + i) = ?mT (a' + i)"
        if "\<not> dvec ?mT a'" "0 \<le> i" "i < span ?mT a'"
      proof -
        have "reverse_cells (b + d) (e + d) m1 (a' + i) = m1 (a' + i)"
          using p a that by (simp add: passed_def)
        also have "\<dots> = m (a + i)" using po(3) [OF a(1)] fo(3) [OF a(1)] a(2) that by simp
        finally show ?thesis using a(2) by (simp add: shift_def)
      qed
    qed (use x in simp_all)
    then show "reverse_cells (b + d) (e + d) m1 (x + d) = m x" by (simp add: shift_def)
  qed
qed

subsection \<open>Relocating\<close>

lemma relocate_not_stob [simp]: "\<not> STOBP v \<Longrightarrow> relocate d v = v"
  by (simp add: relocate_def)

lemma relocate_header [simp]: "HEADERP v \<Longrightarrow> relocate d v = v"
  using stob_not_header by (simp add: relocate_def)

lemma relocate_zero [simp]: "relocate 0 v = v"
  by (simp add: relocate_def)

lemma relocate_STOBP:
  assumes "4 dvd d" "STOBP v"
  shows "STOBP (relocate d v)" "\<not> HEADERP (relocate d v)"
proof -
  have "4 dvd ADDRESS_AFTER_HEADER v + d" using ADDRESS_aligned [OF assms(2)] assms(1) by (rule dvd_add)
  then show "STOBP (relocate d v)" using assms(2) by (simp add: relocate_def)
  then show "\<not> HEADERP (relocate d v)" by (rule stob_not_header(1))
qed

lemma relocate_restores:
  assumes wf: "wf_image m b e os" and pl: "placed m b e d m1" and d: "4 dvd d"
  shows "restored m os d (relocate_cells (b + d) (e + d) d m1)"
proof -
  let ?mT = "shift d m" and ?os = "map (\<lambda>a. a + d) os"
  note r = wf_image_row [OF wf]
  note po = placed_object [OF pl r(1)]
  have row: "row ?mT (\<lambda>a. a) (b + d) ?os (e + d)" by (rule row_shift [OF r(1)])
  have nh: "\<not> HEADERP (relocate d (load m (a + i)))" if "a \<in> set os" "is_field m a i" for a i
  proof -
    have "\<not> HEADERP (load m (a + i))" using wf that by (simp add: wf_image_def field_offsets_iff)
    then show ?thesis using relocate_STOBP(2) [OF d] by (cases "STOBP (load m (a + i))") simp_all
  qed
  have "passable (relocate d) ?mT m1 ?os"
    using po(1,2) nh r(2) by (auto simp: passable_def)
  from relocation.pass_row [OF row _ _ this] r(2,4)
  have p: "passed (relocate d) ?mT m1 (relocate_cells (b + d) (e + d) d m1) ?os" by simp
  then show ?thesis using po by (auto simp: passed_def restored_def)
qed

lemma placed_restored:
  assumes wf: "wf_image m b e os" and pl: "placed m b e 0 m1"
  shows "restored m os 0 m1"
  using placed_object [OF pl wf_image_row(1) [OF wf]] by (simp add: restored_def)

subsection \<open>The heap after reading\<close>

lemma restored_wf:
  assumes wf: "wf_image m b e os" and r: "restored m os d (mem h)"
    and sp: "wf_spaces h" and b: "newspace_begin h = b + d" and e: "hp h = e + d"
  shows "wf_heap h (map (\<lambda>a. a + d) os)"
    and "STOBP v \<longrightarrow> ADDRESS_AFTER_HEADER v \<in> set os \<Longrightarrow> \<not> HEADERP v \<Longrightarrow>
      wf_value h (map (\<lambda>a. a + d) os) (relocate d v)"
proof -
  note w = wf_image_row [OF wf]
  let ?os = "map (\<lambda>a. a + d) os"
  have d: "4 dvd d"
  proof -
    have "4 dvd b + d" using sp b by (simp add: wf_spaces_def)
    moreover have "4 dvd b" using wf by (simp add: wf_image_def)
    ultimately show ?thesis by (simp add: dvd_add_right_iff)
  qed
  have hd: "hdr (mem h) (a + d) = hdr m a" if "a \<in> set os" for a
    using r that by (simp add: restored_def)
  then have sd: "span (mem h) (a + d) = span m a" "dvec (mem h) (a + d) = dvec m a"
    "is_field (mem h) (a + d) i = is_field m a i" if "a \<in> set os" for a i
    using that by (simp_all add: span_def dvec_def is_field_def)
  show val: "wf_value h ?os (relocate d v)"
    if v: "STOBP v \<longrightarrow> ADDRESS_AFTER_HEADER v \<in> set os" "\<not> HEADERP v" for v
  proof (cases "STOBP v")
    case True
    let ?a = "ADDRESS_AFTER_HEADER v + d"
    have in_os: "ADDRESS_AFTER_HEADER v \<in> set os" using v True by simp
    have a: "newspace_begin h < ?a" "?a \<le> hp h" "hp h < newspace_end h" "newspace_end h \<le> 4294967296"
      "0 \<le> newspace_begin h"
      using w(5) in_os sp b e by (auto simp: wf_spaces_def)
    then have "ADDRESS_AFTER_HEADER (relocate d v) = ?a"
      using True by (simp add: relocate_def)
    then show ?thesis
      using relocate_STOBP [OF d True] a in_os sp
      by (auto simp: wf_value_def in_oldspace_def in_newspace_def wf_spaces_def)
  next
    case False
    then show ?thesis using v by (simp add: wf_value_def)
  qed
  have "row m (\<lambda>a. a + d) (b + d) os (e + d)"
  proof -
    have "row (shift d m) (\<lambda>a. a) (b + d) ?os (e + d)" by (rule row_shift [OF w(1)])
    moreover have "row (shift d m) (\<lambda>a. a) c (map (\<lambda>a. a + d) xs) f = row m (\<lambda>a. a + d) c xs f" for c xs f
      by (induction xs arbitrary: c) simp_all
    ultimately show ?thesis by simp
  qed
  then have "heap_objects (mem h) (newspace_begin h) (hp h) = Some ?os"
    unfolding b e using hd sd w(2) by (intro row_heap_objects) auto
  moreover have "wf_value h ?os (load (mem h) (a + d + i))" if "a \<in> set os" "is_field m a i" for a i
  proof -
    have "load (mem h) (a + d + i) = relocate d (load m (a + i))"
      using r that by (simp add: restored_def)
    then show ?thesis using wf that val by (simp add: wf_image_def field_offsets_iff)
  qed
  ultimately show "wf_heap h ?os"
    using sp hd sd wf by (simp add: wf_heap_def wf_image_def field_offsets_iff)
qed

subsection \<open>Reading the blocks\<close>

lemma placed_store_bytes:
  assumes "b \<le> e"
  shows "placed m b e d (store_bytes m' (b + d) (load_bytes m b (nat (e - b))))"
  unfolding placed_def
proof (intro allI impI)
  fix x assume x: "b \<le> x \<and> x < e"
  then have "store_bytes m' (b + d) (load_bytes m b (nat (e - b))) (b + d + int (nat (x - b))) = m x"
    by (subst store_bytes_inside) (simp_all add: load_bytes_def)
  then show "store_bytes m' (b + d) (load_bytes m b (nat (e - b))) (x + d) = m x"
    using x by (simp add: algebra_simps)
qed

lemma read_to_heap_ok:
  assumes "input port = map Byte (bs @ rest)" "\<not> ferror_in port" "unat need = length bs"
  shows "read_to_heap need port h =
    (None, port\<lparr>input := map Byte rest\<rparr>, h\<lparr>mem := store_bytes (mem h) (hp h) bs\<rparr>)"
proof -
  have "ps_read_block (length bs) (load_bytes (mem h) (hp h) (length bs)) port =
      ((length bs, bs, False, 0), port\<lparr>input := map Byte rest\<rparr>)"
    using ps_read_block_ok [OF assms(1,2), of "load_bytes (mem h) (hp h) (length bs)" "length bs"] by simp
  moreover have "(word_of_nat (length bs) :: long) = need" unfolding assms(3) [symmetric] by simp
  ultimately show ?thesis by (simp add: read_to_heap_def assms(3) NO_ERRORS_def)
qed

text \<open>The marker in the two byte orders.\<close>

lemma markers:
  "load (store_bytes m a [1, 0, 0, 0]) a = 1"
  "load (store_bytes m a [0, 0, 0, 1]) a \<noteq> 1"
  "load (reverse_byte_order (store_bytes m a [0, 0, 0, 1]) a) a = 1"
  by (simp_all add: load_def reverse_byte_order_def Let_def)

lemma say_sel [simp]:
  "mem (say line h) = mem h" "hp (say line h) = hp h" "startup_proc (say line h) = startup_proc h"
  "newspace_begin (say line h) = newspace_begin h" "wf_spaces (say line h) = wf_spaces h"
  by (simp_all add: say_def wf_spaces_def)

text \<open>What the two passes leave of an image that has been placed.\<close>

lemma install_image_restores:
  assumes wf: "wf_image m b e os" and r: "if reverseP then foreign m m0 os else m0 = m"
    and pl: "placed m0 b e d (mem h)" and b: "hp h = b + d" and d: "4 dvd d"
    and i: "install_image reverseP d (e + d) h = (v, h')"
  shows "restored m os d (mem h')" "v = relocate d (startup_proc h)" "hp h' = e + d"
    "newspace_begin h' = newspace_begin h" "wf_spaces h' = wf_spaces (h\<lparr>hp := e + d\<rparr>)"
proof -
  define m1 where "m1 = (if reverseP then reverse_cells (b + d) (e + d) (mem h) else mem h)"
  define m2 where "m2 = (if d = 0 then m1 else relocate_cells (b + d) (e + d) d m1)"
  have pl1: "placed m b e d m1"
    using reverse_restores [OF wf _ pl] r pl by (auto simp: m1_def)
  have "restored m os d m2"
    using relocate_restores [OF wf pl1 d] placed_restored [OF wf] pl1 by (auto simp: m2_def)
  moreover have "mem h' = m2"
    using i b unfolding install_image_def Let_def m2_def m1_def by (cases reverseP; cases "d = 0") force+
  ultimately show "restored m os d (mem h')" by simp
  show "v = relocate d (startup_proc h)" "hp h' = e + d"
    "newspace_begin h' = newspace_begin h" "wf_spaces h' = wf_spaces (h\<lparr>hp := e + d\<rparr>)"
    using i unfolding install_image_def Let_def
    by (cases reverseP; cases "d = 0"; force simp: wf_spaces_def say_def)+
qed

subsection \<open>Properties\<close>

lemma read_image_restores:
  assumes "wf_image m b e os" and "if reverseP then foreign m m0 os else m0 = m"
    and "input port = map Byte ((if reverseP then [0, 0, 0, 1] else [1, 0, 0, 0]) @ load_bytes m0 b (nat (e - b)))"
    and "\<not> ferror_in port" and "ps_close (fclose 0) = NO_ERRORS"
    and "wf_spaces h" and "hp h = newspace_begin h" and "old_begin h = b" and "old_hp h = e"
    and "newspace_begin h + (e - b) + sint space < newspace_end h" and "0 \<le> sint space" and "e - b < 2147483648"
    and "\<not> HEADERP (startup_proc h)"
    and "STOBP (startup_proc h) \<longrightarrow> ADDRESS_AFTER_HEADER (startup_proc h) \<in> set os"
  shows "\<exists>h'. read_image strerror fclose port space h = (relocate (newspace_begin h - b) (startup_proc h), h') \<and>
     restored m os (newspace_begin h - b) (mem h') \<and> hp h' = newspace_begin h + (e - b) \<and>
     wf_heap h' (map (\<lambda>a. a + (newspace_begin h - b)) os) \<and>
     wf_value h' (map (\<lambda>a. a + (newspace_begin h - b)) os) (relocate (newspace_begin h - b) (startup_proc h))"
proof -
  let ?d = "newspace_begin h - b" and ?n = "nat (e - b)" and ?bs = "load_bytes m0 b (nat (e - b))"
  note w = wf_image_row [OF assms(1)]
  define mark :: "byte list" where "mark = (if reverseP then [0, 0, 0, 1] else [1, 0, 0, 0])"
  define m1 where "m1 = store_bytes (mem h) (hp h) mark"
  define m2 where "m2 = (if reverseP then reverse_byte_order m1 (hp h) else m1)"
  define h1 where "h1 = h\<lparr>mem := store_bytes m2 (hp h) ?bs\<rparr>"
  define port1 where "port1 = port\<lparr>input := map Byte ?bs\<rparr>"
  have "unat (4 :: long) = length mark" by (simp add: mark_def)
  with assms(3,4) have rd1: "read_to_heap 4 port h = (None, port1, h\<lparr>mem := m1\<rparr>)"
    by (subst read_to_heap_ok [where bs = mark and rest = ?bs]) (simp_all add: mark_def m1_def port1_def)
  have "read_image strerror fclose port space h = read_objects strerror fclose port1 reverseP space (h\<lparr>mem := m2\<rparr>)"
    using markers [of "mem h" "hp h"] unfolding read_image_def rd1 Let_def
    by (cases reverseP) (simp_all add: m1_def m2_def mark_def)
  moreover
  have un: "unat (word_of_int (old_hp h - old_begin h) :: long) = length ?bs"
    using uint_word_of_int_id [of "e - b"] assms(8,9,12) w(7)
    by (simp only: nat_uint_eq [symmetric] length_load_bytes)
  have rd2: "read_to_heap (word_of_int (old_hp h - old_begin h)) port1 (h\<lparr>mem := m2\<rparr>) =
      (None, port1\<lparr>input := map Byte []\<rparr>, h1)"
    using assms(4) by (subst read_to_heap_ok [OF _ _ un, where rest = "[]"]) (simp_all add: port1_def h1_def)
  obtain port2 where rc: "PS_READ_CHAR (port1\<lparr>input := map Byte []\<rparr>) = ((0, True, 0), port2)"
    by (rule PS_READ_CHAR_eof [of "port1\<lparr>input := map Byte []\<rparr>"]) (use assms(4) in \<open>simp_all add: port1_def holds_def\<close>)
  have room: "old_hp h + (hp h - old_begin h) + sint space < newspace_end h"
    using assms(7-10) by simp
  have "read_objects strerror fclose port1 reverseP space (h\<lparr>mem := m2\<rparr>) = install_image reverseP ?d (e + ?d) h1"
    using room assms(5,7-9) rd2 rc unfolding read_objects_def Let_def
    by (simp add: NO_ERRORS_def)
  ultimately have ri: "read_image strerror fclose port space h = install_image reverseP ?d (e + ?d) h1" by simp
  obtain v h' where ins: "install_image reverseP ?d (e + ?d) h1 = (v, h')"
    by (cases "install_image reverseP ?d (e + ?d) h1")
  have pl: "placed m0 b e ?d (mem h1)"
    using placed_store_bytes [OF w(7), of m0 ?d m2] assms(7) by (simp add: h1_def)
  have d: "4 dvd ?d" using assms(1,6) by (simp add: wf_image_def wf_spaces_def)
  note I = install_image_restores [OF assms(1,2) pl _ d ins]
  have hp1: "hp h1 = b + ?d" using assms(7) by (simp add: h1_def)
  have sp: "wf_spaces h'"
    using I(5) [OF hp1] assms(6,10,11) by (simp add: h1_def wf_spaces_def)
  have nb: "newspace_begin h' = b + ?d" using I(4) [OF hp1] by (simp add: h1_def)
  note R = restored_wf [OF assms(1) I(1) [OF hp1] sp nb I(3) [OF hp1]]
  have v: "v = relocate ?d (startup_proc h)" using I(2) [OF hp1] by (simp add: h1_def)
  show ?thesis
    using ri ins v I(1,3) [OF hp1] R(1) R(2) [OF assms(14,13)]
    by (intro exI [of _ h']) simp
qed

text \<open>
  Property C6. Reading an image: let a stream hold the marker and the bytes of a well-formed
  image, both in the byte order of this machine or both in the other, and let the image fit
  in the heap with the space asked for; then \<open>read_image\<close> returns the start-up procedure's
  new descriptor, and the heap is well formed and holds exactly the objects of the image,
  every header and byte vector as it was and every descriptor moved with its object.
\<close>

theorem read_image_correct:
  assumes "wf_image m b e os" and "if reverseP then foreign m m0 os else m0 = m"
    and "input port = map Byte ((if reverseP then [0, 0, 0, 1] else [1, 0, 0, 0]) @ load_bytes m0 b (nat (e - b)))"
    and "\<not> ferror_in port" and "ps_close (fclose 0) = NO_ERRORS"
    and "wf_spaces h" and "hp h = newspace_begin h" and "old_begin h = b" and "old_hp h = e"
    and "newspace_begin h + (e - b) + sint space < newspace_end h" and "0 \<le> sint space" and "e - b < 2147483648"
    and "\<not> HEADERP (startup_proc h)"
    and "STOBP (startup_proc h) \<longrightarrow> ADDRESS_AFTER_HEADER (startup_proc h) \<in> set os"
  shows "\<exists>h'. read_image strerror fclose port space h = (relocate (newspace_begin h - b) (startup_proc h), h') \<and>
     restored m os (newspace_begin h - b) (mem h') \<and> hp h' = newspace_begin h + (e - b) \<and>
     wf_heap h' (map (\<lambda>a. a + (newspace_begin h - b)) os) \<and>
     wf_value h' (map (\<lambda>a. a + (newspace_begin h - b)) os) (relocate (newspace_begin h - b) (startup_proc h))"
  using assms by (rule read_image_restores)

text \<open>
  An image of the demonstration heap written by a machine with the other byte order, to be
  read to a heap of 64 bytes at 256: every cell but that of the string is reversed.
\<close>

definition foreign_memory :: memory where
  "foreign_memory = store (store (store (store (store (store (store (store (\<lambda>_. 0)
     64 (bswap 2050)) 68 (bswap 12)) 72 (bswap 83)) 76 (bswap 846)) 80 25185)
     84 (bswap 2050)) 88 (bswap 71)) 92 (bswap 25)"

definition target_heap :: heap where
  "target_heap = demo_heap\<lparr>newspace_begin := 256, newspace_end := 320, oldspace_begin := 320,
     oldspace_end := 384, hp := 256, limit := 320, old_begin := 64, old_hp := 96, startup_proc := 71\<rparr>"

lemma demo_image: "wf_image demo_memory 64 96 [68, 80, 88]"
  by code_simp

lemma foreign_demo: "foreign demo_memory foreign_memory [68, 80, 88]"
proof -
  have "\<forall>a\<in>set [68, 80, 88]. hdr foreign_memory a = bswap (hdr demo_memory a) \<and>
      (\<forall>i\<in>set (field_offsets demo_memory a). load foreign_memory (a + i) = bswap (load demo_memory (a + i)))"
    by code_simp
  moreover have "dvec demo_memory 68" "dvec demo_memory 88" "span demo_memory 80 = 4" by code_simp+
  moreover have "foreign_memory (80 + i) = demo_memory (80 + i)" if "0 \<le> i" "i < 4" for i
  proof -
    from that consider "i = 0" | "i = 1" | "i = 2" | "i = 3" by linarith
    then show ?thesis by cases (simp_all add: foreign_memory_def demo_memory_def store_def)
  qed
  ultimately show ?thesis by (auto simp: foreign_def)
qed

theorem read_image_correct_witness:
  "\<exists>h'. read_image (\<lambda>_. []) (\<lambda>_. (0, 0))
       \<lparr>input = map Byte ([0, 0, 0, 1] @ load_bytes foreign_memory 64 32), ferror_in = False, feof_in = False, errno_in = 0\<rparr>
       8 target_heap = (263, h') \<and> wf_heap h' [260, 272, 280]"
proof -
  let ?s = "\<lparr>input = map Byte ([0, 0, 0, 1] @ load_bytes foreign_memory 64 32), ferror_in = False, feof_in = False, errno_in = 0\<rparr>"
  have rev: "if True then foreign demo_memory foreign_memory [68, 80, 88] else foreign_memory = demo_memory"
    using foreign_demo by simp
  have s: "input ?s = map Byte ((if True then [0, 0, 0, 1] else [1, 0, 0, 0]) @ load_bytes foreign_memory 64 (nat (96 - 64)))"
    by simp
  have c: "ps_close ((\<lambda>_ :: nat. (0, 0)) 0) = NO_ERRORS" by (simp add: ps_close_def NO_ERRORS_def)
  have t: "wf_spaces target_heap" "\<not> HEADERP (startup_proc target_heap)" "relocate 192 71 = 263"
    "ADDRESS_AFTER_HEADER 71 = 68" by code_simp+
  from read_image_correct [where fclose = "\<lambda>_. (0, 0)" and space = 8 and strerror = "\<lambda>_. []",
      OF demo_image rev s _ c t(1)] t show ?thesis
    by (auto simp: target_heap_def)
qed

end
