(* ===== verification/Image_Roundtrip.thy ===== *)
theory Image_Roundtrip
  imports Image_Write Image_Restore
begin

text \<open>
  The header of an image is read back as it was written.
\<close>

subsection \<open>Writing the header\<close>

definition image_header :: "addr \<Rightarrow> addr \<Rightarrow> scheme_value \<Rightarrow> byte list" where
  "image_header b e proc = [10, 12, 10] @ version @ [10] @ decimal_long 4 @ [10] @
     decimal_long (sar 2 (word_of_int b)) @ [10] @ decimal_long (sar 2 (word_of_int e)) @ [10] @
     decimal_long proc @ [10, 12]"

definition wrote :: "ostream \<Rightarrow> byte list \<Rightarrow> int \<times> ostream \<Rightarrow> bool" where
  "wrote port bs st \<longleftrightarrow> fst st = 0 \<and> plain_out (snd st) \<and> written (snd st) = written port @ bs"

lemma wrote_okay:
  "wrote port bs st \<Longrightarrow> writes w cs \<Longrightarrow> wrote port (bs @ cs) (if_okay w st)"
  by (fastforce simp: wrote_def writes_def if_okay_def NO_ERRORS_def)

lemma wrote_nothing: "plain_out port \<Longrightarrow> wrote port [] (NO_ERRORS, port)"
  by (simp add: wrote_def NO_ERRORS_def)

lemmas writing = wrote_okay writes_char writes_string writes_integer writes_block

lemma write_image_header_writes:
  assumes "plain_out port"
  shows "wrote port (image_header (newspace_begin h) (hp h) proc) (write_image_header h proc port)"
proof -
  have "wrote port ([] @ [10] @ [12] @ [10] @ version @ [10] @ decimal_long 4 @ [10] @
      decimal_long (sar 2 (word_of_int (newspace_begin h))) @ [10] @
      decimal_long (sar 2 (word_of_int (hp h))) @ [10] @ decimal_long proc @ [10] @ [12])
      (write_image_header h proc port)"
    unfolding write_image_header_def Let_def append_assoc [symmetric]
    by (intro writing wrote_nothing assms)
  then show ?thesis by (simp add: image_header_def)
qed

subsection \<open>Reading it\<close>

lemma read_until_holds:
  "holds s (front @ stop # rest) \<Longrightarrow> stop \<notin> set front \<Longrightarrow>
     \<exists>s'. read_until stop s = ((False, 0), s') \<and> holds s' rest"
proof (induction front arbitrary: s)
  case Nil
  then obtain s' where "PS_READ_CHAR s = ((stop, False, 0), s')" "holds s' rest"
    using PS_READ_CHAR_holds [of s stop rest] by auto
  then show ?case by (subst read_until.simps) (simp add: NO_ERRORS_def)
next
  case (Cons b front)
  then obtain s' where s': "PS_READ_CHAR s = ((b, False, 0), s')" "holds s' (front @ stop # rest)"
    using PS_READ_CHAR_holds [of s b "front @ stop # rest"] by auto
  with Cons show ?case by (subst read_until.simps) (simp add: NO_ERRORS_def)
qed

lemma read_version_holds:
  "holds s (drop i version @ 10 # rest) \<Longrightarrow> i \<le> length version \<Longrightarrow>
     \<exists>s'. read_version i s = ((True, False, 0), s') \<and> holds s' rest"
proof (induction "length version - i" arbitrary: i s)
  case 0
  then have "i = length version" by simp
  with 0(2) obtain s' where "PS_READ_CHAR s = ((10, False, 0), s')" "holds s' rest"
    using PS_READ_CHAR_holds [of s 10 rest] by auto
  then show ?case using \<open>i = length version\<close> by (subst read_version.simps) (simp add: NO_ERRORS_def)
next
  case (Suc n)
  then have i: "i < length version" by simp
  then have "drop i version @ 10 # rest = version ! i # (drop (Suc i) version @ 10 # rest)"
    by (simp add: Cons_nth_drop_Suc)
  with Suc.prems(1) obtain s' where s': "PS_READ_CHAR s = ((version ! i, False, 0), s')"
      "holds s' (drop (Suc i) version @ 10 # rest)"
    by (metis PS_READ_CHAR_holds)
  then show ?case using Suc.hyps(1) [of "Suc i" s'] Suc.hyps(2) i
    by (subst read_version.simps) (simp add: NO_ERRORS_def)
qed

lemma skip_to_holds:
  assumes "holds s (front @ stop # rest)" "stop \<notin> set front" "\<not> eofP h" "status h = 0"
  obtains s' where "skip_to stop s h = (s', h)" "holds s' rest"
  using read_until_holds [OF assms(1,2)] assms(3,4) by (auto simp: skip_to_def noted_def)

lemma check_version_holds:
  assumes "holds s (version @ 10 # rest)" "\<not> eofP h" "status h = 0"
  obtains s' where "check_version s h = (True, s', h)" "holds s' rest"
  using read_version_holds [of s 0 rest] assms by (auto simp: check_version_def noted_def)

lemma read_entry_holds:
  assumes "holds s (ws @ decimal_long n @ 10 # rest)" "list_all white ws" "\<not> eofP h" "status h = 0"
  obtains s' where "read_entry s h = (n, s', h)" "holds s' (10 # rest)"
proof -
  obtain s' where "ps_read_integer s = ((n, False, 0), s')" "holds s' (10 # rest)"
    by (rule read_integer_holds [OF assms(1,2)]) (simp add: digit_def)
  then show ?thesis using assms(3,4) that by (simp add: read_entry_def noted_def)
qed

lemma cells_of_address:
  assumes "4 dvd a" "0 \<le> a" "a < 4294967296"
  shows "uint (push_bit 2 (sar 2 (word_of_int a :: long))) = a"
proof -
  have "push_bit 2 (sar 2 w) = w" if "uint w mod 4 = 0" for w :: long
  proof -
    have "uint w mod 2 = 0" "uint w div 2 mod 2 = 0" using that by presburger+
    then have "\<not> bit (uint w) 0" "\<not> bit (uint w) 1" by (simp_all add: bit_iff_odd even_iff_mod_2_eq_zero)
    then have "\<not> bit w 0" "\<not> bit w 1" by (simp_all only: bit_uint_iff) simp_all
    then have "bit (push_bit 2 (sar 2 w)) n = bit w n" if "n < 32" for n
    proof -
      consider "n = 0" | "n = 1" | k where "n = k + 2" using le_Suc_ex [of 2 n] by fastforce
      then show ?thesis using \<open>\<not> bit w 0\<close> \<open>\<not> bit w 1\<close> that by cases (auto simp: bit_simps)
    qed
    then show ?thesis by (intro bit_word_eqI) simp
  qed
  moreover have "uint (word_of_int a :: long) = a" using assms by (simp add: uint_word_of_int_id)
  ultimately show ?thesis using assms(1) by (simp add: dvd_eq_mod_eq_0)
qed

text \<open>
  What reading makes of a header, after anything without a form feed: the fields of the state
  it sets, and what is left in the stream.
\<close>

lemma read_header_holds:
  assumes s: "holds s (front @ image_header b e proc @ rest)" and front: "12 \<notin> set front"
    and b: "4 dvd b" "0 \<le> b" "b < 4294967296" and e: "4 dvd e" "0 \<le> e" "e < 4294967296"
    and h: "\<not> eofP h" "status h = 0"
  obtains s' where "read_header s h = ((True, 4), s', h\<lparr>old_begin := b, old_hp := e, startup_proc := proc\<rparr>)"
    "holds s' rest"
proof -
  have "holds s ((front @ [10]) @ 12 # ([] @ 10 # (version @ 10 # ([] @ decimal_long 4 @ 10 #
      (decimal_long (sar 2 (word_of_int b)) @ 10 # decimal_long (sar 2 (word_of_int e)) @ 10 #
       decimal_long proc @ 10 # 12 # rest)))))"
    using s by (simp add: image_header_def)
  then obtain s1 where s1: "skip_to 12 s h = (s1, h)" "holds s1 ([] @ 10 # (version @ 10 # ([] @ decimal_long 4 @ 10 #
      (decimal_long (sar 2 (word_of_int b)) @ 10 # decimal_long (sar 2 (word_of_int e)) @ 10 #
       decimal_long proc @ 10 # 12 # rest))))"
    by (rule skip_to_holds) (use front h in simp_all)
  obtain s2 where s2: "skip_to 10 s1 h = (s2, h)" "holds s2 (version @ 10 # ([] @ decimal_long 4 @ 10 #
      (decimal_long (sar 2 (word_of_int b)) @ 10 # decimal_long (sar 2 (word_of_int e)) @ 10 #
       decimal_long proc @ 10 # 12 # rest)))"
    by (rule skip_to_holds [OF s1(2)]) (use h in simp_all)
  obtain s3 where s3: "check_version s2 h = (True, s3, h)" "holds s3 ([] @ decimal_long 4 @ 10 #
      (decimal_long (sar 2 (word_of_int b)) @ 10 # decimal_long (sar 2 (word_of_int e)) @ 10 #
       decimal_long proc @ 10 # 12 # rest))"
    by (rule check_version_holds [OF s2(2)]) (use h in simp_all)
  obtain s4 where s4: "read_entry s3 h = (4, s4, h)" "holds s4 ([10] @ decimal_long (sar 2 (word_of_int b)) @ 10 #
      (decimal_long (sar 2 (word_of_int e)) @ 10 # decimal_long proc @ 10 # 12 # rest))"
    by (rule read_entry_holds [OF s3(2)]) (use h in simp_all)
  obtain s5 where s5: "read_entry s4 h = (sar 2 (word_of_int b), s5, h)"
      "holds s5 ([10] @ decimal_long (sar 2 (word_of_int e)) @ 10 # (decimal_long proc @ 10 # 12 # rest))"
    by (rule read_entry_holds [OF s4(2)]) (use h in \<open>simp_all add: white_def\<close>)
  let ?h5 = "h\<lparr>old_begin := b\<rparr>"
  obtain s6 where s6: "read_entry s5 ?h5 = (sar 2 (word_of_int e), s6, ?h5)"
      "holds s6 ([10] @ decimal_long proc @ 10 # (12 # rest))"
    by (rule read_entry_holds [OF s5(2), where h = ?h5]) (use h in \<open>simp_all add: white_def\<close>)
  let ?h6 = "?h5\<lparr>old_hp := e\<rparr>"
  obtain s7 where s7: "read_entry s6 ?h6 = (proc, s7, ?h6)" "holds s7 ([10] @ 12 # rest)"
    by (rule read_entry_holds [OF s6(2), where h = ?h6]) (use h in \<open>simp_all add: white_def\<close>)
  let ?h7 = "?h6\<lparr>startup_proc := proc\<rparr>"
  obtain s8 where s8: "skip_to 12 s7 ?h7 = (s8, ?h7)" "holds s8 rest"
    by (rule skip_to_holds [OF s7(2), where h = ?h7]) (use h in simp_all)
  have "read_header s h = ((True, 4), s8, ?h7)"
    unfolding read_header_def
    by (simp add: s1(1) s2(1) s3(1) s4(1) s5(1) s6(1) s7(1) s8(1) cells_of_address [OF b] cells_of_address [OF e])
  then show ?thesis using s8(2) by (rule that)
qed

end
