(* ===== verification/Image_Dump.thy ===== *)
theory Image_Dump
  imports Image_Roundtrip
begin

text \<open>
  What writing an image does: the program goes on with the heap it had, and the stream gets a
  header, the marker, and the bytes of a well-formed image that holds copies of exactly the
  objects the resumption procedure reaches, with the channels among them closed.
\<close>

subsection \<open>Copies and originals during the dump\<close>

text \<open>
  The objects \<open>L\<close> are copied along \<open>f\<close> to the idle space, up to \<open>e\<close>; the fields of the copies
  hold \<open>g\<close>.
\<close>

definition dump_state ::
    "heap \<Rightarrow> addr list \<Rightarrow> (addr \<Rightarrow> addr) \<Rightarrow> addr list \<Rightarrow> (addr \<Rightarrow> int \<Rightarrow> long) \<Rightarrow> addr \<Rightarrow> memory \<Rightarrow> bool" where
  "dump_state h os f L g e m \<longleftrightarrow>
     row (mem h) f (oldspace_begin h) L e \<and> distinct L \<and> set L \<subseteq> set os \<and> e < oldspace_end h \<and>
     inv_old (begin_collection h) (set os) f L m \<and>
     (\<forall>a\<in>set L. hdr m (f a) = hdr (mem h) a \<and>
        (\<not> dvec (mem h) a \<longrightarrow> (\<forall>i. 0 \<le> i \<and> i < uint (header_length (hdr (mem h) a)) \<longrightarrow>
           m (f a + i) = mem h (a + i))) \<and>
        (\<forall>i. is_field (mem h) a i \<longrightarrow> load m (f a + i) = g a i))"

definition forwarded :: "heap \<Rightarrow> (addr \<Rightarrow> addr) \<Rightarrow> addr \<Rightarrow> int \<Rightarrow> long" where
  "forwarded h f a i = fw (begin_collection h) f (load (mem h) (a + i))"

lemma dump_state_scanned:
  assumes wf: "wf_heap h os"
    and inv: "cheney_inv (begin_collection h) (set os) R f L (hp h2) (hp h2) h2"
  shows "dump_state h os f L (forwarded h f) (hp h2) (mem h2)"
proof -
  let ?h = "begin_collection h"
  from inv have L: "distinct L" "set L \<subseteq> set os" and row: "row (mem h) f (oldspace_begin h) L (hp h2)"
    and old: "inv_old ?h (set os) f L (mem h2)" and new: "inv_new ?h f L (hp h2) (mem h2)"
    by (simp_all add: cheney_inv_def)
  have "hp h2 < oldspace_end h"
    using row_total [OF wf_heap_collectable [OF wf] _ L] row by simp
  moreover have "f a + i < hp h2" if "a \<in> set L" "is_field (mem h) a i" for a i
    using row_bounds [OF row that(1)] is_fieldD [OF that(2)] by linarith
  ultimately show ?thesis
    using row L old new by (simp add: dump_state_def inv_new_def inv_field_def forwarded_def)
qed

lemma dump_state_objects:
  assumes "wf_heap h os" "a \<in> set os"
  shows "newspace_begin h + 4 \<le> a" "a + span (mem h) a \<le> hp h"
proof -
  from assms(1) have ob: "heap_objects (mem h) (newspace_begin h) (hp h) = Some os" by (simp add: wf_heap_def)
  from row_bounds [OF conjunct1 [OF heap_objects_row [OF ob]] assms(2)]
  show "newspace_begin h + 4 \<le> a" "a + span (mem h) a \<le> hp h" by simp_all
qed

text \<open>A cell of the idle space is none of the originals.\<close>

lemma idle_cell:
  assumes wf: "wf_heap h os" and a: "a \<in> set os"
    and x: "oldspace_begin h \<le> x" "x < oldspace_end h" "4 dvd x"
  shows "x + 4 \<le> a - 4 \<or> a + span (mem h) a \<le> x"
proof -
  note b = dump_state_objects [OF wf a] and sp = span_nonneg [of "mem h" a]
  have "hp h < newspace_end h" "4 dvd newspace_begin h"
    "newspace_end h \<le> oldspace_begin h \<or> oldspace_end h \<le> newspace_begin h"
    using wf by (auto simp: wf_heap_def wf_spaces_def)
  moreover have "x + 4 \<le> newspace_begin h" if "x < newspace_begin h" "4 dvd newspace_begin h"
    using that x(3) by presburger
  ultimately show ?thesis using b sp x by linarith
qed

lemma inv_old_idle_store:
  assumes wf: "wf_heap h os" and old: "inv_old (begin_collection h) (set os) f L m"
    and x: "oldspace_begin h \<le> x" "x < oldspace_end h" "4 dvd x"
  shows "inv_old (begin_collection h) (set os) f L (store m x v)"
  unfolding inv_old_def
proof (intro ballI conjI allI impI)
  fix a assume a: "a \<in> set os"
  note ap = idle_cell [OF wf a x] and sp = span_nonneg [of "mem h" a]
  have "hdr (store m x v) a = hdr m a"
    unfolding hdr_def using ap sp by (intro load_store_other) linarith
  then show "hdr (store m x v) a = (if a \<in> set L then stob_at (f a) else hdr (mem (begin_collection h)) a)"
    using old a by (simp add: inv_old_def)
  show "store m x v (a + i) = mem (begin_collection h) (a + i)" if "0 \<le> i \<and> i < span (mem (begin_collection h)) a" for i
    using old a ap that by (subst store_byte_other) (auto simp: inv_old_def)
qed

lemma dump_edit:
  assumes wf: "wf_heap h os" and d: "dump_state h os f L g e m" and a: "a \<in> set L" "is_field (mem h) a i"
  shows "dump_state h os f L (\<lambda>b j. if b = a \<and> j = i then v else g b j) e (store m (f a + i) v)"
proof -
  from d have row: "row (mem h) f (oldspace_begin h) L e" and L: "distinct L" "set L \<subseteq> set os"
    and e: "e < oldspace_end h" and old: "inv_old (begin_collection h) (set os) f L m"
    by (simp_all add: dump_state_def)
  have ob: "4 dvd oldspace_begin h" using wf by (simp add: wf_heap_def wf_spaces_def)
  note fi = is_fieldD [OF a(2)] and ra = row_bounds [OF row a(1)]
  let ?p = "f a + i" and ?m = "store m (f a + i) v"
  have p: "oldspace_begin h \<le> ?p" "?p < oldspace_end h" "4 dvd ?p"
    using fi ra e row_dvd [OF row ob] a(1) by auto
  have dis: "f b + span (mem h) b \<le> ?p \<or> ?p + 4 \<le> f b - 4" if "b \<in> set L" "b \<noteq> a" for b
    using row_apart [OF row L(1) that(1) a(1) that(2)] fi by linarith
  have "hdr ?m (f b) = hdr m (f b)" if "b \<in> set L" for b
  proof -
    have "f b \<le> ?p \<or> ?p + 4 \<le> f b - 4"
      using dis [OF that] fi span_nonneg [of "mem h" b] by (cases "b = a") force+
    then show ?thesis unfolding hdr_def by (intro load_store_other) linarith
  qed
  moreover have "?m (f b + j) = m (f b + j)"
    if "b \<in> set L" "\<not> dvec (mem h) b" "0 \<le> j" "j < uint (header_length (hdr (mem h) b))" for b j
  proof -
    have "b \<noteq> a" using a(2) that by (auto simp: is_field_def)
    from dis [OF that(1) this] that header_length_le_span [of "hdr (mem h) b"] show ?thesis
      by (intro store_byte_other) (auto simp: span_def)
  qed
  moreover have "load ?m (f b + j) = (if b = a \<and> j = i then v else load m (f b + j))"
    if "b \<in> set L" "is_field (mem h) b j" for b j
  proof (cases "b = a \<and> j = i")
    case False
    note fj = is_fieldD [OF that(2)]
    have "f b + j + 4 \<le> ?p \<or> ?p + 4 \<le> f b + j"
    proof (cases "b = a")
      case True
      with False dvd4_cases [of i j] fi fj show ?thesis by auto
    next
      case ba: False
      from dis [OF that(1) ba] fj show ?thesis by linarith
    qed
    then show ?thesis using False by (auto simp: load_store_other)
  qed simp
  ultimately show ?thesis
    using d inv_old_idle_store [OF wf old p] by (simp add: dump_state_def)
qed

subsection \<open>Closing the channels\<close>

lemma c_string_total: "m (a + int k) = 0 \<Longrightarrow> c_string m a \<noteq> None"
proof (induction k arbitrary: a)
  case 0
  then show ?case by (simp add: c_string_zero)
next
  case (Suc k)
  then have "c_string m (a + 1) \<noteq> None" by (simp add: add.assoc)
  then show ?case by (subst c_string.simps) auto
qed

text \<open>An entry of the table: none, or a channel object with a number or a string as its name.\<close>

definition channel_ok :: "heap \<Rightarrow> addr list \<Rightarrow> scheme_value \<Rightarrow> bool" where
  "channel_ok h os v \<longleftrightarrow> v = SCHFALSE \<or>
     (let a = ADDRESS_AFTER_HEADER v; d = load (mem h) (a + 4); s = ADDRESS_AFTER_HEADER d in
      a \<in> set os \<and> dvec (mem h) a \<and> 12 \<le> span (mem h) a \<and>
      (FIXNUMP d \<or> s \<in> set os \<and> (\<exists>k<nat (span (mem h) s). mem h (s + int k) = 0)))"

definition channels_at :: "(int \<Rightarrow> scheme_value) \<Rightarrow> int \<Rightarrow> addr set" where
  "channels_at ch n = (\<lambda>i. ADDRESS_AFTER_HEADER (ch i)) ` {i. 0 \<le> i \<and> i < n \<and> ch i \<noteq> SCHFALSE}"

definition closed :: "addr set \<Rightarrow> (addr \<Rightarrow> int \<Rightarrow> long) \<Rightarrow> addr \<Rightarrow> int \<Rightarrow> long" where
  "closed C g a i = (if a \<in> C \<and> i = 0 then 0 else if a \<in> C \<and> i = 8 then - 4 else g a i)"

lemma SCHFALSE_1: "SCHFALSE = 1"
  by (simp add: SCHFALSE_def MISC_IMMEDIATE_def)

text \<open>The parts of the state that closing channels keeps.\<close>

definition same_but_memory :: "heap \<Rightarrow> heap \<Rightarrow> bool" where
  "same_but_memory h h' \<longleftrightarrow> h'\<lparr>mem := mem h, messages := messages h\<rparr> = h"

lemma same_but_memoryD:
  assumes "same_but_memory h h'"
  shows "hp h' = hp h" "newspace_begin h' = newspace_begin h" "newspace_end h' = newspace_end h"
    "oldspace_begin h' = oldspace_begin h" "oldspace_end h' = oldspace_end h"
    "saved_hp h' = saved_hp h" "saved_limit h' = saved_limit h" "weak_pointer_hp h' = weak_pointer_hp h"
  using assms unfolding same_but_memory_def by (cases h; cases h'; simp)+

lemma same_but_memory_trans: "same_but_memory h1 h2 \<Longrightarrow> same_but_memory h2 h3 \<Longrightarrow> same_but_memory h1 h3"
  unfolding same_but_memory_def by (cases h1; cases h2; cases h3) simp

lemma dump_state_cong:
  "dump_state h os f L g e m \<Longrightarrow> (\<And>a i. a \<in> set L \<Longrightarrow> is_field (mem h) a i \<Longrightarrow> g a i = g' a i) \<Longrightarrow>
     dump_state h os f L g' e m"
  by (simp add: dump_state_def)

lemma close_traced_channel_step:
  assumes wf: "wf_heap h os" and d: "dump_state h os f L (closed C g) e (mem h1)" and c: "channel_ok h os v"
  shows "\<exists>h2. close_traced_channel v h1 = Some h2 \<and> same_but_memory h1 h2 \<and>
    dump_state h os f L (closed (if v = SCHFALSE then C else insert (ADDRESS_AFTER_HEADER v) C) g) e (mem h2)"
proof (cases "v = SCHFALSE")
  case True
  then show ?thesis using d by (simp add: close_traced_channel_def SCHFALSE_1 same_but_memory_def)
next
  case False
  let ?a = "ADDRESS_AFTER_HEADER v" and ?m = "mem h1"
  define dsc where "dsc = load (mem h) (?a + 4)"
  define s where "s = ADDRESS_AFTER_HEADER dsc"
  have a: "?a \<in> set os" "dvec (mem h) ?a" "12 \<le> span (mem h) ?a"
    and nm: "FIXNUMP dsc \<or> s \<in> set os \<and> (\<exists>k<nat (span (mem h) s). mem h (s + int k) = 0)"
    using c False by (auto simp: channel_ok_def Let_def dsc_def s_def)
  from d have old: "inv_old (begin_collection h) (set os) f L ?m"
    and row: "row (mem h) f (oldspace_begin h) L e" by (simp_all add: dump_state_def)
  have cont: "?m (b + i) = mem h (b + i)" if "b \<in> set os" "0 \<le> i" "i < span (mem h) b" for b i
    using old that by (simp add: inv_old_def)
  have "load ?m (?a + 4) = dsc"
    unfolding dsc_def using a(3) by (intro load_cong) (use cont [OF a(1), of "4 + _"] in \<open>simp add: add.assoc\<close>)
  moreover have "c_string ?m s \<noteq> None" if "\<not> FIXNUMP dsc"
  proof -
    from nm that obtain k where "s \<in> set os" "k < nat (span (mem h) s)" "mem h (s + int k) = 0" by blast
    then show ?thesis using cont [of s "int k"] by (intro c_string_total [of _ _ k]) simp
  qed
  ultimately obtain name where name: "channel_name ?m v = Some name"
    unfolding channel_name_def Let_def s_def by fastforce
  have hd: "load ?m (?a + (- 4)) = (if ?a \<in> set L then stob_at (f ?a) else hdr (mem h) ?a)"
    using old a(1) by (simp add: inv_old_def hdr_def)
  show ?thesis
  proof (cases "?a \<in> set L")
    case True
    have "4 dvd oldspace_begin h" using wf by (simp add: wf_heap_def wf_spaces_def)
    then have fa: "4 dvd f ?a" using row_dvd [OF row] True by blast
    have "0 \<le> f ?a" "f ?a < 4294967296"
      using row_bounds [OF row True] span_nonneg [of "mem h" ?a] d wf
      by (auto simp: dump_state_def wf_heap_def wf_spaces_def)
    then have adr: "ADDRESS_AFTER_HEADER (stob_at (f ?a)) = f ?a" by simp
    define h2 where "h2 = (say (''Channel closed in dumped image: '' @ name) h1)
      \<lparr>mem := store (store ?m (f ?a + 0) 0) (f ?a + 8) (- 4)\<rparr>"
    have "close_traced_channel v h1 = Some h2"
      using False hd True STOBP_stob_at [OF fa] adr name
      by (simp add: close_traced_channel_def SCHFALSE_1 h2_def)
    moreover have "same_but_memory h1 h2" by (simp add: same_but_memory_def h2_def say_def)
    moreover have f0: "is_field (mem h) ?a 0" "is_field (mem h) ?a 8" using a by (simp_all add: is_field_def)
    have "dump_state h os f L (closed (insert ?a C) g) e (store (store ?m (f ?a + 0) 0) (f ?a + 8) (- 4))"
      by (rule dump_state_cong [OF dump_edit [OF wf dump_edit [OF wf d True f0(1), of 0] True f0(2), of "- 4"]])
        (auto simp: closed_def)
    then have "dump_state h os f L (closed (insert ?a C) g) e (mem h2)" by (simp add: h2_def)
    ultimately show ?thesis using False by auto
  next
    case nL: False
    have "HEADERP (hdr (mem h) ?a)" using collectableD(5) [OF wf_heap_collectable [OF wf] a(1)] by simp
    then have "close_traced_channel v h1 = Some h1"
      using False hd nL stob_not_header by (auto simp: close_traced_channel_def SCHFALSE_1)
    moreover have "dump_state h os f L (closed (insert ?a C) g) e (mem h1)"
      using d nL by (intro dump_state_cong [OF d]) (auto simp: closed_def)
    ultimately show ?thesis using False by (auto simp: same_but_memory_def)
  qed
qed

lemma mark_traced_channels_from_dump:
  assumes wf: "wf_heap h os"
  shows "dump_state h os f L (closed (channels_at ch i) g) e (mem h1) \<Longrightarrow> 0 \<le> i \<Longrightarrow> i \<le> n \<Longrightarrow>
    (\<And>j. i \<le> j \<Longrightarrow> j < n \<Longrightarrow> channel_ok h os (ch j)) \<Longrightarrow>
    \<exists>h2. mark_traced_channels_from ch n i h1 = Some h2 \<and> same_but_memory h1 h2 \<and>
      dump_state h os f L (closed (channels_at ch n) g) e (mem h2)"
proof (induction "nat (n - i)" arbitrary: i h1)
  case 0
  then show ?case by (subst mark_traced_channels_from.simps) (simp add: same_but_memory_def)
next
  case (Suc k)
  then have i: "i < n" by simp
  have at: "channels_at ch (1 + i) =
      (if ch i = SCHFALSE then channels_at ch i else insert (ADDRESS_AFTER_HEADER (ch i)) (channels_at ch i))"
  proof -
    have "{j. 0 \<le> j \<and> j < 1 + i \<and> ch j \<noteq> SCHFALSE} = {j. 0 \<le> j \<and> j < i \<and> ch j \<noteq> SCHFALSE} \<union>
        (if ch i = SCHFALSE then {} else {i})"
      using Suc.prems(2) by (auto simp: add.commute [of 1] zless_add1_eq order.strict_iff_order)
    then show ?thesis unfolding channels_at_def by simp
  qed
  from close_traced_channel_step [OF wf Suc.prems(1) Suc.prems(4) [OF order_refl i]]
  obtain h2 where h2: "close_traced_channel (ch i) h1 = Some h2" "same_but_memory h1 h2"
    "dump_state h os f L (closed (channels_at ch (1 + i)) g) e (mem h2)" unfolding at by blast
  have k: "k = nat (n - (1 + i))" using Suc.hyps(2) by simp
  from Suc.hyps(1) [OF k h2(3)] Suc.prems i
  obtain h3 where h3: "mark_traced_channels_from ch n (1 + i) h2 = Some h3" "same_but_memory h2 h3"
    "dump_state h os f L (closed (channels_at ch n) g) e (mem h3)" by auto
  show ?case
    using h2 h3 i by (intro exI [of _ h3], subst mark_traced_channels_from.simps)
      (auto intro: same_but_memory_trans)
qed

subsection \<open>Going on with the old heap\<close>

lemma restore_headers_row:
  "row m0 (\<lambda>a. a) b os e \<Longrightarrow> (\<forall>a\<in>set os. HEADERP (hdr m0 a) \<and> 4 dvd a) \<Longrightarrow>
     (\<And>a. a \<in> set os \<Longrightarrow> hdr m a = (if a \<in> A then stob_at (f a) else hdr m0 a)) \<Longrightarrow>
     (\<And>a i. a \<in> set os \<Longrightarrow> 0 \<le> i \<Longrightarrow> i < span m0 a \<Longrightarrow> m (a + i) = m0 (a + i)) \<Longrightarrow>
     (\<And>a. a \<in> A \<Longrightarrow> 4 dvd f a \<and> 0 \<le> f a \<and> f a < 4294967296 \<and> (f a \<le> b \<or> e \<le> f a - 4) \<and> hdr m (f a) = hdr m0 a) \<Longrightarrow>
     (\<forall>x. x < b \<or> e \<le> x \<longrightarrow> restore_headers b e m x = m x) \<and>
     (\<forall>x. b \<le> x \<and> x < e \<longrightarrow> restore_headers b e m x = m0 x)"
proof (induction os arbitrary: b m)
  case Nil
  then have "b = e" by simp
  then show ?case by (auto simp: restore_headers.simps)
next
  case (Cons a os)
  let ?n = "span m0 a"
  have a: "a = b + 4" using Cons.prems(1) by simp
  have row: "row m0 (\<lambda>a. a) (b + 4 + ?n) os e" by (rule conjunct2 [OF iffD1 [OF row.simps(2) Cons.prems(1)]])
  note le = row_le [OF row] and sp = span_nonneg [of m0 a]
  have be: "b < e" using le sp by linarith
  have H: "HEADERP (hdr m0 a)" using Cons.prems(2) by simp
  have d: "load m b = (if a \<in> A then stob_at (f a) else hdr m0 a)"
    using Cons.prems(3) [of a] a by (simp add: hdr_def)
  define m1 where "m1 = store m b (hdr m0 a)"
  have step: "restore_headers b e m = restore_headers (b + 4 + ?n) e m1"
  proof (cases "a \<in> A")
    case True
    from Cons.prems(5) [OF True] have fa: "STOBP (stob_at (f a))" "ADDRESS_AFTER_HEADER (stob_at (f a)) = f a"
      "load m (f a + (- 4)) = hdr m0 a" by (auto simp: hdr_def)
    then show ?thesis
      using be d True stob_not_header(1) [OF fa(1)]
      by (subst restore_headers.simps) (simp add: Let_def m1_def span_def add.assoc)
  next
    case False
    then have "m1 = m" using d store_load_id [of m b] by (simp add: m1_def)
    then show ?thesis
      using be d False H by (subst restore_headers.simps) (simp add: Let_def span_def add.assoc)
  qed
  have out: "m1 x = m x" if "x < b \<or> b + 4 \<le> x" for x
    using that by (simp add: m1_def store_byte_other)
  have outw: "load m1 x = load m x" if "x + 4 \<le> b \<or> b + 4 \<le> x" for x
    using that by (intro load_cong out) auto
  have above: "b + 4 + ?n + 4 \<le> c" if "c \<in> set os" for c
    using row_bounds [OF row that] by simp
  have IH: "(\<forall>x. x < b + 4 + ?n \<or> e \<le> x \<longrightarrow> restore_headers (b + 4 + ?n) e m1 x = m1 x) \<and>
      (\<forall>x. b + 4 + ?n \<le> x \<and> x < e \<longrightarrow> restore_headers (b + 4 + ?n) e m1 x = m0 x)"
  proof (rule Cons.IH [OF row])
    show "\<forall>a\<in>set os. HEADERP (hdr m0 a) \<and> 4 dvd a" using Cons.prems(2) by simp
    fix c
    show "hdr m1 c = (if c \<in> A then stob_at (f c) else hdr m0 c)" if "c \<in> set os"
    proof -
      have "hdr m1 c = hdr m c" unfolding hdr_def using above [OF that] sp by (intro outw) linarith
      then show ?thesis using Cons.prems(3) [of c] that by simp
    qed
    show "m1 (c + i) = m0 (c + i)" if "c \<in> set os" "0 \<le> i" "i < span m0 c" for i
      using Cons.prems(4) [of c i] out [of "c + i"] above [OF that(1)] that sp by simp
    show "4 dvd f c \<and> 0 \<le> f c \<and> f c < 4294967296 \<and> (f c \<le> b + 4 + ?n \<or> e \<le> f c - 4) \<and> hdr m1 (f c) = hdr m0 c"
      if "c \<in> A"
    proof -
      note fc = Cons.prems(5) [OF that]
      have "hdr m1 (f c) = hdr m (f c)" unfolding hdr_def using fc be le sp by (intro outw) linarith
      then show ?thesis using fc sp by auto
    qed
  qed
  have mid: "m1 x = m0 x" if "b \<le> x" "x < b + 4 + ?n" for x
  proof (cases "x < b + 4")
    case True
    have "m1 (b + (x - b)) = m0 (b + (x - b))"
      using that True a by (intro load_inj_byte) (simp_all add: m1_def hdr_def)
    then show ?thesis by simp
  next
    case False
    then show ?thesis using Cons.prems(4) [of a "x - a"] that a out [of x] by simp
  qed
  have "restore_headers b e m x = m x" if x: "x < b \<or> e \<le> x" for x
  proof -
    have "x < b + 4 + ?n \<or> e \<le> x" "x < b \<or> b + 4 \<le> x" using x le sp by linarith+
    then have "restore_headers (b + 4 + ?n) e m1 x = m1 x" "m1 x = m x" using IH out by blast+
    then show ?thesis unfolding step by simp
  qed
  moreover have "restore_headers b e m x = m0 x" if "b \<le> x" "x < e" for x
    unfolding step using IH mid that by (cases "x < b + 4 + ?n") auto
  ultimately show ?case by blast
qed

lemma restore_headers_dump:
  assumes wf: "wf_heap h os" and d: "dump_state h os f L g e m" and x: "newspace_begin h \<le> x" "x < hp h"
  shows "restore_headers (newspace_begin h) (hp h) m x = mem h x"
proof -
  from wf have ob: "heap_objects (mem h) (newspace_begin h) (hp h) = Some os" and sp: "wf_spaces h"
    by (simp_all add: wf_heap_def)
  note row = heap_objects_row [OF ob] and top = wf_heap_top [OF wf]
  from d have rowf: "row (mem h) f (oldspace_begin h) L e" and e: "e < oldspace_end h"
    and old: "inv_old (begin_collection h) (set os) f L m" and L: "set L \<subseteq> set os"
    by (simp_all add: dump_state_def)
  have "4 dvd f a \<and> 0 \<le> f a \<and> f a < 4294967296 \<and> (f a \<le> newspace_begin h \<or> hp h \<le> f a - 4) \<and>
      hdr m (f a) = hdr (mem h) a" if "a \<in> set L" for a
    using row_bounds [OF rowf that] row_dvd [OF rowf] span_nonneg [of "mem h" a] that e sp d
    by (auto simp: wf_spaces_def dump_state_def)
  moreover have "hdr m a = (if a \<in> set L then stob_at (f a) else hdr (mem h) a)"
    "0 \<le> i \<Longrightarrow> i < span (mem h) a \<Longrightarrow> m (a + i) = mem h (a + i)" if "a \<in> set os" for a i
    using old that by (simp_all add: inv_old_def)
  ultimately show ?thesis
    using restore_headers_row [where A = "set L" and f = f and m = m and os = os, OF conjunct1 [OF row]] row top(4) x
    by blast
qed

end
