(* ===== verification/Image_Properties.thy ===== *)
theory Image_Properties
  imports Image_Dump
begin

text \<open>
  The properties of heap images: writing one leaves the program's heap as it was, the image
  holds what the resumption procedure reaches, its header is understood, and reading it back
  gives an isomorphic well-formed heap.
\<close>

subsection \<open>The run of a dump\<close>

lemma write_objects_alt:
  "write_objects h s =
     (let h1 = h\<lparr>mem := store (mem h) (hp h) 1\<rparr>;
          size = unat (word_of_int (hp h - newspace_begin h) :: long)
      in (if_okay (ps_write_block size (load_bytes (mem h1) (newspace_begin h) size))
            (if_okay (ps_write_block 4 (load_bytes (mem h1) (hp h) 4)) s), h1))"
  by (simp add: write_objects_def Let_def)

definition dump_values ::
    "heap \<Rightarrow> (int \<Rightarrow> scheme_value) \<Rightarrow> int \<Rightarrow> (addr \<Rightarrow> addr) \<Rightarrow> addr \<Rightarrow> int \<Rightarrow> long" where
  "dump_values h ch n f = closed (channels_at ch n) (forwarded h f)"

text \<open>The state in which the header and the objects are written.\<close>

definition dumping ::
    "heap \<Rightarrow> addr list \<Rightarrow> scheme_value \<Rightarrow> (int \<Rightarrow> scheme_value) \<Rightarrow> int \<Rightarrow> (addr \<Rightarrow> addr) \<Rightarrow> addr list \<Rightarrow> heap \<Rightarrow> bool"
  where
  "dumping h os resume ch n f L h6 \<longleftrightarrow>
     dump_state h os f L (dump_values h ch n f) (hp h6) (mem h6) \<and>
     newspace_begin h6 = oldspace_begin h \<and> newspace_end h6 = oldspace_end h \<and>
     oldspace_begin h6 = newspace_begin h \<and> oldspace_end h6 = newspace_end h \<and>
     saved_hp h6 = hp h \<and> saved_limit h6 = limit h \<and>
     set L = {a. reachable (begin_collection h) {resume} a}"

lemma dump_run:
  assumes wf: "wf_heap h os" and v: "wf_value h os resume"
    and ch: "\<And>i. 0 \<le> i \<Longrightarrow> i < n \<Longrightarrow> channel_ok h os (ch i)" and n: "0 \<le> n"
  shows "\<exists>h6 f L. dumping h os resume ch n f L h6 \<and>
    write_image (mark_traced_channels_closedB ch n) resume port h =
      (let (s, h7) = write_objects h6 (write_image_header h6 (fw (begin_collection h) f resume) port)
       in Some (fst s, snd s, resume_old_space (h7\<lparr>status := word_of_int (fst s)\<rparr>)))"
proof -
  let ?h = "begin_collection h"
  obtain v' h3 where t: "trace_value resume ?h = (v', h3)" by (cases "trace_value resume ?h")
  then have ts: "trace_values [resume] ?h = ([v'], h3)" by simp
  from scan_result [OF wf _ ts] v obtain h4 f L where
    r: "scan_loop (newspace_begin h3) h3 = Some h4" "v' = fw ?h f resume"
    and inv: "cheney_inv ?h (set os) {resume} f L (hp h4) (hp h4) h4"
    and roots: "points_old ?h resume \<longrightarrow> ADDRESS_AFTER_HEADER resume \<in> set L" by auto
  have ss: "same_spaces ?h h4" and weak: "weak_pointer_hp h4 = 0" using inv by (simp_all add: cheney_inv_def)
  note ssD = same_spacesD [OF ss]
  have d4: "dump_state h os f L (closed (channels_at ch 0) (forwarded h f)) (hp h4) (mem h4)"
    using dump_state_scanned [OF wf inv] by (rule dump_state_cong) (auto simp: closed_def channels_at_def)
  from mark_traced_channels_from_dump [OF wf d4 order_refl n] ch
  obtain h6 where h6: "mark_traced_channels_from ch n 0 h4 = Some h6" "same_but_memory h4 h6"
    "dump_state h os f L (closed (channels_at ch n) (forwarded h f)) (hp h4) (mem h6)" by blast
  note sb = same_but_memoryD [OF h6(2)]
  have "saved_hp ?h = hp h" "saved_limit ?h = limit h" by (simp_all add: begin_collection_def)
  then have "dumping h os resume ch n f L h6"
    using h6(3) sb ssD cheney_inv_done(1) [OF wf_heap_collectable [OF wf] inv] roots
    by (simp add: dumping_def dump_values_def)
  moreover have "clean_weak_pointers h4 = Some h4" using weak by (simp add: clean_weak_pointers_def)
  ultimately show ?thesis
    using t r h6(1) by (intro exI [of _ h6] exI [of _ f] exI [of _ L])
      (simp add: write_image_def mark_traced_channels_closedB_def)
qed

text \<open>The marker is written after the copies.\<close>

lemma dump_state_marker:
  assumes wf: "wf_heap h os" and d: "dump_state h os f L g e m"
  shows "dump_state h os f L g e (store m e v)"
proof -
  from d have row: "row (mem h) f (oldspace_begin h) L e" and e: "e < oldspace_end h"
    and old: "inv_old (begin_collection h) (set os) f L m" by (simp_all add: dump_state_def)
  have "4 dvd oldspace_begin h" using wf by (simp add: wf_heap_def wf_spaces_def)
  then have ed: "4 dvd e" using row_dvd [OF row] by simp
  have keep: "store m e v x = m x" if "x < e" for x using that by (simp add: store_byte_other)
  have keepw: "load (store m e v) x = load m x" if "x + 4 \<le> e" for x using that by (simp add: load_store_other)
  have "hdr (store m e v) (f a) = hdr m (f a)" if "a \<in> set L" for a
    unfolding hdr_def using row_bounds [OF row that] span_nonneg [of "mem h" a] by (intro keepw) linarith
  moreover have "store m e v (f a + i) = m (f a + i)"
    if "a \<in> set L" "0 \<le> i" "i < uint (header_length (hdr (mem h) a))" for a i
    using row_bounds [OF row that(1)] header_length_le_span [of "hdr (mem h) a"] that
    by (intro keep) (simp add: span_def)
  moreover have "load (store m e v) (f a + i) = load m (f a + i)"
    if "a \<in> set L" "is_field (mem h) a i" for a i
    using row_bounds [OF row that(1)] is_fieldD [OF that(2)] by (intro keepw) simp
  ultimately show ?thesis
    using d inv_old_idle_store [OF wf old row_le [OF row] e ed] by (simp add: dump_state_def)
qed

subsection \<open>Going on\<close>

lemma resume_old_space_wf:
  assumes wf: "wf_heap h os" and d: "dumping h os resume ch n f L h6"
    and h'_def: "h' = resume_old_space (h6\<lparr>mem := store (mem h6) (hp h6) 1, status := st\<rparr>)"
  shows "wf_heap h' os" "\<forall>a. newspace_begin h \<le> a \<and> a < hp h \<longrightarrow> mem h' a = mem h a"
    "newspace_begin h' = newspace_begin h" "newspace_end h' = newspace_end h"
    "oldspace_begin h' = oldspace_begin h" "oldspace_end h' = oldspace_end h"
    "hp h' = hp h" "limit h' = limit h"
proof -
  from d have ds: "dump_state h os f L (dump_values h ch n f) (hp h6) (mem h6)" by (simp add: dumping_def)
  show sp: "newspace_begin h' = newspace_begin h" "newspace_end h' = newspace_end h"
    "oldspace_begin h' = oldspace_begin h" "oldspace_end h' = oldspace_end h"
    "hp h' = hp h" "limit h' = limit h"
    using d by (simp_all add: h'_def resume_old_space_def swap_spaces_def dumping_def Let_def)
  have "mem h' = restore_headers (newspace_begin h) (hp h) (store (mem h6) (hp h6) 1)"
    using d by (simp add: h'_def resume_old_space_def swap_spaces_def dumping_def Let_def)
  then show same: "\<forall>a. newspace_begin h \<le> a \<and> a < hp h \<longrightarrow> mem h' a = mem h a"
    using restore_headers_dump [OF wf dump_state_marker [OF wf ds]] by simp
  show "wf_heap h' os"
    using wf sp same
    by (intro wf_heap_same [OF wf])
      (auto simp: wf_heap_def wf_spaces_def in_newspace_def in_oldspace_def fun_eq_iff)
qed

subsection \<open>What is written\<close>

text \<open>No descriptor of the heap points outside it.\<close>

definition inside :: "heap \<Rightarrow> addr list \<Rightarrow> bool" where
  "inside h os \<longleftrightarrow> (\<forall>a\<in>set os. \<forall>i\<in>set (field_offsets (mem h) a).
     STOBP (load (mem h) (a + i)) \<longrightarrow> in_newspace h (ADDRESS_AFTER_HEADER (load (mem h) (a + i))))"

lemma dumped_value:
  assumes wf: "wf_heap h os" and d: "dumping h os resume ch n f L h6"
    and v: "wf_value h os v" "STOBP v \<longrightarrow> in_newspace h (ADDRESS_AFTER_HEADER v)"
      "points_old (begin_collection h) v \<longrightarrow> ADDRESS_AFTER_HEADER v \<in> set L"
  shows "\<not> HEADERP (fw (begin_collection h) f v)"
    "STOBP (fw (begin_collection h) f v) \<longrightarrow> ADDRESS_AFTER_HEADER (fw (begin_collection h) f v) \<in> set (map f L)"
proof -
  from d have row: "row (mem h) f (oldspace_begin h) L (hp h6)" and e: "hp h6 < oldspace_end h"
    by (simp_all add: dumping_def dump_state_def)
  have sp: "4 dvd oldspace_begin h" "0 \<le> oldspace_begin h" "oldspace_end h \<le> 4294967296"
    using wf by (simp_all add: wf_heap_def wf_spaces_def)
  have "\<not> HEADERP (fw (begin_collection h) f v) \<and>
    (STOBP (fw (begin_collection h) f v) \<longrightarrow> ADDRESS_AFTER_HEADER (fw (begin_collection h) f v) \<in> set (map f L))"
  proof (cases "STOBP v")
    case True
    then have p: "points_old (begin_collection h) v" using v(2) by simp
    then have L: "ADDRESS_AFTER_HEADER v \<in> set L" using v(3) by simp
    let ?a = "f (ADDRESS_AFTER_HEADER v)"
    have a: "4 dvd ?a" "0 \<le> ?a" "?a < 4294967296"
      using row_dvd [OF row sp(1)] row_bounds [OF row L] L sp e span_nonneg [of "mem h" "ADDRESS_AFTER_HEADER v"] by auto
    then show ?thesis
      using p L STOBP_stob_at [OF a(1)] stob_not_header(1) by (simp only: fw_def if_True ADDRESS_stob_at) simp
  next
    case False
    then have "fw (begin_collection h) f v = v" by (simp add: fw_def points_old_def)
    then show ?thesis using False v(1) by (simp add: wf_value_def)
  qed
  then show "\<not> HEADERP (fw (begin_collection h) f v)"
    "STOBP (fw (begin_collection h) f v) \<longrightarrow> ADDRESS_AFTER_HEADER (fw (begin_collection h) f v) \<in> set (map f L)"
    by simp_all
qed

lemma dumped_image:
  assumes wf: "wf_heap h os" and ins: "inside h os" and d: "dumping h os resume ch n f L h6"
    and m: "dump_state h os f L (dump_values h ch n f) (hp h6) m"
  shows "wf_image m (oldspace_begin h) (hp h6) (map f L)"
proof -
  from d have re: "set L = {a. reachable (begin_collection h) {resume} a}" by (simp add: dumping_def)
  from d have L: "set L \<subseteq> set os" and row: "row (mem h) f (oldspace_begin h) L (hp h6)"
    and e: "hp h6 < oldspace_end h" unfolding dumping_def dump_state_def by blast+
  have hd: "hdr m (f a) = hdr (mem h) a" if "a \<in> set L" for a
    using m that by (simp add: dump_state_def)
  then have sd: "span m (f a) = span (mem h) a" "dvec m (f a) = dvec (mem h) a"
    "is_field m (f a) i = is_field (mem h) a i" if "a \<in> set L" for a i
    using that by (simp_all add: span_def dvec_def is_field_def)
  have H: "HEADERP (hdr (mem h) a)" if "a \<in> set L" for a
    using collectableD(5) [OF wf_heap_collectable [OF wf], of a] that L by auto
  have "heap_objects m (oldspace_begin h) (hp h6) = Some (map f L)"
    using hd sd H by (intro row_heap_objects [OF row]) simp
  moreover have "\<not> HEADERP (load m (f a + i)) \<and>
      (STOBP (load m (f a + i)) \<longrightarrow> ADDRESS_AFTER_HEADER (load m (f a + i)) \<in> set (map f L))"
    if a: "a \<in> set L" "is_field (mem h) a i" for a i
  proof -
    let ?v = "load (mem h) (a + i)"
    have ld: "load m (f a + i) = dump_values h ch n f a i" using m a by (simp add: dump_state_def)
    have "wf_value h os ?v" "STOBP ?v \<longrightarrow> in_newspace h (ADDRESS_AFTER_HEADER ?v)"
      using wf ins a L by (auto simp: wf_heap_def inside_def field_offsets_iff)
    moreover have "points_old (begin_collection h) ?v \<longrightarrow> ADDRESS_AFTER_HEADER ?v \<in> set L"
      using a re reachable.field [of "begin_collection h" "{resume}" a i] by simp
    ultimately have "\<not> HEADERP (forwarded h f a i) \<and>
        (STOBP (forwarded h f a i) \<longrightarrow> ADDRESS_AFTER_HEADER (forwarded h f a i) \<in> set (map f L))"
      using dumped_value [OF wf d] unfolding forwarded_def by blast
    moreover have "\<not> HEADERP (0 :: long)" "\<not> STOBP (0 :: long)" "\<not> HEADERP (- 4 :: long)" "\<not> STOBP (- 4 :: long)"
      by (simp_all add: HEADERP_def STOBP_def)
    ultimately show ?thesis unfolding ld dump_values_def closed_def by auto
  qed
  moreover have "hdr m (f a) \<noteq> weak_pointer_header \<and>
      (dvec m (f a) \<longrightarrow> 4 dvd uint (header_length (hdr m (f a))))" if "a \<in> set L" for a
    using wf L hd [OF that] sd(2) [OF that] that by (auto simp: wf_heap_def)
  ultimately show ?thesis
    using wf e sd by (auto simp: wf_image_def wf_heap_def wf_spaces_def field_offsets_iff)
qed

text \<open>The bytes of an image, with the header before them.\<close>

definition image_file :: "memory \<Rightarrow> addr \<Rightarrow> addr \<Rightarrow> scheme_value \<Rightarrow> byte list" where
  "image_file m b e proc = image_header b e proc @ [1, 0, 0, 0] @ load_bytes m b (nat (e - b))"

lemma load_bytes_one: "load_bytes (store m a 1) a 4 = [1, 0, 0, 0]"
  by (simp add: load_bytes_def store_def upt_rec numeral_eq_Suc drop_bit_Suc)

lemma write_objects_writes:
  assumes "wrote port bs s" "0 \<le> hp h - newspace_begin h" "hp h - newspace_begin h < 4294967296"
  shows "wrote port (bs @ [1, 0, 0, 0] @ load_bytes (store (mem h) (hp h) 1) (newspace_begin h)
      (nat (hp h - newspace_begin h))) (fst (write_objects h s))"
proof -
  have u: "unat (word_of_int (hp h - newspace_begin h) :: long) = nat (hp h - newspace_begin h)"
    using uint_word_of_int_id [of "hp h - newspace_begin h"] assms(2,3) by (simp only: nat_uint_eq [symmetric])
  have b1: "writes (ps_write_block 4 (load_bytes (store (mem h) (hp h) 1) (hp h) 4))
      (load_bytes (store (mem h) (hp h) 1) (hp h) 4)"
    using writes_block [of "load_bytes (store (mem h) (hp h) 1) (hp h) 4"] by (simp only: length_load_bytes)
  have b2: "writes (ps_write_block (nat (hp h - newspace_begin h))
      (load_bytes (store (mem h) (hp h) 1) (newspace_begin h) (nat (hp h - newspace_begin h))))
      (load_bytes (store (mem h) (hp h) 1) (newspace_begin h) (nat (hp h - newspace_begin h)))"
    using writes_block [of "load_bytes (store (mem h) (hp h) 1) (newspace_begin h) (nat (hp h - newspace_begin h))"]
    by simp
  show ?thesis
    using wrote_okay [OF wrote_okay [OF assms(1) b1] b2]
    unfolding write_objects_alt Let_def u by (simp add: load_bytes_one)
qed

subsection \<open>Examples\<close>

definition demo_port :: ostream where
  "demo_port = \<lparr>written = [], script = [], ferror_out = False, errno_out = 0\<rparr>"

abbreviation demo_dump :: "(int \<times> ostream \<times> heap) option" where
  "demo_dump \<equiv> write_image (mark_traced_channels_closedB (\<lambda>_. SCHFALSE) 2) 71 demo_port demo_heap"

text \<open>The file: the header, the marker, a pair of the fixnum 3 and a string, and that string.\<close>

definition demo_file :: "byte list" where
  "demo_file = [10, 12, 10, 75, 97, 108, 105, 32, 49, 57, 10, 52, 10, 51, 50, 10, 51, 55, 10,
     49, 51, 53, 10, 12, 1, 0, 0, 0, 2, 8, 0, 0, 12, 0, 0, 0, 147, 0, 0, 0, 78, 3, 0, 0, 97, 98, 0, 0]"

lemma demo_dump_file: "map_option (\<lambda>(st, p, h'). (st, written p)) demo_dump = Some (0, demo_file)"
  by code_simp

lemma demo_inside: "inside demo_heap [68, 80, 88]" by code_simp
lemma demo_resume: "wf_value demo_heap [68, 80, 88] 71" using demo_root_wf by simp
lemma demo_resume_in: "STOBP 71 \<longrightarrow> in_newspace demo_heap (ADDRESS_AFTER_HEADER 71)" by code_simp

lemma demo_channels: "\<forall>i. 0 \<le> i \<and> i < 2 \<longrightarrow> channel_ok demo_heap [68, 80, 88] ((\<lambda>_. SCHFALSE) i)"
  by (simp add: channel_ok_def)

lemma demo_port_plain: "plain_out demo_port"
  by (simp add: plain_out_def demo_port_def)

subsection \<open>Properties\<close>

text \<open>
  Property C7. Writing an image does not disturb the program: from a well-formed heap, with
  every channel of the table an object of it, \<open>write_image\<close> returns, whatever becomes of the
  port, and afterwards the spaces, the allocation pointer and every byte of the current
  space are as they were, although copying had replaced headers by forwarding pointers.
\<close>

theorem write_image_resumes:
  assumes "wf_heap h os" and "wf_value h os resume"
    and "\<forall>i. 0 \<le> i \<and> i < n \<longrightarrow> channel_ok h os (ch i)" and "0 \<le> n"
  shows "\<exists>st port' h'. write_image (mark_traced_channels_closedB ch n) resume port h = Some (st, port', h') \<and>
     wf_heap h' os \<and> (\<forall>a. newspace_begin h \<le> a \<and> a < hp h \<longrightarrow> mem h' a = mem h a) \<and>
     newspace_begin h' = newspace_begin h \<and> newspace_end h' = newspace_end h \<and>
     oldspace_begin h' = oldspace_begin h \<and> oldspace_end h' = oldspace_end h \<and>
     hp h' = hp h \<and> limit h' = limit h"
proof -
  from dump_run [OF assms(1,2) _ assms(4), of ch] assms(3) obtain h6 f L where
    d: "dumping h os resume ch n f L h6" and w: "write_image (mark_traced_channels_closedB ch n) resume port h =
      (let (s, h7) = write_objects h6 (write_image_header h6 (fw (begin_collection h) f resume) port)
       in Some (fst s, snd s, resume_old_space (h7\<lparr>status := word_of_int (fst s)\<rparr>)))" by blast
  obtain s where s: "write_objects h6 (write_image_header h6 (fw (begin_collection h) f resume) port) =
      (s, h6\<lparr>mem := store (mem h6) (hp h6) 1\<rparr>)"
    by (simp add: write_objects_alt Let_def)
  note r = resume_old_space_wf [OF assms(1) d refl, of "word_of_int (fst s)"]
  let ?h = "resume_old_space (h6\<lparr>mem := store (mem h6) (hp h6) 1, status := word_of_int (fst s)\<rparr>)"
  have "write_image (mark_traced_channels_closedB ch n) resume port h = Some (fst s, snd s, ?h)"
    unfolding w s by simp
  then show ?thesis using r by blast
qed

theorem write_image_resumes_witness:
  "\<exists>st port' h'. write_image (mark_traced_channels_closedB (\<lambda>_. SCHFALSE) 2) 71
      \<lparr>written = [], script = [OutError 28 0], ferror_out = False, errno_out = 0\<rparr> demo_heap = Some (st, port', h') \<and>
     wf_heap h' [68, 80, 88]"
proof -
  have "wf_value demo_heap [68, 80, 88] 71" using demo_root_wf by simp
  from write_image_resumes [OF demo_heap_wf this, of 2 "\<lambda>_. SCHFALSE"
      "\<lparr>written = [], script = [OutError 28 0], ferror_out = False, errno_out = 0\<rparr>"] show ?thesis
    unfolding channel_ok_def by (simp only: simp_thms zero_le_numeral) blast
qed

lemma write_image_holds:
  assumes "wf_heap h os" and "inside h os" and "wf_value h os resume"
    and "STOBP resume \<longrightarrow> in_newspace h (ADDRESS_AFTER_HEADER resume)"
    and "\<forall>i. 0 \<le> i \<and> i < n \<longrightarrow> channel_ok h os (ch i)" and "0 \<le> n" and "plain_out port"
  shows "\<exists>m e f L port' h' proc. write_image (mark_traced_channels_closedB ch n) resume port h = Some (0, port', h') \<and>
     written port' = written port @ image_file m (oldspace_begin h) e proc \<and>
     wf_image m (oldspace_begin h) e (map f L) \<and> e < oldspace_end h \<and>
     distinct L \<and> set L = {a. reachable (begin_collection h) {resume} a} \<and>
     proc = fw (begin_collection h) f resume \<and> \<not> HEADERP proc \<and>
     (STOBP proc \<longrightarrow> ADDRESS_AFTER_HEADER proc \<in> set (map f L)) \<and>
     (\<forall>a\<in>set L. hdr m (f a) = hdr (mem h) a \<and>
        (\<not> dvec (mem h) a \<longrightarrow> (\<forall>i. 0 \<le> i \<and> i < uint (header_length (hdr (mem h) a)) \<longrightarrow>
           m (f a + i) = mem h (a + i))) \<and>
        (\<forall>i. is_field (mem h) a i \<longrightarrow> load m (f a + i) =
           closed (channels_at ch n) (\<lambda>a i. fw (begin_collection h) f (load (mem h) (a + i))) a i))"
proof -
  from dump_run [OF assms(1,3) _ assms(6), of ch] assms(5) obtain h6 f L where
    d: "dumping h os resume ch n f L h6" and w: "write_image (mark_traced_channels_closedB ch n) resume port h =
      (let (s, h7) = write_objects h6 (write_image_header h6 (fw (begin_collection h) f resume) port)
       in Some (fst s, snd s, resume_old_space (h7\<lparr>status := word_of_int (fst s)\<rparr>)))" by blast
  let ?m = "store (mem h6) (hp h6) 1" and ?p = "fw (begin_collection h) f resume"
  from d have ds: "dump_state h os f L (dump_values h ch n f) (hp h6) (mem h6)"
    and nb: "newspace_begin h6 = oldspace_begin h"
    and re: "set L = {a. reachable (begin_collection h) {resume} a}" by (simp_all add: dumping_def)
  note ds' = dump_state_marker [OF assms(1) ds, of 1]
  from ds have row: "row (mem h) f (oldspace_begin h) L (hp h6)" and e: "hp h6 < oldspace_end h"
    by (simp_all add: dump_state_def)
  have "0 \<le> hp h6 - newspace_begin h6" "hp h6 - newspace_begin h6 < 4294967296"
    using row_le [OF row] e nb assms(1) by (auto simp: wf_heap_def wf_spaces_def)
  from write_objects_writes [OF write_image_header_writes [OF assms(7), of h6 ?p] this]
  have wr: "wrote port (image_file ?m (oldspace_begin h) (hp h6) ?p)
      (fst (write_objects h6 (write_image_header h6 ?p port)))"
    by (simp add: image_file_def nb)
  have "\<exists>port' h'. write_image (mark_traced_channels_closedB ch n) resume port h = Some (0, port', h') \<and>
      written port' = written port @ image_file ?m (oldspace_begin h) (hp h6) ?p"
    using w wr by (simp add: wrote_def split_beta)
  moreover note dumped_image [OF assms(1,2) d ds']
  moreover have "points_old (begin_collection h) resume \<longrightarrow> ADDRESS_AFTER_HEADER resume \<in> set L"
    using re reachable.root [of resume "{resume}"] by simp
  note dumped_value [OF assms(1) d assms(3,4) this]
  moreover have "\<forall>a\<in>set L. hdr ?m (f a) = hdr (mem h) a \<and>
        (\<not> dvec (mem h) a \<longrightarrow> (\<forall>i. 0 \<le> i \<and> i < uint (header_length (hdr (mem h) a)) \<longrightarrow>
           ?m (f a + i) = mem h (a + i))) \<and>
        (\<forall>i. is_field (mem h) a i \<longrightarrow> load ?m (f a + i) =
           closed (channels_at ch n) (\<lambda>a i. fw (begin_collection h) f (load (mem h) (a + i))) a i)"
    using ds' by (simp add: dump_state_def dump_values_def forwarded_def [abs_def])
  moreover have "distinct L" using ds by (simp add: dump_state_def)
  ultimately show ?thesis using e re by blast
qed

text \<open>
  Property C8. What an image holds: when no descriptor points outside the heap and the port
  accepts what is written, \<open>write_image\<close> reports no error and writes a header, the marker
  and the bytes of a well-formed image. Its objects are copies, one each, of exactly the
  objects the resumption procedure reaches; headers and byte vectors are the same, fields
  are forwarded, and in a channel of the table the status is 0 and the number \<open>- 1\<close>.
\<close>

theorem write_image_contents:
  assumes "wf_heap h os" and "inside h os" and "wf_value h os resume"
    and "STOBP resume \<longrightarrow> in_newspace h (ADDRESS_AFTER_HEADER resume)"
    and "\<forall>i. 0 \<le> i \<and> i < n \<longrightarrow> channel_ok h os (ch i)" and "0 \<le> n" and "plain_out port"
  shows "\<exists>m e f L port' h' proc. write_image (mark_traced_channels_closedB ch n) resume port h = Some (0, port', h') \<and>
     written port' = written port @ image_file m (oldspace_begin h) e proc \<and>
     wf_image m (oldspace_begin h) e (map f L) \<and> e < oldspace_end h \<and>
     distinct L \<and> set L = {a. reachable (begin_collection h) {resume} a} \<and>
     proc = fw (begin_collection h) f resume \<and> \<not> HEADERP proc \<and>
     (STOBP proc \<longrightarrow> ADDRESS_AFTER_HEADER proc \<in> set (map f L)) \<and>
     (\<forall>a\<in>set L. hdr m (f a) = hdr (mem h) a \<and>
        (\<not> dvec (mem h) a \<longrightarrow> (\<forall>i. 0 \<le> i \<and> i < uint (header_length (hdr (mem h) a)) \<longrightarrow>
           m (f a + i) = mem h (a + i))) \<and>
        (\<forall>i. is_field (mem h) a i \<longrightarrow> load m (f a + i) =
           closed (channels_at ch n) (\<lambda>a i. fw (begin_collection h) f (load (mem h) (a + i))) a i))"
  using assms by (rule write_image_holds)

theorem write_image_contents_witness:
  "\<exists>m e f L. demo_file = image_file m 128 e (fw (begin_collection demo_heap) f 71) \<and> wf_image m 128 e (map f L) \<and>
     set L = {a. reachable (begin_collection demo_heap) {71} a}"
proof -
  from write_image_contents [OF demo_heap_wf demo_inside demo_resume demo_resume_in demo_channels _ demo_port_plain]
  obtain m e f L port' h' where "demo_dump = Some (0, port', h')"
    "written port' = written demo_port @ image_file m 128 e (fw (begin_collection demo_heap) f 71)"
    "wf_image m 128 e (map f L)" "set L = {a. reachable (begin_collection demo_heap) {71} a}"
    by (auto simp: demo_heap_def)
  moreover from this have "image_file m 128 e (fw (begin_collection demo_heap) f 71) = demo_file"
    using demo_dump_file by (simp add: demo_port_def)
  ultimately show ?thesis by metis
qed

text \<open>
  Understanding the header: from a stream that holds anything without a form
  feed, the header as \<open>write_image\<close> writes it, and more, \<open>check_image_header\<close> returns the
  size of the image, sets the beginning and the end of its space and the start-up procedure
  as they were written, and leaves the stream at the marker.
\<close>

theorem check_image_header_reads:
  assumes "ps_open_input_file getenv getpwnam fopen filename = (Some s, NO_ERRORS)"
    and "holds s (front @ image_header b e proc @ rest)" and "12 \<notin> set front"
    and "4 dvd b" and "0 \<le> b" and "b < 4294967296" and "4 dvd e" and "0 \<le> e" and "e < 4294967296"
  shows "\<exists>s'. check_image_header getenv getpwnam fopen strerror closing filename h =
       (word_of_int (e - b), Some s',
        h\<lparr>status := 0, eofP := False, old_begin := b, old_hp := e, startup_proc := proc\<rparr>) \<and> holds s' rest"
proof -
  let ?h = "h\<lparr>status := 0, eofP := False\<rparr>"
  obtain s' where "read_header s ?h = ((True, 4), s', ?h\<lparr>old_begin := b, old_hp := e, startup_proc := proc\<rparr>)"
    "holds s' rest"
    by (rule read_header_holds [OF assms(2,3) assms(4-6) assms(7-9), of ?h]) simp_all
  then show ?thesis using assms(1)
    by (intro exI [of _ s']) (simp add: check_image_header_def finish_header_def NO_ERRORS_def)
qed

definition demo_stream :: istream where
  "demo_stream = \<lparr>input = map Byte ([35, 33, 10] @ image_header 64 96 71 @ [1, 0]),
     ferror_in = False, feof_in = False, errno_in = 0\<rparr>"

lemma open_demo:
  "ps_open_input_file (\<lambda>_. None) (\<lambda>_. None) (\<lambda>_ _. Inr s) [97] = (Some s, NO_ERRORS)"
proof -
  have "expand_file_name (\<lambda>_. None) (\<lambda>_. None) [97] 1024 = Inr [97, 0]" by code_simp
  then show ?thesis by (simp add: ps_open_input_file_def ps_really_open_file_def FILE_NAME_SIZE_def)
qed

theorem check_image_header_reads_witness:
  "\<exists>s' h'. check_image_header (\<lambda>_. None) (\<lambda>_. None) (\<lambda>_ _. Inr demo_stream) (\<lambda>_. []) (0, 0) [97] demo_heap =
     (32, Some s', h') \<and> old_begin h' = 64 \<and> old_hp h' = 96 \<and> startup_proc h' = 71 \<and> holds s' [1, 0]"
proof -
  note open_demo [of demo_stream]
  moreover have "holds demo_stream ([35, 33, 10] @ image_header 64 96 71 @ [1, 0])"
    by (simp add: holds_def demo_stream_def)
  ultimately show ?thesis
    using check_image_header_reads [of "\<lambda>_. None" "\<lambda>_. None" "\<lambda>_ _. Inr demo_stream" "[97]" demo_stream
      "[35, 33, 10]" 64 96 71 "[1, 0]" "\<lambda>_. []" "(0, 0)" demo_heap] by auto
qed

subsection \<open>The round trip\<close>

lemma initialize_heap_spaces:
  assumes "4 dvd start" "0 \<le> start" "2 \<le> sint cells" "sint cells < 536870912"
    and "start + 8 * (sint cells div 2) \<le> 4294967296"
  shows "wf_spaces (initialize_heap start cells h)" "hp (initialize_heap start cells h) = start"
    "newspace_begin (initialize_heap start cells h) = start"
    "newspace_end (initialize_heap start cells h) = start + 4 * (sint cells div 2)"
    "old_begin (initialize_heap start cells h) = old_begin h" "old_hp (initialize_heap start cells h) = old_hp h"
    "startup_proc (initialize_heap start cells h) = startup_proc h"
proof -
  let ?k = "sint cells div 2"
  have k: "1 \<le> ?k" "?k < 536870912" using assms(3,4) by linarith+
  have "uint (long_div cells 2) = ?k"
    using k assms(3) uint_word_of_int_id [of ?k] by (simp add: long_div_def)
  then have "uint (push_bit 2 (long_div cells 2)) = 4 * ?k"
    using k assms(4) by (simp add: uint_push_bit2)
  moreover have "4 * ?k < 2147483648" using assms(4) by linarith
  ultimately have s: "sint (push_bit 2 (long_div cells 2)) = 4 * ?k" by (simp add: sint_small)
  have sel: "newspace_begin (initialize_heap start cells h) = start"
    "newspace_end (initialize_heap start cells h) = start + 4 * ?k"
    "oldspace_begin (initialize_heap start cells h) = start + 4 * ?k"
    "oldspace_end (initialize_heap start cells h) = start + 4 * ?k + 4 * ?k"
    "hp (initialize_heap start cells h) = start" "limit (initialize_heap start cells h) = start + 4 * ?k"
    "old_begin (initialize_heap start cells h) = old_begin h" "old_hp (initialize_heap start cells h) = old_hp h"
    "startup_proc (initialize_heap start cells h) = startup_proc h"
    by (simp_all add: initialize_heap_def Let_def s)
  then show "hp (initialize_heap start cells h) = start"
    "newspace_begin (initialize_heap start cells h) = start"
    "newspace_end (initialize_heap start cells h) = start + 4 * (sint cells div 2)"
    "old_begin (initialize_heap start cells h) = old_begin h" "old_hp (initialize_heap start cells h) = old_hp h"
    "startup_proc (initialize_heap start cells h) = startup_proc h" by simp_all
  have "4 dvd start + 4 * ?k" using assms(1) by simp
  then show "wf_spaces (initialize_heap start cells h)"
    using assms k unfolding wf_spaces_def sel by simp
qed

text \<open>A descriptor that follows its object along \<open>g\<close>, and an isomorphic copy of objects.\<close>

definition moved :: "(addr \<Rightarrow> addr) \<Rightarrow> scheme_value \<Rightarrow> scheme_value" where
  "moved g v = (if STOBP v then stob_at (g (ADDRESS_AFTER_HEADER v)) else v)"

definition copied :: "heap \<Rightarrow> addr list \<Rightarrow> addr set \<Rightarrow> (addr \<Rightarrow> addr) \<Rightarrow> memory \<Rightarrow> bool" where
  "copied h L C g m \<longleftrightarrow> (\<forall>a\<in>set L. hdr m (g a) = hdr (mem h) a \<and>
     (\<not> dvec (mem h) a \<longrightarrow> (\<forall>i. 0 \<le> i \<and> i < uint (header_length (hdr (mem h) a)) \<longrightarrow>
        m (g a + i) = mem h (a + i))) \<and>
     (\<forall>i. is_field (mem h) a i \<longrightarrow>
        load m (g a + i) = closed C (\<lambda>a i. moved g (load (mem h) (a + i))) a i))"

lemma relocate_fw:
  assumes "STOBP v \<longrightarrow> in_newspace h (ADDRESS_AFTER_HEADER v)"
    and "STOBP v \<longrightarrow> 4 dvd f (ADDRESS_AFTER_HEADER v) \<and> 0 \<le> f (ADDRESS_AFTER_HEADER v) \<and> f (ADDRESS_AFTER_HEADER v) < 4294967296"
  shows "relocate d (fw (begin_collection h) f v) = moved (\<lambda>a. f a + d) v"
  using assms STOBP_stob_at [of "f (ADDRESS_AFTER_HEADER v)"]
  by (cases "STOBP v") (simp_all add: fw_def moved_def relocate_def)

lemma restored_copied:
  assumes wf: "wf_heap h os" and ins: "inside h os" and img: "wf_image m b e (map f L)" and e: "e < 4294967296"
    and L: "set L = {a. reachable (begin_collection h) {resume} a}" "set L \<subseteq> set os"
    and cp: "\<forall>a\<in>set L. hdr m (f a) = hdr (mem h) a \<and>
        (\<not> dvec (mem h) a \<longrightarrow> (\<forall>i. 0 \<le> i \<and> i < uint (header_length (hdr (mem h) a)) \<longrightarrow>
           m (f a + i) = mem h (a + i))) \<and>
        (\<forall>i. is_field (mem h) a i \<longrightarrow> load m (f a + i) =
           closed C (\<lambda>a i. fw (begin_collection h) f (load (mem h) (a + i))) a i)"
    and r: "restored m (map f L) d m'"
  shows "copied h L C (\<lambda>a. f a + d) m'"
  unfolding copied_def
proof (intro ballI conjI allI impI)
  fix a assume a: "a \<in> set L"
  have hd: "hdr m (f a) = hdr (mem h) a" using cp a by simp
  then have sd: "span m (f a) = span (mem h) a" "dvec m (f a) = dvec (mem h) a"
    "is_field m (f a) i = is_field (mem h) a i" for i by (simp_all add: span_def dvec_def is_field_def)
  show "hdr m' (f a + d) = hdr (mem h) a" using r a hd by (simp add: restored_def)
  fix i
  show "m' (f a + d + i) = mem h (a + i)"
    if "\<not> dvec (mem h) a" "0 \<le> i \<and> i < uint (header_length (hdr (mem h) a))"
  proof -
    have "i < span (mem h) a" using that header_length_le_span [of "hdr (mem h) a"] by (simp add: span_def)
    then have "m' (f a + d + i) = m (f a + i)" using r a that sd by (simp add: restored_def)
    then show ?thesis using cp a that by simp
  qed
  assume i: "is_field (mem h) a i"
  let ?v = "load (mem h) (a + i)"
  have fr: "4 dvd f c \<and> 0 \<le> f c \<and> f c < 4294967296" if "c \<in> set L" for c
  proof -
    have "f c \<in> set (map f L)" using that by simp
    then show ?thesis using wf_image_row(3,5) [OF img] e by auto
  qed
  have v: "STOBP ?v \<longrightarrow> in_newspace h (ADDRESS_AFTER_HEADER ?v)"
    using ins a L(2) i by (auto simp: inside_def field_offsets_iff)
  then have "STOBP ?v \<longrightarrow> ADDRESS_AFTER_HEADER ?v \<in> set L"
    using reachable.field [of "begin_collection h" "{resume}" a i] a L(1) i by simp
  then have fwv: "relocate d (fw (begin_collection h) f ?v) = moved (\<lambda>a. f a + d) ?v"
    using fr v by (intro relocate_fw) auto
  have "load m' (f a + d + i) = relocate d (load m (f a + i))"
    using r a i sd by (simp add: restored_def)
  also have "\<dots> = closed C (\<lambda>a i. moved (\<lambda>a. f a + d) (load (mem h) (a + i))) a i"
    using cp a i fwv by (simp add: closed_def STOBP_def)
  finally show "load m' (f a + d + i) = closed C (\<lambda>a i. moved (\<lambda>a. f a + d) (load (mem h) (a + i))) a i" .
qed

text \<open>
  Property C3. Saving and resuming: from a well-formed heap without pointers to the outside,
  \<open>write_image\<close> writes a file from which, whatever front without a form feed is put before
  it, \<open>check_image_header\<close>, \<open>initialize_heap\<close> and \<open>read_image\<close> build, anywhere in memory, a
  well-formed heap that is an isomorphic copy of the objects the resumption procedure
  reaches, the channels among them closed; the value returned is the resumption procedure's
  descriptor there.
\<close>

theorem image_roundtrip:
  assumes "wf_heap h os" and "inside h os" and "wf_value h os resume"
    and "STOBP resume \<longrightarrow> in_newspace h (ADDRESS_AFTER_HEADER resume)"
    and "\<forall>i. 0 \<le> i \<and> i < n \<longrightarrow> channel_ok h os (ch i)" and "0 \<le> n" and "plain_out port"
    and "write_image (mark_traced_channels_closedB ch n) resume port h = Some (st, port', h')"
    and "oldspace_end h - oldspace_begin h < 2147483648"
    and "ps_open_input_file getenv getpwnam fopen filename = (Some s, NO_ERRORS)"
    and "holds s (front @ drop (length (written port)) (written port'))" and "12 \<notin> set front"
    and "check_image_header getenv getpwnam fopen strerror closing filename k = (len, Some s', k')"
    and "4 dvd start" "0 \<le> start" "2 \<le> sint cells" "sint cells < 536870912"
    and "start + 8 * (sint cells div 2) \<le> 4294967296"
    and "sint len + sint space < 4 * (sint cells div 2)" and "0 \<le> sint space"
    and "ps_close (fclose 0) = NO_ERRORS"
  shows "st = 0 \<and> (\<exists>k'' g L. read_image strerror fclose s' space (initialize_heap start cells k') = (moved g resume, k'') \<and>
     wf_heap k'' (map g L) \<and> wf_value k'' (map g L) (moved g resume) \<and>
     distinct L \<and> set L = {a. reachable (begin_collection h) {resume} a} \<and>
     copied h L (channels_at ch n) g (mem k''))"
proof -
  let ?h = "begin_collection h"
  from write_image_holds [OF assms(1-7)] obtain m e f L proc where
    w: "st = 0" "written port' = written port @ image_file m (oldspace_begin h) e proc"
    and img: "wf_image m (oldspace_begin h) e (map f L)" and e: "e < oldspace_end h"
    and L: "distinct L" "set L = {a. reachable ?h {resume} a}"
    and pr: "proc = fw ?h f resume" "\<not> HEADERP proc" "STOBP proc \<longrightarrow> ADDRESS_AFTER_HEADER proc \<in> set (map f L)"
    and cp: "\<forall>a\<in>set L. hdr m (f a) = hdr (mem h) a \<and>
        (\<not> dvec (mem h) a \<longrightarrow> (\<forall>i. 0 \<le> i \<and> i < uint (header_length (hdr (mem h) a)) \<longrightarrow>
           m (f a + i) = mem h (a + i))) \<and>
        (\<forall>i. is_field (mem h) a i \<longrightarrow> load m (f a + i) =
           closed (channels_at ch n) (\<lambda>a i. fw ?h f (load (mem h) (a + i))) a i)"
    using assms(8) by (elim exE conjE) simp
  let ?b = "oldspace_begin h"
  note wi = wf_image_row [OF img]
  have b: "4 dvd ?b" "0 \<le> ?b" "oldspace_end h \<le> 4294967296"
    using assms(1) by (simp_all add: wf_heap_def wf_spaces_def)
  have Lo: "set L \<subseteq> set os"
  proof
    fix a assume "a \<in> set L"
    then have "reachable ?h {resume} a" using L(2) by simp
    then show "a \<in> set os"
      using assms(1,3) by induction (auto simp: wf_heap_def wf_value_def field_offsets_iff)
  qed
  define data where "data = [1, 0, 0, 0] @ load_bytes m ?b (nat (e - ?b))"
  have "holds s (front @ image_header ?b e proc @ data)"
    using assms(11) by (simp add: w(2) image_file_def data_def)
  moreover have "?b < 4294967296" "0 \<le> e" "e < 4294967296" using wi(7) b e by linarith+
  ultimately obtain s1 where
    "check_image_header getenv getpwnam fopen strerror closing filename k = (word_of_int (e - ?b), Some s1,
        k\<lparr>status := 0, eofP := False, old_begin := ?b, old_hp := e, startup_proc := proc\<rparr>)" "holds s1 data"
    using check_image_header_reads [OF assms(10) _ assms(12) b(1,2) _ wi(6)] by blast
  then have sz: "len = word_of_int (e - ?b)" and s': "holds s' data"
    and k': "k' = k\<lparr>status := 0, eofP := False, old_begin := ?b, old_hp := e, startup_proc := proc\<rparr>"
    using assms(13) by simp_all
  have "sint len = e - ?b"
    using sz wi(7) e assms(9) uint_word_of_int_id [of "e - ?b"] by (simp add: sint_small)
  then have room: "start + (e - ?b) + sint space < start + 4 * (sint cells div 2)" using assms(19) by simp
  let ?k = "initialize_heap start cells k'" and ?d = "start - ?b"
  note ik = initialize_heap_spaces [OF assms(14-18), of k']
  have inp: "input s' = map Byte ((if False then [0, 0, 0, 1] else [1, 0, 0, 0]) @ load_bytes m ?b (nat (e - ?b)))"
    "\<not> ferror_in s'" using s' by (simp_all add: holds_def data_def)
  have "e - ?b < 2147483648" using e assms(9) by simp
  have plain: "if False then foreign m m (map f L) else m = m" by simp
  from read_image_restores [where fclose = fclose and space = space and strerror = strerror,
      OF img plain inp assms(21) ik(1)]
  obtain k'' where k'': "read_image strerror fclose s' space ?k = (relocate ?d proc, k'')"
    "restored m (map f L) ?d (mem k'')" "wf_heap k'' (map (\<lambda>a. a + ?d) (map f L))"
    "wf_value k'' (map (\<lambda>a. a + ?d) (map f L)) (relocate ?d proc)"
    using room ik assms(20) pr(2,3) \<open>e - ?b < 2147483648\<close> by (auto simp: k')
  have "copied h L (channels_at ch n) (\<lambda>a. f a + ?d) (mem k'')"
    using restored_copied [OF assms(1,2) img _ L(2) Lo cp k''(2)] e b(3) by simp
  moreover have "relocate ?d proc = moved (\<lambda>a. f a + ?d) resume"
    unfolding pr(1)
  proof (rule relocate_fw [OF assms(4)], intro impI)
    assume "STOBP resume"
    then have "ADDRESS_AFTER_HEADER resume \<in> set L"
      using L(2) assms(4) reachable.root [of resume "{resume}" ?h] by simp
    then have "f (ADDRESS_AFTER_HEADER resume) \<in> set (map f L)" by simp
    then show "4 dvd f (ADDRESS_AFTER_HEADER resume) \<and> 0 \<le> f (ADDRESS_AFTER_HEADER resume) \<and>
        f (ADDRESS_AFTER_HEADER resume) < 4294967296"
      using wi(3,5) e b(3) by auto
  qed
  ultimately show ?thesis
    using w(1) k'' L by (intro conjI exI [of _ k''] exI [of _ "\<lambda>a. f a + ?d"] exI [of _ L]) (simp_all add: comp_def)
qed

definition demo_resumed :: istream where
  "demo_resumed = \<lparr>input = map Byte ([35, 33] @ demo_file), ferror_in = False, feof_in = False, errno_in = 0\<rparr>"

theorem image_roundtrip_witness:
  "\<exists>s' k' k'' g L. check_image_header (\<lambda>_. None) (\<lambda>_. None) (\<lambda>_ _. Inr demo_resumed) (\<lambda>_. []) (0, 0) [97] demo_heap =
       (20, Some s', k') \<and>
     read_image (\<lambda>_. []) (\<lambda>_. (0, 0)) s' 8 (initialize_heap 4096 1000 k') = (moved g 71, k'') \<and>
     wf_heap k'' (map g L) \<and> set L = {a. reachable (begin_collection demo_heap) {71} a}"
proof -
  obtain port' h' where d: "demo_dump = Some (0, port', h')" "written port' = demo_file"
    using demo_dump_file by auto
  let ?c = "check_image_header (\<lambda>_. None) (\<lambda>_. None) (\<lambda>_ _. Inr demo_resumed) (\<lambda>_. []) (0, 0) [97] demo_heap"
  have "fst ?c = 20" "\<not> Option.is_none (fst (snd ?c))" by code_simp+
  then obtain s' k' where c: "?c = (20, Some s', k')" by (cases ?c) (auto simp: Option.is_none_def)
  have "holds demo_resumed ([35, 33] @ drop (length (written demo_port)) (written port'))"
    by (simp add: holds_def demo_resumed_def demo_port_def d(2))
  from image_roundtrip [where fclose = "\<lambda>_. (0, 0)", OF demo_heap_wf demo_inside demo_resume demo_resume_in demo_channels _
      demo_port_plain d(1) _ open_demo this _ c, of 4096 1000 8] show ?thesis
    using c by (auto simp: demo_heap_def ps_close_def NO_ERRORS_def)
qed

end
