(* ===== verification/Events.thy ===== *)
theory Events
  imports Prelude "HOL-Library.Monad_Syntax" "HOL-Library.Signed_Division"
begin

text \<open>
  \<open>src/c/unix/event.c\<close>: keyboard and alarm interrupts, and the two queues of file
  descriptors, those with a pending operation and those that have become ready. The
  queues are the code's: singly linked \<open>fd_struct\<close>s allocated with \<open>malloc\<close>, and in each
  queue a pointer to the link at its end.

  A pointer to an \<open>fd_struct\<close> is a natural number, the structures are a map from pointers,
  and a pointer to a link (\<open>fd_struct **\<close>) names the \<open>first\<close> field of one of the two queues
  or the \<open>next\<close> field of a structure. An operation that would follow a null or dangling
  pointer, or go round a cyclic queue forever, has the value \<open>None\<close>. What \<open>malloc\<close>,
  \<open>select\<close>, \<open>sigaction\<close> and \<open>setitimer\<close> answer is an argument.
\<close>

subsection \<open>State\<close>

definition FD_SETSIZE :: int where "FD_SETSIZE = 1024"
definition TICKS_PER_SECOND :: long where "TICKS_PER_SECOND = 1000"
definition POLLS_PER_SECOND :: long where "POLLS_PER_SECOND = 20"

text \<open>Division and remainder of C's signed longs, which truncate.\<close>

definition long_sdiv :: "long \<Rightarrow> long \<Rightarrow> long" where
  "long_sdiv a b = word_of_int (sint a sdiv sint b)"

definition long_smod :: "long \<Rightarrow> long \<Rightarrow> long" where
  "long_smod a b = word_of_int (sint a smod sint b)"

definition TICKS_PER_POLL :: long where
  "TICKS_PER_POLL = long_sdiv TICKS_PER_SECOND POLLS_PER_SECOND"

datatype fd_status = FD_QUIESCENT | FD_READY | FD_PENDING

type_synonym ptr = nat

record fd_struct =
  fd :: int
  status :: fd_status
  is_input :: bool
  "next" :: "ptr option"

datatype que = Ready | Pending
datatype link = FirstOf que | NextOf ptr

record fdque =
  first :: "ptr option"
  lastp :: link

text \<open>Complaints on \<open>stderr\<close>.\<close>

datatype complaint =
    NotOnQueue int fd_status | AddPendingRange int | RemoveRange int | NoPendingOperation int

datatype catcher = KeyboardInterrupt | AlarmInterrupt | SigpipeInterrupt
datatype handler = SIG_DFL | SIG_IGN | Catch catcher

record events =
  Spending_eventsPS :: bool
  Spending_interruptPS :: bool
  keyboard_interrupt_count :: long
  current_time :: long
  alarm_time :: long
  poll_time :: long
  poll_interval :: long
  store :: "ptr \<rightharpoonup> fd_struct"
  fds :: "int \<Rightarrow> ptr option"
  ready_que :: fdque
  pending_que :: fdque
  complaints :: "complaint list"
  handlers :: "int \<Rightarrow> handler"
  itimer :: long \<comment> \<open>microseconds between two SIGALRMs, 0 when they are off\<close>

definition SIGINT :: int where "SIGINT = 2"
definition SIGPIPE :: int where "SIGPIPE = 13"
definition SIGALRM :: int where "SIGALRM = 14"

definition events_init :: events where
  "events_init = \<lparr>Spending_eventsPS = False, Spending_interruptPS = False,
     keyboard_interrupt_count = 0, current_time = 0, alarm_time = - 1, poll_time = - 1,
     poll_interval = 5, store = Map.empty, fds = (\<lambda>_. None),
     ready_que = \<lparr>first = None, lastp = FirstOf Ready\<rparr>,
     pending_que = \<lparr>first = None, lastp = FirstOf Pending\<rparr>,
     complaints = [], handlers = (\<lambda>_. SIG_DFL), itimer = 0\<rparr>"

subsection \<open>Signals and alarms\<close>

definition NOTE_EVENT :: "events \<Rightarrow> events" where
  "NOTE_EVENT st = st\<lparr>Spending_eventsPS := True, Spending_interruptPS := True\<rparr>"

definition when_keyboard_interrupt :: "events \<Rightarrow> events" where
  "when_keyboard_interrupt st =
     NOTE_EVENT (st\<lparr>keyboard_interrupt_count := keyboard_interrupt_count st + 1\<rparr>)"

definition when_sigpipe_interrupt :: "events \<Rightarrow> events" where
  "when_sigpipe_interrupt st = st"

definition when_alarm_interrupt :: "events \<Rightarrow> events" where
  "when_alarm_interrupt st =
     (let st1 = st\<lparr>current_time := current_time st + 1\<rparr>
      in if (0 \<le>s alarm_time st1 \<and> alarm_time st1 \<le>s current_time st1) \<or>
            (0 \<le>s poll_time st1 \<and> poll_time st1 \<le>s current_time st1)
         then NOTE_EVENT st1 else st1)"

fun call_handler :: "catcher \<Rightarrow> events \<Rightarrow> events" where
  "call_handler KeyboardInterrupt = when_keyboard_interrupt"
| "call_handler AlarmInterrupt = when_alarm_interrupt"
| "call_handler SigpipeInterrupt = when_sigpipe_interrupt"

text \<open>\<open>sigaction_ok\<close>: whether asking for, and whether setting, the action succeeds.\<close>

definition setcatcher :: "(int \<Rightarrow> bool \<times> bool) \<Rightarrow> int \<Rightarrow> catcher \<Rightarrow> events \<Rightarrow> bool \<times> events" where
  "setcatcher sigaction_ok signum c st =
     (if \<not> fst (sigaction_ok signum) then (False, st)
      else if handlers st signum = SIG_IGN then (True, st)
      else if \<not> snd (sigaction_ok signum) then (False, st)
      else (True, st\<lparr>handlers := (handlers st)(signum := Catch c)\<rparr>))"

definition USEC_PER_POLL :: long where
  "USEC_PER_POLL = long_sdiv 1000000 POLLS_PER_SECOND"

text \<open>The value on the left is an exit of the process.\<close>

definition start_alarm_interrupts :: "bool \<Rightarrow> events \<Rightarrow> int + events" where
  "start_alarm_interrupts setitimer_ok st =
     (if setitimer_ok then Inr (st\<lparr>itimer := USEC_PER_POLL\<rparr>) else Inl (- 1))"

definition stop_alarm_interrupts :: "bool \<Rightarrow> events \<Rightarrow> int + events" where
  "stop_alarm_interrupts setitimer_ok st =
     (if setitimer_ok then Inr (st\<lparr>itimer := 0\<rparr>) else Inl (- 1))"

definition sysdep_init :: "(int \<Rightarrow> bool \<times> bool) \<Rightarrow> bool \<Rightarrow> events \<Rightarrow> int + events" where
  "sysdep_init sigaction_ok setitimer_ok st =
     (let (ok1, st1) = setcatcher sigaction_ok SIGINT KeyboardInterrupt st in
      if \<not> ok1 then Inl 1 else
      let (ok2, st2) = setcatcher sigaction_ok SIGALRM AlarmInterrupt st1 in
      if \<not> ok2 then Inl 1 else
      let (ok3, st3) = setcatcher sigaction_ok SIGPIPE SigpipeInterrupt st2 in
      if \<not> ok3 then Inl 1 else start_alarm_interrupts setitimer_ok st3)"

definition schedule_alarm_interrupt :: "long \<Rightarrow> events \<Rightarrow> long \<times> events" where
  "schedule_alarm_interrupt delta st =
     (let old = (if alarm_time st = - 1 then - 1
                 else (alarm_time st - current_time st) * TICKS_PER_POLL);
          st1 = (if poll_time st \<noteq> - 1 then st\<lparr>poll_time := poll_time st - current_time st\<rparr> else st);
          st2 = st1\<lparr>current_time := 0\<rparr>;
          st3 = (if delta = 0 then (NOTE_EVENT st2)\<lparr>alarm_time := 0\<rparr>
                 else st2\<lparr>alarm_time := long_sdiv delta TICKS_PER_POLL\<rparr>)
      in (old, st3))"

definition CHEAP_TIME :: "events \<Rightarrow> long" where
  "CHEAP_TIME st = current_time st * TICKS_PER_POLL"

text \<open>
  Times in seconds and ticks: \<open>origin\<close> is the static variable \<open>tv_orig\<close> once it is set; \<open>start\<close>
  and \<open>now\<close> are what \<open>gettimeofday\<close> answers, the first only asked for in the first call.
\<close>

definition real_time ::
  "(long \<times> long) option \<Rightarrow> long \<times> long \<Rightarrow> long \<times> long \<Rightarrow> (long \<times> long) \<times> (long \<times> long)" where
  "real_time origin start now =
     (let (osec, ousec) = (case origin of None \<Rightarrow> start | Some orig \<Rightarrow> orig);
          (sec, usec) = now
      in ((sec - osec, long_sdiv (usec - ousec) (long_sdiv 1000000 TICKS_PER_SECOND)), (osec, ousec)))"

definition run_time :: "long \<Rightarrow> long \<Rightarrow> long \<times> long" where
  "run_time clock_tick cpu_time =
     (long_sdiv cpu_time clock_tick,
      long_sdiv (long_smod cpu_time clock_tick * TICKS_PER_SECOND) clock_tick)"

subsection \<open>Links and queues\<close>

fun get_que :: "que \<Rightarrow> events \<Rightarrow> fdque" where
  "get_que Ready st = ready_que st"
| "get_que Pending st = pending_que st"

fun set_que :: "que \<Rightarrow> fdque \<Rightarrow> events \<Rightarrow> events" where
  "set_que Ready q st = st\<lparr>ready_que := q\<rparr>"
| "set_que Pending q st = st\<lparr>pending_que := q\<rparr>"

text \<open>Reading and writing through a \<open>fd_struct **\<close>.\<close>

fun get_link :: "link \<Rightarrow> events \<Rightarrow> ptr option option" where
  "get_link (FirstOf q) st = Some (first (get_que q st))"
| "get_link (NextOf p) st = map_option next (store st p)"

definition set_store :: "ptr \<Rightarrow> fd_struct \<Rightarrow> events \<Rightarrow> events" where
  "set_store p f st = st\<lparr>store := (store st)(p \<mapsto> f)\<rparr>"

fun set_link :: "link \<Rightarrow> ptr option \<Rightarrow> events \<Rightarrow> events option" where
  "set_link (FirstOf q) r st = Some (set_que q ((get_que q st)\<lparr>first := r\<rparr>) st)"
| "set_link (NextOf p) r st = map_option (\<lambda>f. set_store p (f\<lparr>next := r\<rparr>) st) (store st p)"

definition set_lastp :: "que \<Rightarrow> link \<Rightarrow> events \<Rightarrow> events" where
  "set_lastp q l st = set_que q ((get_que q st)\<lparr>lastp := l\<rparr>) st"

definition set_status :: "ptr \<Rightarrow> fd_status \<Rightarrow> events \<Rightarrow> events option" where
  "set_status p s st = map_option (\<lambda>f. set_store p (f\<lparr>status := s\<rparr>) st) (store st p)"

definition complain :: "complaint \<Rightarrow> events \<Rightarrow> events" where
  "complain c st = st\<lparr>complaints := complaints st @ [c]\<rparr>"

definition rmque :: "link \<Rightarrow> que \<Rightarrow> events \<Rightarrow> (ptr \<times> events) option" where
  "rmque l q st = do {
     r \<leftarrow> get_link l st;
     res \<leftarrow> r;
     f \<leftarrow> store st res;
     st1 \<leftarrow> set_link l (next f) st;
     f1 \<leftarrow> store st1 res;
     Some (res, if next f1 = None then set_lastp q l st1 else st1) }"

definition addque :: "ptr \<Rightarrow> que \<Rightarrow> events \<Rightarrow> events option" where
  "addque entry q st = do {
     st1 \<leftarrow> set_link (lastp (get_que q st)) (Some entry) st;
     st2 \<leftarrow> set_link (NextOf entry) None st1;
     Some (set_lastp q (NextOf entry) st2) }"

text \<open>The loop of \<open>findrm\<close> from the link \<open>fp\<close>.\<close>

partial_function (option) findrm_from :: "link \<Rightarrow> ptr \<Rightarrow> que \<Rightarrow> events \<Rightarrow> events option" where
  "findrm_from fp entry q st =
     (case get_link fp st of
        None \<Rightarrow> None
      | Some None \<Rightarrow>
          (case store st entry of
             None \<Rightarrow> None
           | Some f \<Rightarrow> Some (complain (NotOnQueue (fd f) (status f)) st))
      | Some (Some f) \<Rightarrow>
          if f = entry then map_option snd (rmque fp q st)
          else findrm_from (NextOf f) entry q st)"

declare findrm_from.simps [code]

definition findrm :: "ptr \<Rightarrow> que \<Rightarrow> events \<Rightarrow> events option" where
  "findrm entry q st = findrm_from (FirstOf q) entry q st"

subsection \<open>Operations on file descriptors\<close>

definition there_are_ready_ports :: "events \<Rightarrow> bool" where
  "there_are_ready_ports st \<longleftrightarrow> first (ready_que st) \<noteq> None"

definition next_ready_port :: "events \<Rightarrow> (int \<times> events) option" where
  "next_ready_port st = do {
     (p, st1) \<leftarrow> rmque (FirstOf Ready) Ready st;
     st2 \<leftarrow> set_status p FD_QUIESCENT st1;
     f \<leftarrow> store st2 p;
     Some (fd f, st2) }"

text \<open>\<open>new\<close> is what \<open>malloc\<close> answers.\<close>

definition add_fd :: "ptr option \<Rightarrow> int \<Rightarrow> bool \<Rightarrow> events \<Rightarrow> ptr option \<times> events" where
  "add_fd new n inp st =
     (case new of
        None \<Rightarrow> (None, st)
      | Some p \<Rightarrow>
          (Some p, (set_store p \<lparr>fd = n, status = FD_QUIESCENT, is_input = inp, next = None\<rparr> st)
             \<lparr>fds := (fds st)(n := Some p)\<rparr>))"

text \<open>The end of \<open>add_pending_fd\<close>.\<close>

definition make_pending :: "ptr \<Rightarrow> events \<Rightarrow> (bool \<times> events) option" where
  "make_pending data st = do {
     st1 \<leftarrow> set_status data FD_PENDING st;
     st2 \<leftarrow> addque data Pending st1;
     Some (True, if poll_time st2 = - 1
                 then st2\<lparr>poll_time := current_time st2 + poll_interval st2\<rparr> else st2) }"

definition add_pending_fd :: "ptr option \<Rightarrow> int \<Rightarrow> bool \<Rightarrow> events \<Rightarrow> (bool \<times> events) option" where
  "add_pending_fd new n inp st =
     (if \<not> (0 \<le> n \<and> n < FD_SETSIZE) then Some (False, complain (AddPendingRange n) st)
      else case fds st n of
        None \<Rightarrow>
          (case add_fd new n inp st of
             (None, st1) \<Rightarrow> Some (False, st1)
           | (Some data, st1) \<Rightarrow> make_pending data st1)
      | Some data \<Rightarrow> do {
          f \<leftarrow> store st data;
          (case status f of
             FD_PENDING \<Rightarrow> Some (True, st)
           | FD_READY \<Rightarrow> do { st1 \<leftarrow> findrm data Ready st; make_pending data st1 }
           | FD_QUIESCENT \<Rightarrow> make_pending data st) })"

definition free_fd :: "ptr \<Rightarrow> int \<Rightarrow> events \<Rightarrow> events" where
  "free_fd data n st = st\<lparr>store := (store st)(data := None), fds := (fds st)(n := None)\<rparr>"

definition remove_fd :: "int \<Rightarrow> events \<Rightarrow> (bool \<times> events) option" where
  "remove_fd n st =
     (if \<not> (0 \<le> n \<and> n < FD_SETSIZE) then Some (False, complain (RemoveRange n) st)
      else case fds st n of
        None \<Rightarrow> Some (False, st)
      | Some data \<Rightarrow> do {
          f \<leftarrow> store st data;
          st1 \<leftarrow> (case status f of
             FD_PENDING \<Rightarrow> do {
               st1 \<leftarrow> findrm data Pending st;
               Some (if first (pending_que st1) = None then st1\<lparr>poll_time := - 1\<rparr> else st1) }
           | FD_READY \<Rightarrow> findrm data Ready st
           | FD_QUIESCENT \<Rightarrow> Some st);
          Some (True, free_fd data n st1) })"

subsection \<open>Polling\<close>

text \<open>
  The arguments of \<open>select\<close> and what it answers: \<open>errno\<close> when it fails, otherwise the number
  of bits set and the three sets it leaves. A timeout of \<open>None\<close> waits forever.
\<close>

record fd_sets =
  reads :: "int set"
  writes :: "int set"
  alls :: "int set"

type_synonym select_call = "int \<Rightarrow> fd_sets \<Rightarrow> (long \<times> long) option \<Rightarrow> int + (int \<times> fd_sets)"

text \<open>The loop that fills the sets, from the pointer \<open>fdp\<close> on.\<close>

partial_function (option) fill_sets ::
  "ptr option \<Rightarrow> int \<Rightarrow> fd_sets \<Rightarrow> events \<Rightarrow> (int \<times> fd_sets) option" where
  "fill_sets fdp limfd s st =
     (case fdp of
        None \<Rightarrow> Some (limfd, s)
      | Some p \<Rightarrow>
          (case store st p of
             None \<Rightarrow> None
           | Some f \<Rightarrow>
               fill_sets (next f) (if limfd \<le> fd f then fd f + 1 else limfd)
                 (if is_input f then s\<lparr>reads := insert (fd f) (reads s), alls := insert (fd f) (alls s)\<rparr>
                  else s\<lparr>writes := insert (fd f) (writes s), alls := insert (fd f) (alls s)\<rparr>) st))"

declare fill_sets.simps [code]

definition is_set :: "fd_sets \<Rightarrow> fd_struct \<Rightarrow> bool" where
  "is_set s f \<longleftrightarrow> fd f \<in> alls s \<or> fd f \<in> (if is_input f then reads s else writes s)"

text \<open>The loop that moves what is ready, at the link \<open>fdpp\<close>.\<close>

partial_function (option) move_ready :: "int \<Rightarrow> link \<Rightarrow> fd_sets \<Rightarrow> events \<Rightarrow> events option" where
  "move_ready left fdpp s st =
     (if \<not> 0 < left then Some st
      else case get_link fdpp st of
        None \<Rightarrow> None
      | Some None \<Rightarrow> Some st
      | Some (Some p) \<Rightarrow>
          (case store st p of
             None \<Rightarrow> None
           | Some f \<Rightarrow>
               if is_set s f
               then (case rmque fdpp Pending st of
                       None \<Rightarrow> None
                     | Some (_, st1) \<Rightarrow>
                         (case set_status p FD_READY st1 of
                            None \<Rightarrow> None
                          | Some st2 \<Rightarrow>
                              (case addque p Ready st2 of
                                 None \<Rightarrow> None
                               | Some st3 \<Rightarrow> move_ready (left - 1) fdpp s st3)))
               else move_ready left (NextOf p) s st))"

declare move_ready.simps [code]

definition queue_ready_ports ::
  "select_call \<Rightarrow> bool \<Rightarrow> long \<Rightarrow> long \<Rightarrow> events \<Rightarrow> (int \<times> events) option" where
  "queue_ready_ports select wait seconds ticks st =
     (if \<not> wait \<and> first (pending_que st) = None then Some (0, st)
      else do {
        (limfd, s) \<leftarrow> fill_sets (first (pending_que st)) 0
           \<lparr>reads = {}, writes = {}, alls = {}\<rparr> st;
        let tvp = (if wait then if seconds = - 1 then None
                     else Some (seconds, ticks * long_sdiv 1000000 TICKS_PER_SECOND)
                   else Some (0, 0));
        (case select limfd s tvp of
           Inl errno \<Rightarrow> Some (errno, st)
         | Inr (left, s1) \<Rightarrow>
             if left \<le> 0 then Some (0, st)
             else do {
               st1 \<leftarrow> move_ready left (FirstOf Pending) s1 st;
               Some (0, if first (pending_que st1) = None then st1\<lparr>poll_time := - 1\<rparr> else st1) }) })"

datatype event_enum =
    KEYBOARD_INTERRUPT_EVENT | IO_COMPLETION_EVENT int | ALARM_EVENT | ERROR_EVENT int | NO_EVENT

text \<open>Steps 3 to 5 of \<open>get_next_event\<close>, after the poll.\<close>

definition quiet :: "events \<Rightarrow> bool" where
  "quiet st \<longleftrightarrow> keyboard_interrupt_count st = 0 \<and>
     (alarm_time st = - 1 \<or> current_time st <s alarm_time st) \<and>
     (poll_time st = - 1 \<or> current_time st <s poll_time st)"

definition next_event_after_poll :: "events \<Rightarrow> (event_enum \<times> events) option" where
  "next_event_after_poll st =
     (if there_are_ready_ports st
      then do { (n, st1) \<leftarrow> next_ready_port st; Some (IO_COMPLETION_EVENT n, st1) }
      else if alarm_time st \<noteq> - 1 \<and> alarm_time st \<le>s current_time st
      then Some (ALARM_EVENT, st\<lparr>alarm_time := - 1\<rparr>)
      else Some (NO_EVENT, if quiet st then st\<lparr>Spending_eventsPS := False\<rparr> else st))"

definition get_next_event :: "select_call \<Rightarrow> events \<Rightarrow> (event_enum \<times> events) option" where
  "get_next_event select st =
     (if 0 <s keyboard_interrupt_count st
      then Some (KEYBOARD_INTERRUPT_EVENT,
                 st\<lparr>keyboard_interrupt_count := keyboard_interrupt_count st - 1\<rparr>)
      else if poll_time st \<noteq> - 1 \<and> poll_time st \<le>s current_time st
      then do {
        (io_poll_status, st1) \<leftarrow> queue_ready_ports select False 0 0 st;
        if io_poll_status = 0
        then next_event_after_poll (st1\<lparr>poll_time := current_time st1 + poll_interval st1\<rparr>)
        else if io_poll_status \<noteq> EINTR then Some (ERROR_EVENT io_poll_status, st1)
        else next_event_after_poll st1 }
      else next_event_after_poll st)"

definition wait_for_event ::
  "bool \<times> bool \<Rightarrow> select_call \<Rightarrow> long \<Rightarrow> bool \<Rightarrow> events \<Rightarrow> (int + int \<times> events) option" where
  "wait_for_event setitimer_ok select max_wait is_minutes st =
     (case stop_alarm_interrupts (fst setitimer_ok) st of
        Inl code \<Rightarrow> Some (Inl code)
      | Inr st1 \<Rightarrow>
          let seconds = (if max_wait = - 1 then - 1
                         else if is_minutes then max_wait * 60
                         else long_sdiv max_wait TICKS_PER_SECOND);
              ticks = (if max_wait = - 1 \<or> is_minutes then 0
                       else long_smod max_wait TICKS_PER_SECOND)
          in do {
            (status, st3) \<leftarrow>
              (if 0 <s keyboard_interrupt_count st1 then Some (0, st1)
               else do {
                 (status, st2) \<leftarrow> queue_ready_ports select True seconds ticks st1;
                 Some (status, if there_are_ready_ports st2 then NOTE_EVENT st2 else st2) });
            (case start_alarm_interrupts (snd setitimer_ok) st3 of
               Inl code \<Rightarrow> Some (Inl code)
             | Inr st4 \<Rightarrow> Some (Inr (status, st4))) })"

end
