(* ===== verification/Events_Queue.thy ===== *)
theory Events_Queue
  imports Events
begin

text \<open>
  The pointer structure of the two queues of \<open>src/c/unix/event.c\<close>: when a queue holds a list
  of structures, and that \<open>rmque\<close>, \<open>addque\<close> and \<open>findrm\<close> do to the list what they should,
  leaving everything else as it was. The contract of a first-in first-out queue is a
  locale, of which both queues are interpretations.
\<close>

subsection \<open>Lists in the store\<close>

fun chain :: "(ptr \<rightharpoonup> fd_struct) \<Rightarrow> ptr option \<Rightarrow> ptr list \<Rightarrow> ptr option \<Rightarrow> bool" where
  "chain s r [] e = (r = e)"
| "chain s r (p # ps) e =
     (r = Some p \<and> (case s p of None \<Rightarrow> False | Some f \<Rightarrow> chain s (next f) ps e))"

definition link_after :: "que \<Rightarrow> ptr list \<Rightarrow> link" where
  "link_after q xs = (if xs = [] then FirstOf q else NextOf (last xs))"

definition holds :: "que \<Rightarrow> events \<Rightarrow> ptr list \<Rightarrow> bool" where
  "holds q st xs \<longleftrightarrow> chain (store st) (first (get_que q st)) xs None \<and> distinct xs \<and>
     lastp (get_que q st) = link_after q xs"

lemma chain_append: "chain s r (xs @ ys) e \<longleftrightarrow> (\<exists>m. chain s r xs m \<and> chain s m ys e)"
  by (induction s r xs e rule: chain.induct) (auto split: option.splits)

lemma chain_live: "chain s r xs e \<Longrightarrow> p \<in> set xs \<Longrightarrow> \<exists>f. s p = Some f"
  by (induction s r xs e rule: chain.induct) (auto split: option.splits)

lemma chain_cong:
  "(\<And>p. p \<in> set xs \<Longrightarrow> map_option next (s' p) = map_option next (s p)) \<Longrightarrow>
     chain s r xs e \<Longrightarrow> chain s' r xs e"
  by (induction s r xs e rule: chain.induct) (fastforce split: option.splits)+

lemma chain_upd:
  "p \<notin> set xs \<Longrightarrow> chain (s(p \<mapsto> f)) r xs e = chain s r xs e"
  by (induction xs arbitrary: r) (auto split: option.splits)

lemma chain_None: "chain s None xs e \<Longrightarrow> xs = [] \<and> e = None"
  by (cases xs) auto

lemma chain_snoc:
  "chain s r (xs @ [p]) e \<longleftrightarrow> chain s r xs (Some p) \<and> map_option next (s p) = Some e"
  by (auto simp: chain_append split: option.splits)

text \<open>What an operation on the queue \<open>q\<close> may change: the queue, and the links of the members.\<close>

definition other :: "que \<Rightarrow> que" where
  "other q = (case q of Ready \<Rightarrow> Pending | Pending \<Rightarrow> Ready)"

definition unlinked :: "events \<Rightarrow> ptr \<rightharpoonup> fd_struct" where
  "unlinked st = (\<lambda>p. map_option (\<lambda>f. f\<lparr>next := None\<rparr>) (store st p))"

definition but_queues :: "events \<Rightarrow> events" where
  "but_queues st = st\<lparr>store := Map.empty, ready_que := ready_que events_init,
     pending_que := pending_que events_init\<rparr>"

definition only_queue :: "que \<Rightarrow> ptr set \<Rightarrow> events \<Rightarrow> events \<Rightarrow> bool" where
  "only_queue q ps st st' \<longleftrightarrow> but_queues st' = but_queues st \<and> unlinked st' = unlinked st \<and>
     get_que (other q) st' = get_que (other q) st \<and> (\<forall>p. p \<notin> ps \<longrightarrow> store st' p = store st p)"

lemma other_simps [simp]: "other Ready = Pending" "other Pending = Ready"
  by (simp_all add: other_def)

lemma get_set_que [simp]:
  "get_que q (set_que q x st) = x"
  "get_que (other q) (set_que q x st) = get_que (other q) st"
  "store (set_que q x st) = store st"
  "but_queues (set_que q x st) = but_queues st"
  "unlinked (set_que q x st) = unlinked st"
  by (cases q; simp add: but_queues_def unlinked_def)+

lemma set_store_simps [simp]:
  "store (set_store p f st) = (store st)(p \<mapsto> f)"
  "get_que q (set_store p f st) = get_que q st"
  "but_queues (set_store p f st) = but_queues st"
  by (cases q; simp add: set_store_def but_queues_def)+

lemma set_lastp_simps [simp]:
  "get_que q (set_lastp q l st) = (get_que q st)\<lparr>lastp := l\<rparr>"
  "get_que (other q) (set_lastp q l st) = get_que (other q) st"
  "store (set_lastp q l st) = store st"
  "but_queues (set_lastp q l st) = but_queues st"
  "unlinked (set_lastp q l st) = unlinked st"
  by (simp_all add: set_lastp_def)

lemma unlinked_next: "store st p = Some f \<Longrightarrow> unlinked (set_store p (f\<lparr>next := r\<rparr>) st) = unlinked st"
  by (auto simp: unlinked_def)

lemma only_queue_trans:
  "only_queue q ps st st1 \<Longrightarrow> only_queue q ps st1 st2 \<Longrightarrow> only_queue q ps st st2"
  by (simp add: only_queue_def)

text \<open>Writing the link that follows the members \<open>xs\<close>.\<close>

lemma set_link_after:
  assumes "chain (store st) (first (get_que q st)) xs m" "distinct xs"
  obtains st' where "set_link (link_after q xs) r st = Some st'"
    "chain (store st') (first (get_que q st')) xs r" "only_queue q (set xs) st st'"
    "lastp (get_que q st') = lastp (get_que q st)"
    "\<And>p. p \<noteq> last xs \<Longrightarrow> store st' p = store st p" "xs = [] \<Longrightarrow> store st' = store st"
proof (cases xs rule: rev_cases)
  case Nil
  then show ?thesis
    by (intro that [of "set_que q ((get_que q st)\<lparr>first := r\<rparr>) st"])
      (simp_all add: link_after_def only_queue_def)
next
  case (snoc ys l)
  obtain f where f: "store st l = Some f" using chain_live [OF assms(1), of l] snoc by auto
  let ?st = "set_store l (f\<lparr>next := r\<rparr>) st"
  have "chain (store st) (first (get_que q st)) ys (Some l)" "l \<notin> set ys"
    using assms snoc by (simp_all add: chain_snoc)
  then have "chain (store ?st) (first (get_que q ?st)) xs r"
    by (simp add: snoc chain_snoc chain_upd)
  then show ?thesis
    by (intro that [of ?st]) (simp_all add: link_after_def snoc f only_queue_def unlinked_next [OF f])
qed

lemma get_link_after:
  "chain (store st) (first (get_que q st)) xs m \<Longrightarrow> get_link (link_after q xs) st = Some m"
  by (cases xs rule: rev_cases) (auto simp: link_after_def chain_snoc)

subsection \<open>The three operations\<close>

lemma rmque_holds:
  assumes "holds q st (xs @ p # ys)"
  obtains st' where "rmque (link_after q xs) q st = Some (p, st')" "holds q st' (xs @ ys)"
    "only_queue q (set xs) st st'"
proof -
  from assms obtain f where c: "chain (store st) (first (get_que q st)) xs (Some p)"
      "store st p = Some f" "chain (store st) (next f) ys None"
    and d: "distinct (xs @ p # ys)" and l: "lastp (get_que q st) = link_after q (xs @ p # ys)"
    by (auto simp: holds_def chain_append split: option.splits)
  obtain st1 where s1: "set_link (link_after q xs) (next f) st = Some st1"
      "chain (store st1) (first (get_que q st1)) xs (next f)" "only_queue q (set xs) st st1"
      "lastp (get_que q st1) = lastp (get_que q st)" "store st1 p = store st p"
    and off: "\<And>x. x \<notin> set xs \<Longrightarrow> store st1 x = store st x"
    using d by (auto intro: set_link_after [OF c(1), of "next f"] simp: only_queue_def)
  have ys: "chain (store st1) (next f) ys None"
  proof (rule chain_cong [OF _ c(3)])
    fix x assume "x \<in> set ys"
    then have "x \<notin> set xs" using d by auto
    then show "map_option next (store st1 x) = map_option next (store st x)" by (simp add: off)
  qed
  let ?st' = "if next f = None then set_lastp q (link_after q xs) st1 else st1"
  have "rmque (link_after q xs) q st = Some (p, ?st')"
    by (simp add: rmque_def get_link_after [OF c(1)] c(2) s1(1,5))
  moreover have "holds q ?st' (xs @ ys)"
  proof (cases "next f = None")
    case True
    then show ?thesis using s1(2) ys d by (auto simp: holds_def dest: chain_None)
  next
    case False
    then have "ys \<noteq> []" using c(3) by auto
    then have "link_after q (xs @ p # ys) = link_after q (xs @ ys)" by (simp add: link_after_def)
    then show ?thesis using False s1(2,4) ys d l by (auto simp: holds_def chain_append)
  qed
  moreover have "only_queue q (set xs) st ?st'"
    using s1(3) by (simp add: only_queue_def)
  ultimately show ?thesis by (rule that)
qed

lemma rmque_empty: "holds q st [] \<Longrightarrow> rmque (FirstOf q) q st = None"
  by (simp add: holds_def rmque_def)

lemma addque_holds:
  assumes "holds q st xs" "p \<notin> set xs" "store st p = Some f"
  obtains st' where "addque p q st = Some st'" "holds q st' (xs @ [p])"
    "only_queue q (insert p (set xs)) st st'"
proof -
  have c: "chain (store st) (first (get_que q st)) xs None" and d: "distinct xs"
    and l: "lastp (get_que q st) = link_after q xs"
    using assms(1) by (auto simp: holds_def)
  obtain st1 where s1: "set_link (link_after q xs) (Some p) st = Some st1"
      "chain (store st1) (first (get_que q st1)) xs (Some p)" "only_queue q (set xs) st st1"
    by (rule set_link_after [OF c d])
  have p: "store st1 p = Some f" using s1(3) assms(2,3) by (simp add: only_queue_def)
  let ?st2 = "set_store p (f\<lparr>next := None\<rparr>) st1"
  let ?st' = "set_lastp q (NextOf p) ?st2"
  have "addque p q st = Some ?st'" by (simp add: addque_def l s1(1) p)
  moreover have "holds q ?st' (xs @ [p])"
    using s1(2) assms(2) d by (simp add: holds_def chain_snoc chain_upd link_after_def)
  moreover have "only_queue q (insert p (set xs)) st ?st'"
    using s1(3) by (simp add: only_queue_def unlinked_next [OF p])
  ultimately show ?thesis by (rule that)
qed

lemma findrm_from_holds:
  assumes "holds q st (xs @ ys @ p # zs)" "\<And>x. x \<in> set ys \<Longrightarrow> x \<noteq> p"
  shows "findrm_from (link_after q xs) p q st = map_option snd (rmque (link_after q (xs @ ys)) q st)"
  using assms
proof (induction ys arbitrary: xs)
  case Nil
  then have "get_link (link_after q xs) st = Some (Some p)"
    by (intro get_link_after) (auto simp: holds_def chain_append)
  then show ?case by (subst findrm_from.simps) simp
next
  case (Cons y ys)
  then have g: "get_link (link_after q xs) st = Some (Some y)"
    by (intro get_link_after) (auto simp: holds_def chain_append)
  have "findrm_from (link_after q (xs @ [y])) p q st =
      map_option snd (rmque (link_after q ((xs @ [y]) @ ys)) q st)"
    using Cons.prems by (intro Cons.IH) auto
  moreover have "link_after q (xs @ [y]) = NextOf y" by (simp add: link_after_def)
  ultimately show ?case using Cons.prems(2) by (subst findrm_from.simps) (simp add: g)
qed

lemma findrm_holds:
  assumes "holds q st (xs @ p # ys)"
  obtains st' where "findrm p q st = Some st'" "holds q st' (xs @ ys)" "only_queue q (set xs) st st'"
proof -
  obtain st' where r: "rmque (link_after q xs) q st = Some (p, st')" "holds q st' (xs @ ys)"
      "only_queue q (set xs) st st'"
    by (rule rmque_holds [OF assms])
  have "p \<notin> set xs" using assms by (simp add: holds_def)
  then have "findrm_from (link_after q []) p q st = Some st'"
    using findrm_from_holds [of q st "[]" xs p ys] assms r(1) by auto
  then show ?thesis using r by (intro that) (simp_all add: findrm_def link_after_def)
qed

text \<open>The queue an operation is not about keeps its contents.\<close>

lemma holds_other:
  "only_queue q ps st st' \<Longrightarrow> holds (other q) st xs \<Longrightarrow> ps \<inter> set xs = {} \<Longrightarrow> holds (other q) st' xs"
  unfolding holds_def only_queue_def by (auto simp: disjoint_iff elim!: chain_cong [rotated])

subsection \<open>First in, first out\<close>

locale fifo =
  fixes contents :: "'s \<Rightarrow> 'p list \<Rightarrow> bool"
    and live :: "'p \<Rightarrow> 's \<Rightarrow> bool"
    and enq :: "'p \<Rightarrow> 's \<Rightarrow> 's option"
    and deq :: "'s \<Rightarrow> ('p \<times> 's) option"
  assumes enq_back: "contents s xs \<Longrightarrow> live p s \<Longrightarrow> p \<notin> set xs \<Longrightarrow>
      \<exists>s'. enq p s = Some s' \<and> contents s' (xs @ [p]) \<and> (\<forall>x. live x s \<longrightarrow> live x s')"
    and deq_front: "contents s (x # xs) \<Longrightarrow>
      \<exists>s'. deq s = Some (x, s') \<and> contents s' xs \<and> (\<forall>y. live y s \<longrightarrow> live y s')"
    and deq_empty: "contents s [] \<Longrightarrow> deq s = None"
begin

fun enq_all :: "'p list \<Rightarrow> 's \<Rightarrow> 's option" where
  "enq_all [] s = Some s"
| "enq_all (p # ps) s = Option.bind (enq p s) (enq_all ps)"

fun deq_many :: "nat \<Rightarrow> 's \<Rightarrow> ('p list \<times> 's) option" where
  "deq_many 0 s = Some ([], s)"
| "deq_many (Suc n) s =
     Option.bind (deq s) (\<lambda>(p, s1). map_option (\<lambda>(ps, s2). (p # ps, s2)) (deq_many n s1))"

lemma enq_all_back:
  "contents s xs \<Longrightarrow> distinct (xs @ ps) \<Longrightarrow> \<forall>p\<in>set ps. live p s \<Longrightarrow>
     \<exists>s'. enq_all ps s = Some s' \<and> contents s' (xs @ ps)"
proof (induction ps arbitrary: s xs)
  case (Cons p ps)
  from enq_back [of s xs p] Cons.prems obtain s1 where s1: "enq p s = Some s1"
      "contents s1 (xs @ [p])" "\<forall>x. live x s \<longrightarrow> live x s1"
    by auto
  then show ?case using Cons.IH [of s1 "xs @ [p]"] Cons.prems by auto
qed simp

lemma deq_many_front:
  "contents s (ps @ xs) \<Longrightarrow> \<exists>s'. deq_many (length ps) s = Some (ps, s') \<and> contents s' xs"
proof (induction ps arbitrary: s)
  case (Cons p ps)
  then obtain s1 where "deq s = Some (p, s1)" "contents s1 (ps @ xs)"
    using deq_front [of s p "ps @ xs"] by auto
  then show ?case using Cons.IH [of s1] by auto
qed simp

lemma first_in_first_out:
  assumes "contents s []" "distinct ps" "\<forall>p\<in>set ps. live p s"
  shows "\<exists>s1 s2. enq_all ps s = Some s1 \<and> deq_many (length ps) s1 = Some (ps, s2) \<and> contents s2 []"
proof -
  obtain s1 where "enq_all ps s = Some s1" "contents s1 ps"
    using enq_all_back [of s "[]" ps] assms by auto
  then show ?thesis using deq_many_front [of s1 ps "[]"] by auto
qed

end

definition allocated :: "ptr \<Rightarrow> events \<Rightarrow> bool" where
  "allocated p st \<longleftrightarrow> store st p \<noteq> None"

lemma only_queue_allocated: "only_queue q ps st st' \<Longrightarrow> allocated p st' \<longleftrightarrow> allocated p st"
  unfolding only_queue_def allocated_def unlinked_def by (metis map_option_is_None)

lemma queue_laws:
  shows "holds q st xs \<Longrightarrow> allocated p st \<Longrightarrow> p \<notin> set xs \<Longrightarrow>
      \<exists>st'. addque p q st = Some st' \<and> holds q st' (xs @ [p]) \<and> (\<forall>x. allocated x st \<longrightarrow> allocated x st')"
    and "holds q st (x # xs) \<Longrightarrow>
      \<exists>st'. rmque (FirstOf q) q st = Some (x, st') \<and> holds q st' xs \<and> (\<forall>y. allocated y st \<longrightarrow> allocated y st')"
proof -
  show "\<exists>st'. addque p q st = Some st' \<and> holds q st' (xs @ [p]) \<and> (\<forall>x. allocated x st \<longrightarrow> allocated x st')"
    if h: "holds q st xs" "allocated p st" "p \<notin> set xs"
  proof -
    from h(2) obtain f where "store st p = Some f" by (auto simp: allocated_def)
    then obtain st' where "addque p q st = Some st'" "holds q st' (xs @ [p])"
        "only_queue q (insert p (set xs)) st st'"
      by (rule addque_holds [OF h(1,3)])
    then show ?thesis by (simp add: only_queue_allocated)
  qed
  show "\<exists>st'. rmque (FirstOf q) q st = Some (x, st') \<and> holds q st' xs \<and> (\<forall>y. allocated y st \<longrightarrow> allocated y st')"
    if h: "holds q st (x # xs)"
  proof -
    from h have "holds q st ([] @ x # xs)" by simp
    then obtain st' where "rmque (link_after q []) q st = Some (x, st')" "holds q st' ([] @ xs)"
        "only_queue q (set []) st st'"
      by (rule rmque_holds)
    then show ?thesis by (simp add: only_queue_allocated link_after_def)
  qed
qed

interpretation readyq: fifo "holds Ready" allocated "\<lambda>p. addque p Ready" "rmque (FirstOf Ready) Ready"
  by unfold_locales (erule (2) queue_laws(1), erule queue_laws(2), erule rmque_empty)

interpretation pendingq: fifo "holds Pending" allocated "\<lambda>p. addque p Pending" "rmque (FirstOf Pending) Pending"
  by unfold_locales (erule (2) queue_laws(1), erule queue_laws(2), erule rmque_empty)

end
