(* ===== verification/Events_Refine.thy ===== *)
theory Events_Refine
  imports Events_Queue
begin

text \<open>
  What the bookkeeping of file descriptors promises: two lists of descriptor numbers, the
  ready and the pending ones, and the direction each known descriptor was registered with.
  The operations of \<open>src/c/unix/event.c\<close> on linked structures refine the operations on
  lists.
\<close>

subsection \<open>The abstract queues\<close>

record fd_lists =
  ready_fds :: "int list"
  pending_fds :: "int list"
  direction :: "int \<Rightarrow> bool option"

definition pend :: "int \<Rightarrow> bool \<Rightarrow> fd_lists \<Rightarrow> fd_lists" where
  "pend n inp a =
     (if n \<in> set (pending_fds a) then a
      else a\<lparr>ready_fds := remove1 n (ready_fds a), pending_fds := pending_fds a @ [n],
             direction := (case direction a n of
               None \<Rightarrow> (direction a)(n := Some inp) | Some i \<Rightarrow> direction a)\<rparr>)"

definition forget :: "int \<Rightarrow> fd_lists \<Rightarrow> fd_lists" where
  "forget n a = a\<lparr>ready_fds := remove1 n (ready_fds a), pending_fds := remove1 n (pending_fds a),
     direction := (direction a)(n := None)\<rparr>"

definition take_ready :: "fd_lists \<Rightarrow> fd_lists" where
  "take_ready a = a\<lparr>ready_fds := tl (ready_fds a)\<rparr>"

definition complete :: "(int \<Rightarrow> bool) \<Rightarrow> fd_lists \<Rightarrow> fd_lists" where
  "complete P a = a\<lparr>ready_fds := ready_fds a @ filter P (pending_fds a),
     pending_fds := filter (\<lambda>n. \<not> P n) (pending_fds a)\<rparr>"

subsection \<open>The representation\<close>

text \<open>A structure without its link.\<close>

type_synonym info = "int \<times> fd_status \<times> bool"

definition info_of :: "events \<Rightarrow> ptr \<Rightarrow> info option" where
  "info_of st p = map_option (\<lambda>f. (fd f, status f, is_input f)) (store st p)"

text \<open>
  Every structure is the one its descriptor leads to, and is on the queue its status names.
\<close>

definition members :: "(ptr \<Rightarrow> info option) \<Rightarrow> (int \<Rightarrow> ptr option) \<Rightarrow> ptr list \<Rightarrow> ptr list \<Rightarrow> bool" where
  "members I F rs ps \<longleftrightarrow> set rs \<inter> set ps = {} \<and>
     (\<forall>p n s i. I p = Some (n, s, i) \<longrightarrow> F n = Some p \<and> 0 \<le> n \<and> n < FD_SETSIZE \<and>
        (s = FD_READY \<longleftrightarrow> p \<in> set rs) \<and> (s = FD_PENDING \<longleftrightarrow> p \<in> set ps)) \<and>
     (\<forall>n p. F n = Some p \<longrightarrow> (\<exists>s i. I p = Some (n, s, i)))"

definition queues_ok :: "events \<Rightarrow> ptr list \<Rightarrow> ptr list \<Rightarrow> bool" where
  "queues_ok st rs ps \<longleftrightarrow> holds Ready st rs \<and> holds Pending st ps \<and>
     members (info_of st) (fds st) rs ps"

definition lists_of :: "(ptr \<Rightarrow> info option) \<Rightarrow> (int \<Rightarrow> ptr option) \<Rightarrow> ptr list \<Rightarrow> ptr list \<Rightarrow> fd_lists" where
  "lists_of I F rs ps = \<lparr>ready_fds = map (\<lambda>p. fst (the (I p))) rs,
     pending_fds = map (\<lambda>p. fst (the (I p))) ps,
     direction = (\<lambda>n. Option.bind (F n) (\<lambda>p. map_option (snd \<circ> snd) (I p)))\<rparr>"

definition represents :: "events \<Rightarrow> fd_lists \<Rightarrow> bool" where
  "represents st a \<longleftrightarrow> (\<exists>rs ps. queues_ok st rs ps \<and> a = lists_of (info_of st) (fds st) rs ps)"

lemma info_of_unlinked: "info_of st p = map_option (\<lambda>f. (fd f, status f, is_input f)) (unlinked st p)"
  by (simp add: info_of_def unlinked_def option.map_comp comp_def)

lemma info_unlinked: "unlinked st' = unlinked st \<Longrightarrow> info_of st' = info_of st"
  by (simp add: info_of_unlinked fun_eq_iff)

lemma only_queue_info: "only_queue q ps st st' \<Longrightarrow> info_of st' = info_of st"
  by (auto simp: only_queue_def intro: info_unlinked)

lemma only_queue_fields:
  assumes "only_queue q ps st st'"
  shows "fds st' = fds st" "complaints st' = complaints st" "poll_time st' = poll_time st"
    "current_time st' = current_time st" "poll_interval st' = poll_interval st"
proof -
  have e: "but_queues st' = but_queues st" using assms by (simp add: only_queue_def)
  show "fds st' = fds st" using arg_cong [OF e, of fds] by (simp add: but_queues_def)
  show "complaints st' = complaints st" using arg_cong [OF e, of complaints] by (simp add: but_queues_def)
  show "poll_time st' = poll_time st" using arg_cong [OF e, of poll_time] by (simp add: but_queues_def)
  show "current_time st' = current_time st" using arg_cong [OF e, of current_time] by (simp add: but_queues_def)
  show "poll_interval st' = poll_interval st" using arg_cong [OF e, of poll_interval] by (simp add: but_queues_def)
qed

lemma info_live: "info_of st p = Some i \<Longrightarrow> \<exists>f. store st p = Some f"
  by (auto simp: info_of_def)

lemma holds_set_store:
  assumes "holds q st xs" "store st p = Some f" "next f' = next f"
  shows "holds q (set_store p f' st) xs"
  using assms by (auto simp: holds_def intro: chain_cong [rotated])

lemma set_status_info:
  assumes "info_of st p = Some (n, s, i)"
  obtains st' where "set_status p s' st = Some st'" "info_of st' = (info_of st)(p \<mapsto> (n, s', i))"
    "\<And>q xs. holds q st xs \<Longrightarrow> holds q st' xs" "fds st' = fds st" "complaints st' = complaints st"
    "poll_time st' = poll_time st" "current_time st' = current_time st"
    "poll_interval st' = poll_interval st"
proof -
  obtain f where f: "store st p = Some f" "fd f = n" "is_input f = i"
    using assms by (auto simp: info_of_def)
  show ?thesis
  proof
    show "set_status p s' st = Some (set_store p (f\<lparr>status := s'\<rparr>) st)" by (simp add: set_status_def f)
  qed (auto simp: info_of_def f set_store_def fun_eq_iff intro: holds_set_store [OF _ f(1), unfolded set_store_def])
qed

lemma holds_live: "holds q st xs \<Longrightarrow> p \<in> set xs \<Longrightarrow> \<exists>i. info_of st p = Some i"
  using chain_live [of "store st" _ xs None p] by (auto simp: holds_def info_of_def)

lemma holds_fields [simp]:
  "holds q (st\<lparr>poll_time := t\<rparr>) xs = holds q st xs"
  "holds q (st\<lparr>fds := F\<rparr>) xs = holds q st xs"
  "holds q (complain c st) xs = holds q st xs"
  by (cases q; simp add: holds_def complain_def)+

lemma info_fields [simp]:
  "info_of (st\<lparr>poll_time := t\<rparr>) = info_of st"
  "info_of (st\<lparr>fds := F\<rparr>) = info_of st"
  "info_of (complain c st) = info_of st"
  by (simp_all add: info_of_def complain_def fun_eq_iff)

subsection \<open>Members of the lists\<close>

lemma members_info:
  "members I F rs ps \<Longrightarrow> I p = Some (n, s, i) \<Longrightarrow> F n = Some p \<and> 0 \<le> n \<and> n < FD_SETSIZE \<and>
     (s = FD_READY \<longleftrightarrow> p \<in> set rs) \<and> (s = FD_PENDING \<longleftrightarrow> p \<in> set ps)"
  unfolding members_def by blast

lemma membersI:
  assumes "set rs \<inter> set ps = {}"
    and "\<And>p n s i. I p = Some (n, s, i) \<Longrightarrow> F n = Some p \<and> 0 \<le> n \<and> n < FD_SETSIZE \<and>
     (s = FD_READY \<longleftrightarrow> p \<in> set rs) \<and> (s = FD_PENDING \<longleftrightarrow> p \<in> set ps)"
    and "\<And>n p. F n = Some p \<Longrightarrow> \<exists>s i. I p = Some (n, s, i)"
  shows "members I F rs ps"
  using assms unfolding members_def by blast

lemma members_disjoint: "members I F rs ps \<Longrightarrow> set rs \<inter> set ps = {}"
  by (simp add: members_def)

lemma members_fds: "members I F rs ps \<Longrightarrow> F n = Some p \<Longrightarrow> \<exists>s i. I p = Some (n, s, i)"
  unfolding members_def by blast

lemma representsI:
  "queues_ok st rs ps \<Longrightarrow> lists_of (info_of st) (fds st) rs ps = a \<Longrightarrow> represents st a"
  unfolding represents_def by blast

lemma members_inj:
  "members I F rs ps \<Longrightarrow> I p = Some (n, s, i) \<Longrightarrow> I q = Some (n, s', i') \<Longrightarrow> p = q"
  unfolding members_def by (metis option.inject)

lemma members_remove1:
  assumes "members I F rs ps" "\<forall>q\<in>set (xs @ p # ys). \<exists>i. I q = Some i" "distinct (xs @ p # ys)"
    "I p = Some (n, s, i)"
  shows "remove1 n (map (\<lambda>p. fst (the (I p))) (xs @ p # ys)) = map (\<lambda>p. fst (the (I p))) (xs @ ys)"
proof -
  have "fst (the (I q)) \<noteq> n" if "q \<in> set xs" for q
  proof
    assume e: "fst (the (I q)) = n"
    have "q \<in> set (xs @ p # ys)" using that by simp
    with assms(2) obtain j where j: "I q = Some j" by blast
    with e obtain s' i' where "I q = Some (n, s', i')" by (cases j) auto
    from members_inj [OF assms(1,4) this] that assms(3) show False by auto
  qed
  then have "n \<notin> set (map (\<lambda>p. fst (the (I p))) xs)" by auto
  then show ?thesis by (simp add: remove1_append assms(4))
qed

lemma members_notin:
  assumes "members I F rs ps" "\<forall>q\<in>set xs. \<exists>i. I q = Some i" "p \<notin> set xs" "I p = Some (n, s, i)"
  shows "n \<notin> set (map (\<lambda>p. fst (the (I p))) xs)"
proof
  assume "n \<in> set (map (\<lambda>p. fst (the (I p))) xs)"
  then obtain q where "q \<in> set xs" "fst (the (I q)) = n" by auto
  moreover with assms(2) obtain j where "I q = Some j" by auto
  ultimately obtain s' i' where "q \<in> set xs" "I q = Some (n, s', i')" by (cases j) auto
  then show False using members_inj [OF assms(1,4)] assms(3) by blast
qed

subsection \<open>Registering a pending operation\<close>

lemma make_pending_ok:
  assumes "holds Ready st rs" "holds Pending st ps" "set rs \<inter> set ps = {}" "p \<notin> set rs" "p \<notin> set ps"
    "info_of st p = Some (n, s, i)"
  obtains st' where "make_pending p st = Some (True, st')" "holds Ready st' rs"
    "holds Pending st' (ps @ [p])" "info_of st' = (info_of st)(p \<mapsto> (n, FD_PENDING, i))"
    "fds st' = fds st" "complaints st' = complaints st"
proof -
  obtain st1 where s1: "set_status p FD_PENDING st = Some st1"
      "info_of st1 = (info_of st)(p \<mapsto> (n, FD_PENDING, i))"
      "\<And>q xs. holds q st xs \<Longrightarrow> holds q st1 xs" "fds st1 = fds st" "complaints st1 = complaints st"
    using set_status_info [OF assms(6), of FD_PENDING] by blast
  have "info_of st1 p = Some (n, FD_PENDING, i)" using s1(2) by simp
  then obtain f where "store st1 p = Some f" by (auto dest: info_live)
  then obtain st2 where s2: "addque p Pending st1 = Some st2" "holds Pending st2 (ps @ [p])"
      "only_queue Pending (insert p (set ps)) st1 st2"
    by (rule addque_holds [OF s1(3) [OF assms(2)] assms(5)])
  have "holds Ready st2 rs"
    using holds_other [OF s2(3), of rs] s1(3) [OF assms(1)] assms(3,4) by (auto simp: disjoint_iff)
  then show ?thesis
    using s1 s2 only_queue_info [OF s2(3)] only_queue_fields [OF s2(3)]
    by (intro that [of "if poll_time st2 = - 1
                 then st2\<lparr>poll_time := current_time st2 + poll_interval st2\<rparr> else st2"])
      (simp_all add: make_pending_def)
qed

lemma members_pend:
  assumes "members I F rs ps" "I p = Some (n, s, i)" "p \<notin> set ps" "distinct rs"
  shows "members (I(p \<mapsto> (n, FD_PENDING, i))) F (remove1 p rs) (ps @ [p])"
proof -
  note info = members_info [OF assms(1)]
  have rs: "set (remove1 p rs) = set rs - {p}" using assms(4) by simp
  show ?thesis
  proof (rule membersI)
    show "set (remove1 p rs) \<inter> set (ps @ [p]) = {}"
      using members_disjoint [OF assms(1)] by (auto simp: rs)
    show "F m = Some q \<and> 0 \<le> m \<and> m < FD_SETSIZE \<and> (t = FD_READY \<longleftrightarrow> q \<in> set (remove1 p rs)) \<and>
        (t = FD_PENDING \<longleftrightarrow> q \<in> set (ps @ [p]))"
      if "(I(p \<mapsto> (n, FD_PENDING, i))) q = Some (m, t, j)" for q m t j
      using that info [OF assms(2)] info [of q m t j] by (cases "q = p") (simp_all add: rs)
    show "\<exists>t j. (I(p \<mapsto> (n, FD_PENDING, i))) q = Some (m, t, j)" if "F m = Some q" for m q
      using members_fds [OF assms(1) that] assms(2) by (cases "q = p") auto
  qed
qed

lemma lists_of_pend:
  assumes "members I F rs ps" "I p = Some (n, s, i)" "p \<notin> set ps" "distinct rs"
    "\<forall>q\<in>set rs. \<exists>j. I q = Some j" "\<forall>q\<in>set ps. \<exists>j. I q = Some j"
  shows "lists_of (I(p \<mapsto> (n, FD_PENDING, i))) F (remove1 p rs) (ps @ [p]) = pend n inp (lists_of I F rs ps)"
proof -
  have F: "F n = Some p" using assms(1,2) by (simp add: members_def)
  have n: "n \<notin> set (map (\<lambda>p. fst (the (I p))) ps)"
    by (rule members_notin [OF assms(1,6,3,2)])
  have r: "remove1 n (map (\<lambda>p. fst (the (I p))) rs) = map (\<lambda>p. fst (the (I p))) (remove1 p rs)"
  proof (cases "p \<in> set rs")
    case True
    then obtain xs ys where rs: "rs = xs @ p # ys" by (auto dest: split_list)
    then have "remove1 p rs = xs @ ys" using assms(4) by (simp add: remove1_append)
    then show ?thesis
      using members_remove1 [OF assms(1), of xs p ys] assms(2,4,5) by (simp add: rs)
  next
    case False
    then show ?thesis
      using members_notin [OF assms(1,5) False assms(2)] by (simp add: remove1_idem)
  qed
  have same: "fst (the ((I(p \<mapsto> (n, FD_PENDING, i))) q)) = fst (the (I q))" for q
    by (simp add: assms(2))
  have "Option.bind (F m) (\<lambda>q. map_option (snd \<circ> snd) ((I(p \<mapsto> (n, FD_PENDING, i))) q)) =
      Option.bind (F m) (\<lambda>q. map_option (snd \<circ> snd) (I q))" for m
    by (cases "F m") (auto simp: assms(2))
  then show ?thesis using n r by (simp add: lists_of_def pend_def same F assms(2))
qed

lemma members_new:
  assumes "members I F rs ps" "I p = None" "F n = None" "0 \<le> n" "n < FD_SETSIZE"
    "p \<notin> set rs" "p \<notin> set ps"
  shows "members (I(p \<mapsto> (n, FD_QUIESCENT, i))) (F(n \<mapsto> p)) rs ps"
  using assms unfolding members_def by (auto; metis option.distinct(1) option.inject)

lemma queues_ok_live:
  assumes "queues_ok st rs ps"
  shows "\<forall>q\<in>set rs. \<exists>j. info_of st q = Some j" "\<forall>q\<in>set ps. \<exists>j. info_of st q = Some j"
    "distinct rs" "distinct ps" "set rs \<inter> set ps = {}"
proof -
  have h: "holds Ready st rs" "holds Pending st ps" and m: "members (info_of st) (fds st) rs ps"
    using assms by (simp_all add: queues_ok_def)
  show "\<forall>q\<in>set rs. \<exists>j. info_of st q = Some j" "\<forall>q\<in>set ps. \<exists>j. info_of st q = Some j"
    using holds_live [OF h(1)] holds_live [OF h(2)] by blast+
  show "distinct rs" "distinct ps" using h by (simp_all add: holds_def)
  show "set rs \<inter> set ps = {}" using m by (simp add: members_def)
qed

lemma make_pending_refines:
  assumes "queues_ok st rs ps" "info_of st p = Some (n, s, i)" "p \<notin> set rs" "p \<notin> set ps"
  obtains st' where "make_pending p st = Some (True, st')" "complaints st' = complaints st"
    "represents st' (pend n inp (lists_of (info_of st) (fds st) rs ps))"
proof -
  note live = queues_ok_live [OF assms(1)]
  have h: "holds Ready st rs" "holds Pending st ps" and m: "members (info_of st) (fds st) rs ps"
    using assms(1) by (simp_all add: queues_ok_def)
  obtain st' where st': "make_pending p st = Some (True, st')" "holds Ready st' rs"
    "holds Pending st' (ps @ [p])" "info_of st' = (info_of st)(p \<mapsto> (n, FD_PENDING, i))"
    "fds st' = fds st" "complaints st' = complaints st"
    by (rule make_pending_ok [OF h live(5) assms(3,4,2)])
  have "members (info_of st') (fds st') rs (ps @ [p])"
    using members_pend [OF m assms(2,4) live(3)] by (simp add: st' remove1_idem assms(3))
  then have "queues_ok st' rs (ps @ [p])" using st' by (simp add: queues_ok_def)
  moreover have "lists_of (info_of st') (fds st') rs (ps @ [p]) = pend n inp (lists_of (info_of st) (fds st) rs ps)"
    using lists_of_pend [OF m assms(2,4) live(3,1,2), of inp] by (simp add: st' remove1_idem assms(3))
  ultimately show ?thesis using st' by (intro that [of st']) (simp_all only: representsI)
qed

text \<open>The three ways into the pending queue.\<close>

lemma add_new_refines:
  assumes "queues_ok st rs ps" "0 \<le> n" "n < FD_SETSIZE" "fds st n = None" "store st p = None"
  obtains st' where "add_pending_fd (Some p) n inp st = Some (True, st')" "complaints st' = complaints st"
    "represents st' (pend n inp (lists_of (info_of st) (fds st) rs ps))"
proof -
  note live = queues_ok_live [OF assms(1)]
  have h: "holds Ready st rs" "holds Pending st ps" and m: "members (info_of st) (fds st) rs ps"
    using assms(1) by (simp_all add: queues_ok_def)
  have I: "info_of st p = None" using assms(5) by (simp add: info_of_def)
  then have p: "p \<notin> set rs" "p \<notin> set ps" using live(1,2) by auto
  define st1 where "st1 = (set_store p \<lparr>fd = n, status = FD_QUIESCENT, is_input = inp, next = None\<rparr> st)
             \<lparr>fds := (fds st)(n := Some p)\<rparr>"
  have i1: "info_of st1 = (info_of st)(p \<mapsto> (n, FD_QUIESCENT, inp))" "fds st1 = (fds st)(n \<mapsto> p)"
    "complaints st1 = complaints st"
    by (auto simp: st1_def info_of_def set_store_def)
  have hs: "holds q st1 xs" if "holds q st xs" "p \<notin> set xs" for q xs
    using that by (simp add: st1_def) (simp add: holds_def chain_upd)
  have ok: "queues_ok st1 rs ps"
    using members_new [OF m I assms(4,2,3) p, of inp] h hs p by (simp add: queues_ok_def i1)
  obtain st' where st': "make_pending p st1 = Some (True, st')" "complaints st' = complaints st1"
      "represents st' (pend n inp (lists_of (info_of st1) (fds st1) rs ps))"
    by (rule make_pending_refines [OF ok _ p]) (simp add: i1)
  have add: "add_pending_fd (Some p) n inp st = Some (True, st')"
    using assms(2-4) st'(1) by (simp add: add_pending_fd_def add_fd_def st1_def)
  have "n \<notin> set (map (\<lambda>p. fst (the (info_of st p))) ps)" "n \<notin> set (map (\<lambda>p. fst (the (info_of st p))) rs)"
    using live(1,2) assms(4) members_info [OF m] by fastforce+
  moreover have "map (\<lambda>q. fst (the (info_of st1 q))) rs = map (\<lambda>q. fst (the (info_of st q))) rs"
    "map (\<lambda>q. fst (the (info_of st1 q))) ps = map (\<lambda>q. fst (the (info_of st q))) ps"
    using p by (auto simp: i1)
  moreover have "Option.bind (fds st1 k) (\<lambda>q. map_option (snd \<circ> snd) (info_of st1 q)) =
      (if k = n then Some inp else Option.bind (fds st k) (\<lambda>q. map_option (snd \<circ> snd) (info_of st q)))" for k
    using members_fds [OF m, of k] I by (cases "fds st k") (auto simp: i1)
  ultimately have "pend n inp (lists_of (info_of st1) (fds st1) rs ps) =
      pend n inp (lists_of (info_of st) (fds st) rs ps)"
    using assms(4) by (simp only: lists_of_def pend_def) (auto simp: fun_eq_iff)
  with st' i1 add show ?thesis by (intro that [of st']) auto
qed

lemma findrm_other:
  assumes "holds q st (xs @ p # ys)" "holds (other q) st zs" "set xs \<inter> set zs = {}"
  obtains st' where "findrm p q st = Some st'" "holds q st' (xs @ ys)" "holds (other q) st' zs"
    "info_of st' = info_of st" "fds st' = fds st" "complaints st' = complaints st"
    "poll_time st' = poll_time st" "only_queue q (set xs) st st'"
proof -
  obtain st' where st': "findrm p q st = Some st'" "holds q st' (xs @ ys)" "only_queue q (set xs) st st'"
    by (rule findrm_holds [OF assms(1)])
  show ?thesis
    using st' holds_other [OF st'(3) assms(2,3)] only_queue_info [OF st'(3)] only_queue_fields [OF st'(3)]
    by (intro that [of st']) simp_all
qed

lemma add_ready_refines:
  assumes "queues_ok st rs ps" "info_of st p = Some (n, FD_READY, i)"
  obtains st' where "add_pending_fd new n inp st = Some (True, st')" "complaints st' = complaints st"
    "represents st' (pend n inp (lists_of (info_of st) (fds st) rs ps))"
proof -
  note live = queues_ok_live [OF assms(1)]
  have h: "holds Ready st rs" "holds Pending st ps" and m: "members (info_of st) (fds st) rs ps"
    using assms(1) by (simp_all add: queues_ok_def)
  note inf = members_info [OF m assms(2)]
  then obtain xs ys where rs: "rs = xs @ p # ys" by (auto dest: split_list)
  obtain f where f: "store st p = Some f" "fd f = n" "status f = FD_READY"
    using assms(2) by (auto simp: info_of_def)
  obtain st1 where s1: "findrm p Ready st = Some st1" "holds Ready st1 (xs @ ys)" "holds (other Ready) st1 ps"
      "info_of st1 = info_of st" "fds st1 = fds st" "complaints st1 = complaints st"
    by (rule findrm_other [of Ready st xs p ys ps]) (use h rs live(5) in auto)
  have p: "p \<notin> set (xs @ ys)" "p \<notin> set ps" using live(3,5) rs by auto
  have disj: "set (xs @ ys) \<inter> set ps = {}" using live(5) rs by auto
  have r1: "remove1 p rs = xs @ ys" using p by (simp add: rs remove1_append)
  obtain st' where st': "make_pending p st1 = Some (True, st')" "holds Ready st' (xs @ ys)"
    "holds Pending st' (ps @ [p])" "info_of st' = (info_of st1)(p \<mapsto> (n, FD_PENDING, i))"
    "fds st' = fds st1" "complaints st' = complaints st1"
    by (rule make_pending_ok [OF s1(2) _ disj p, of n FD_READY i]) (use s1 assms(2) in simp_all)
  have "add_pending_fd new n inp st = Some (True, st')"
    using inf f s1(1) st'(1) by (simp add: add_pending_fd_def)
  moreover have "queues_ok st' (xs @ ys) (ps @ [p])"
    using members_pend [OF m assms(2) p(2) live(3)] st' s1 by (simp add: queues_ok_def r1)
  moreover have "lists_of (info_of st') (fds st') (xs @ ys) (ps @ [p]) =
      pend n inp (lists_of (info_of st) (fds st) rs ps)"
    using lists_of_pend [OF m assms(2) p(2) live(3,1,2), of inp] by (simp add: st' s1 r1)
  ultimately show ?thesis using st' s1 by (intro that [of st']) (simp_all only: representsI)
qed

lemma direction_fds:
  "members (info_of st) (fds st) rs ps \<Longrightarrow>
     direction (lists_of (info_of st) (fds st) rs ps) n = None \<longleftrightarrow> fds st n = None"
  using members_fds [of "info_of st" "fds st" rs ps n] by (cases "fds st n") (auto simp: lists_of_def)

lemma pending_fds_iff:
  assumes "queues_ok st rs ps" "info_of st p = Some (n, s, i)"
  shows "n \<in> set (pending_fds (lists_of (info_of st) (fds st) rs ps)) \<longleftrightarrow> s = FD_PENDING"
proof -
  note live = queues_ok_live [OF assms(1)]
  have m: "members (info_of st) (fds st) rs ps" using assms(1) by (simp add: queues_ok_def)
  have "p \<in> set ps \<Longrightarrow> n \<in> (\<lambda>p. fst (the (info_of st p))) ` set ps"
    using assms(2) by (intro image_eqI [of _ _ p]) simp_all
  moreover have "p \<notin> set ps \<Longrightarrow> n \<notin> set (map (\<lambda>p. fst (the (info_of st p))) ps)"
    using members_notin [OF m live(2) _ assms(2)] by simp
  ultimately show ?thesis using members_info [OF m assms(2)] by (auto simp: lists_of_def)
qed

lemma add_pending_fd_ok:
  assumes "represents st a" "\<forall>p. new = Some p \<longrightarrow> store st p = None"
  shows "\<exists>ok st'. add_pending_fd new n inp st = Some (ok, st') \<and>
     (if \<not> (0 \<le> n \<and> n < FD_SETSIZE) then \<not> ok \<and> st' = complain (AddPendingRange n) st
      else if direction a n = None \<and> new = None then \<not> ok \<and> st' = st
      else ok \<and> represents st' (pend n inp a) \<and> complaints st' = complaints st)"
proof -
  obtain rs ps where ok: "queues_ok st rs ps" and a: "a = lists_of (info_of st) (fds st) rs ps"
    using assms(1) by (auto simp: represents_def)
  have m: "members (info_of st) (fds st) rs ps" using ok by (simp add: queues_ok_def)
  show ?thesis
  proof (cases "0 \<le> n \<and> n < FD_SETSIZE")
    case False
    then show ?thesis by (auto simp: add_pending_fd_def)
  next
    case range: True
    show ?thesis
    proof (cases "fds st n")
      case None
      then have d: "direction a n = None" using direction_fds [OF m] a by simp
      show ?thesis
      proof (cases new)
        case None': None
        then show ?thesis using range None d by (auto simp: add_pending_fd_def add_fd_def)
      next
        case (Some p)
        obtain st' where "add_pending_fd (Some p) n inp st = Some (True, st')"
            "complaints st' = complaints st" "represents st' (pend n inp a)"
          using add_new_refines [OF ok _ _ None, of p inp] range assms(2) Some a by auto
        then show ?thesis using range Some by auto
      qed
    next
      case (Some p)
      then obtain s i where i: "info_of st p = Some (n, s, i)" using members_fds [OF m] by blast
      then obtain f where f: "store st p = Some f" "fd f = n" "status f = s" by (auto simp: info_of_def)
      have d: "direction a n \<noteq> None" using direction_fds [OF m] a Some by simp
      have "\<exists>st'. add_pending_fd new n inp st = Some (True, st') \<and> complaints st' = complaints st \<and>
          represents st' (pend n inp a)"
      proof (cases s)
        case FD_PENDING
        then have "pend n inp a = a" using pending_fds_iff [OF ok i] a by (simp add: pend_def)
        then show ?thesis using range Some f FD_PENDING assms(1) by (simp add: add_pending_fd_def)
      next
        case FD_READY
        then show ?thesis using add_ready_refines [OF ok, of p n i new inp] i a by metis
      next
        case FD_QUIESCENT
        then have "p \<notin> set rs" "p \<notin> set ps" using members_info [OF m i] by auto
        then obtain st' where "make_pending p st = Some (True, st')" "complaints st' = complaints st"
            "represents st' (pend n inp a)"
          using make_pending_refines [OF ok i, of inp] a by metis
        then show ?thesis using range Some f FD_QUIESCENT by (simp add: add_pending_fd_def)
      qed
      then show ?thesis using range d by auto
    qed
  qed
qed

text \<open>
  Property C25. Registering a pending operation refines the abstract one: on a state that
  represents the lists \<open>a\<close>, \<open>add_pending_fd\<close> never follows a bad pointer and never finds an
  entry missing from its queue; it fails, changing nothing, exactly when the descriptor is
  out of range or there is no memory for a new one, and otherwise leaves a state that
  represents the lists with the descriptor at the end of the pending ones and no longer
  among the ready ones, or unchanged when it was pending already.
\<close>

theorem add_pending_fd_refines:
  assumes "represents st a" "\<forall>p. new = Some p \<longrightarrow> store st p = None"
  shows "\<exists>ok st'. add_pending_fd new n inp st = Some (ok, st') \<and>
     (if \<not> (0 \<le> n \<and> n < FD_SETSIZE) then \<not> ok \<and> st' = complain (AddPendingRange n) st
      else if direction a n = None \<and> new = None then \<not> ok \<and> st' = st
      else ok \<and> represents st' (pend n inp a) \<and> complaints st' = complaints st)"
  using assms by (rule add_pending_fd_ok)

subsection \<open>Forgetting a descriptor\<close>

lemma holds_free: "holds q st xs \<Longrightarrow> p \<notin> set xs \<Longrightarrow> holds q (free_fd p n st) xs"
  by (cases q) (auto simp: holds_def free_fd_def elim!: chain_cong [rotated])

lemma info_free: "info_of (free_fd p n st) = (info_of st)(p := None)"
  by (auto simp: info_of_def free_fd_def)

lemma members_free:
  assumes "members I F rs ps" "I p = Some (n, s, i)" "distinct rs" "distinct ps"
  shows "members (I(p := None)) (F(n := None)) (remove1 p rs) (remove1 p ps)"
proof -
  note info = members_info [OF assms(1)]
  have sets: "set (remove1 p rs) = set rs - {p}" "set (remove1 p ps) = set ps - {p}"
    using assms(3,4) by simp_all
  show ?thesis
  proof (rule membersI)
    show "set (remove1 p rs) \<inter> set (remove1 p ps) = {}"
      using members_disjoint [OF assms(1)] by (auto simp: sets)
    show "(F(n := None)) m = Some q \<and> 0 \<le> m \<and> m < FD_SETSIZE \<and>
        (t = FD_READY \<longleftrightarrow> q \<in> set (remove1 p rs)) \<and> (t = FD_PENDING \<longleftrightarrow> q \<in> set (remove1 p ps))"
      if "(I(p := None)) q = Some (m, t, j)" for q m t j
      using that info [OF assms(2)] info [of q m t j] by (cases "q = p") (auto simp: sets)
    show "\<exists>t j. (I(p := None)) q = Some (m, t, j)" if "(F(n := None)) m = Some q" for m q
      using that members_fds [OF assms(1), of m q] assms(2) by (cases "m = n"; cases "q = p") auto
  qed
qed

lemma remove1_fds:
  assumes "members I F rs ps" "I p = Some (n, s, i)" "distinct xs" "\<forall>q\<in>set xs. \<exists>j. I q = Some j"
  shows "remove1 n (map (\<lambda>p. fst (the (I p))) xs) = map (\<lambda>p. fst (the (I p))) (remove1 p xs)"
proof (cases "p \<in> set xs")
  case True
  then obtain as bs where xs: "xs = as @ p # bs" by (auto dest: split_list)
  then have "remove1 p xs = as @ bs" using assms(3) by (simp add: remove1_append)
  then show ?thesis using members_remove1 [OF assms(1), of as p bs] assms(2-4) by (simp add: xs)
next
  case False
  then show ?thesis using members_notin [OF assms(1,4) False assms(2)] by (simp add: remove1_idem)
qed

lemma lists_of_free:
  assumes "members I F rs ps" "I p = Some (n, s, i)" "distinct rs" "distinct ps"
    "\<forall>q\<in>set rs. \<exists>j. I q = Some j" "\<forall>q\<in>set ps. \<exists>j. I q = Some j"
  shows "lists_of (I(p := None)) (F(n := None)) (remove1 p rs) (remove1 p ps) = forget n (lists_of I F rs ps)"
proof -
  have same: "map (\<lambda>q. fst (the ((I(p := None)) q))) (remove1 p xs) = map (\<lambda>q. fst (the (I q))) (remove1 p xs)"
    if "distinct xs" for xs
    using that by (intro map_cong) auto
  have "Option.bind ((F(n := None)) m) (\<lambda>q. map_option (snd \<circ> snd) ((I(p := None)) q)) =
      ((\<lambda>m. Option.bind (F m) (\<lambda>q. map_option (snd \<circ> snd) (I q)))(n := None)) m" for m
    using members_fds [OF assms(1), of m] assms(2) by (cases "F m") auto
  then show ?thesis
    using remove1_fds [OF assms(1,2,3,5)] remove1_fds [OF assms(1,2,4,6)]
    by (simp add: lists_of_def forget_def same [OF assms(3)] same [OF assms(4)] fun_eq_iff
        del: fun_upd_apply)
qed

text \<open>Taking an entry off the queue its status names, if any.\<close>

lemma unqueue_holds:
  assumes "queues_ok st rs ps" "info_of st p = Some (n, s, i)"
  obtains st' where
    "(case s of FD_PENDING \<Rightarrow> findrm p Pending st | FD_READY \<Rightarrow> findrm p Ready st | FD_QUIESCENT \<Rightarrow> Some st)
       = Some st'"
    "holds Ready st' (remove1 p rs)" "holds Pending st' (remove1 p ps)" "info_of st' = info_of st"
    "fds st' = fds st" "complaints st' = complaints st"
proof -
  note live = queues_ok_live [OF assms(1)]
  have h: "holds Ready st rs" "holds Pending st ps" and m: "members (info_of st) (fds st) rs ps"
    using assms(1) by (simp_all add: queues_ok_def)
  note inf = members_info [OF m assms(2)]
  have split: "\<exists>as bs. xs = as @ p # bs \<and> remove1 p xs = as @ bs" if "p \<in> set xs" "distinct xs" for xs
  proof -
    from that(1) obtain as bs where "xs = as @ p # bs" by (auto dest: split_list)
    then show ?thesis using that(2) by (intro exI [of _ as] exI [of _ bs]) (simp add: remove1_append)
  qed
  show ?thesis
  proof (cases s)
    case FD_QUIESCENT
    then show ?thesis using h inf by (intro that [of st]) (simp_all add: remove1_idem)
  next
    case FD_READY
    then have p: "p \<in> set rs" "p \<notin> set ps" using inf by auto
    from split [OF p(1) live(3)] obtain as bs where r: "rs = as @ p # bs" "remove1 p rs = as @ bs" by blast
    obtain st' where "findrm p Ready st = Some st'" "holds Ready st' (as @ bs)" "holds (other Ready) st' ps"
      "info_of st' = info_of st" "fds st' = fds st" "complaints st' = complaints st"
      by (rule findrm_other [of Ready st as p bs ps]) (use h r live(5) in auto)
    then show ?thesis using FD_READY p r by (intro that [of st']) (simp_all add: remove1_idem)
  next
    case FD_PENDING
    then have p: "p \<in> set ps" "p \<notin> set rs" using inf by auto
    from split [OF p(1) live(4)] obtain as bs where r: "ps = as @ p # bs" "remove1 p ps = as @ bs" by blast
    obtain st' where "findrm p Pending st = Some st'" "holds Pending st' (as @ bs)" "holds (other Pending) st' rs"
      "info_of st' = info_of st" "fds st' = fds st" "complaints st' = complaints st"
      by (rule findrm_other [of Pending st as p bs rs]) (use h r live(5) in auto)
    then show ?thesis using FD_PENDING p r by (intro that [of st']) (simp_all add: remove1_idem)
  qed
qed

lemma remove_fd_ok:
  assumes "represents st a"
  shows "\<exists>st'. remove_fd n st = Some (direction a n \<noteq> None, st') \<and>
     (if \<not> (0 \<le> n \<and> n < FD_SETSIZE) then st' = complain (RemoveRange n) st
      else represents st' (forget n a) \<and> complaints st' = complaints st)"
proof -
  obtain rs ps where ok: "queues_ok st rs ps" and a: "a = lists_of (info_of st) (fds st) rs ps"
    using assms by (auto simp: represents_def)
  note live = queues_ok_live [OF ok]
  have m: "members (info_of st) (fds st) rs ps" using ok by (simp add: queues_ok_def)
  show ?thesis
  proof (cases "fds st n")
    case None
    then have d: "direction a n = None" using direction_fds [OF m] a by simp
    have "n \<notin> set (ready_fds a)" "n \<notin> set (pending_fds a)"
      using live(1,2) None members_info [OF m] by (fastforce simp: a lists_of_def)+
    then have "forget n a = a" using d by (simp add: forget_def remove1_idem fun_upd_idem)
    then show ?thesis using None d assms by (simp add: remove_fd_def)
  next
    case (Some p)
    then obtain s i where i: "info_of st p = Some (n, s, i)" using members_fds [OF m] by blast
    then obtain f where f: "store st p = Some f" "fd f = n" "status f = s" by (auto simp: info_of_def)
    have range: "0 \<le> n" "n < FD_SETSIZE" using members_info [OF m i] by simp_all
    have d: "direction a n \<noteq> None" using direction_fds [OF m] a Some by simp
    obtain st1 where s1: "(case s of FD_PENDING \<Rightarrow> findrm p Pending st | FD_READY \<Rightarrow> findrm p Ready st
          | FD_QUIESCENT \<Rightarrow> Some st) = Some st1"
      "holds Ready st1 (remove1 p rs)" "holds Pending st1 (remove1 p ps)" "info_of st1 = info_of st"
      "fds st1 = fds st" "complaints st1 = complaints st"
      by (rule unqueue_holds [OF ok i])
    define st2 where "st2 = (if s = FD_PENDING \<and> first (pending_que st1) = None then st1\<lparr>poll_time := - 1\<rparr> else st1)"
    have remove: "remove_fd n st = Some (True, free_fd p n st2)"
      using range Some f s1(1) by (cases s) (simp_all add: remove_fd_def st2_def)
    have "holds Ready st2 (remove1 p rs)" "holds Pending st2 (remove1 p ps)" "info_of st2 = info_of st"
      "fds st2 = fds st" "complaints st2 = complaints st"
      using s1 by (simp_all add: st2_def)
    moreover have "p \<notin> set (remove1 p rs)" "p \<notin> set (remove1 p ps)" using live(3,4) by simp_all
    ultimately have "queues_ok (free_fd p n st2) (remove1 p rs) (remove1 p ps)"
      "complaints (free_fd p n st2) = complaints st"
      "lists_of (info_of (free_fd p n st2)) (fds (free_fd p n st2)) (remove1 p rs) (remove1 p ps) = forget n a"
      using members_free [OF m i live(3,4)] lists_of_free [OF m i live(3,4,1,2)]
      by (simp_all add: queues_ok_def holds_free info_free a) (simp_all add: free_fd_def)
    then show ?thesis using remove d range by (auto intro: representsI)
  qed
qed

lemma queued_registered:
  assumes "represents st a" "n \<in> set (ready_fds a) \<union> set (pending_fds a)"
  shows "direction a n \<noteq> None"
proof -
  obtain rs ps where ok: "queues_ok st rs ps" and a: "a = lists_of (info_of st) (fds st) rs ps"
    using assms by (auto simp: represents_def)
  note live = queues_ok_live [OF ok]
  have m: "members (info_of st) (fds st) rs ps" using ok by (simp add: queues_ok_def)
  have "fds st n \<noteq> None"
    using assms(2) live(1,2) members_info [OF m] by (fastforce simp: a lists_of_def)
  then show ?thesis using direction_fds [OF m] a by simp
qed

text \<open>
  Property C26. Closing a descriptor refines forgetting it: \<open>remove_fd\<close> takes it off
  whichever queue it is on, without ever failing to find it there, and frees its structure. The answer is
  true if the descriptor was on a queue and false if there was no structure for it. (For a
  descriptor with a structure but on no queue nothing is claimed of the answer: the comment says false,
  the code returns true.)
\<close>

theorem remove_fd_refines:
  assumes "represents st a"
  shows "\<exists>was_queued st'. remove_fd n st = Some (was_queued, st') \<and>
     (n \<in> set (ready_fds a) \<union> set (pending_fds a) \<longrightarrow> was_queued) \<and> (direction a n = None \<longrightarrow> \<not> was_queued) \<and>
     (if \<not> (0 \<le> n \<and> n < FD_SETSIZE) then st' = complain (RemoveRange n) st
      else represents st' (forget n a) \<and> complaints st' = complaints st)"
proof -
  obtain st' where "remove_fd n st = Some (direction a n \<noteq> None, st')"
    "if \<not> (0 \<le> n \<and> n < FD_SETSIZE) then st' = complain (RemoveRange n) st
      else represents st' (forget n a) \<and> complaints st' = complaints st"
    using remove_fd_ok [OF assms] by blast
  then show ?thesis
    using queued_registered [OF assms, of n] by (intro exI [of _ "direction a n \<noteq> None"] exI [of _ st']) blast
qed

subsection \<open>Ready descriptors\<close>

lemma members_status:
  assumes "members I F rs ps" "I p = Some (n, s, i)"
    and "set rs' \<inter> set ps' = {}" "set rs' - {p} = set rs - {p}" "set ps' - {p} = set ps - {p}"
    and "(t = FD_READY) = (p \<in> set rs')" "(t = FD_PENDING) = (p \<in> set ps')"
  shows "members (I(p \<mapsto> (n, t, i))) F rs' ps'"
proof (rule membersI)
  show "set rs' \<inter> set ps' = {}" by (rule assms(3))
  show "F m = Some q \<and> 0 \<le> m \<and> m < FD_SETSIZE \<and> (u = FD_READY \<longleftrightarrow> q \<in> set rs') \<and>
      (u = FD_PENDING \<longleftrightarrow> q \<in> set ps')" if "(I(p \<mapsto> (n, t, i))) q = Some (m, u, j)" for q m u j
    using that members_info [OF assms(1,2)] members_info [OF assms(1), of q m u j] assms(4-7)
    by (cases "q = p") auto
  show "\<exists>u j. (I(p \<mapsto> (n, t, i))) q = Some (m, u, j)" if "F m = Some q" for m q
    using members_fds [OF assms(1) that] assms(2) by (cases "q = p") auto
qed

lemma lists_of_status:
  assumes "I p = Some (n, s, i)"
  shows "lists_of (I(p \<mapsto> (n, t, i))) F rs ps = lists_of I F rs ps"
proof -
  have "fst (the ((I(p \<mapsto> (n, t, i))) q)) = fst (the (I q))" for q by (simp add: assms)
  moreover have "map_option (snd \<circ> snd) ((I(p \<mapsto> (n, t, i))) q) = map_option (snd \<circ> snd) (I q)" for q
    by (simp add: assms)
  ultimately show ?thesis by (simp only: lists_of_def)
qed

lemma next_ready_port_ok:
  assumes "represents st a" "ready_fds a = n # ns"
  shows "\<exists>st'. next_ready_port st = Some (n, st') \<and> represents st' (take_ready a) \<and>
     complaints st' = complaints st"
proof -
  obtain rs ps where ok: "queues_ok st rs ps" and a: "a = lists_of (info_of st) (fds st) rs ps"
    using assms(1) by (auto simp: represents_def)
  obtain p rs' where rs: "rs = p # rs'" using assms(2) by (cases rs) (simp_all add: a lists_of_def)
  note live = queues_ok_live [OF ok]
  have h: "holds Ready st (p # rs')" "holds Pending st ps" and m: "members (info_of st) (fds st) rs ps"
    using ok by (simp_all add: queues_ok_def rs)
  obtain s i where i: "info_of st p = Some (n, s, i)"
    using live(1) assms(2) by (auto simp: rs a lists_of_def)
  obtain st1 where s1: "rmque (FirstOf Ready) Ready st = Some (p, st1)" "holds Ready st1 rs'"
      "only_queue Ready {} st st1"
    using rmque_holds [of Ready st "[]" p rs'] h(1) by (auto simp: link_after_def)
  have h1: "holds Pending st1 ps" using holds_other [OF s1(3), of ps] h(2) by simp
  have i1: "info_of st1 p = Some (n, s, i)" using only_queue_info [OF s1(3)] i by simp
  obtain st2 where s2: "set_status p FD_QUIESCENT st1 = Some st2"
      "info_of st2 = (info_of st1)(p \<mapsto> (n, FD_QUIESCENT, i))"
      "\<And>q xs. holds q st1 xs \<Longrightarrow> holds q st2 xs" "fds st2 = fds st1" "complaints st2 = complaints st1"
    using set_status_info [OF i1, of FD_QUIESCENT] by blast
  have "info_of st2 p = Some (n, FD_QUIESCENT, i)" using s2(2) by simp
  then obtain f where f: "store st2 p = Some f" "fd f = n" by (auto simp: info_of_def)
  have p: "p \<notin> set rs'" "p \<notin> set ps" "set rs' \<inter> set ps = {}" using live(3,5) by (auto simp: rs)
  have "members ((info_of st)(p \<mapsto> (n, FD_QUIESCENT, i))) (fds st) rs' ps"
    by (rule members_status [OF m i]) (use p in \<open>auto simp: rs\<close>)
  then have "queues_ok st2 rs' ps"
    using s2 s1 h1 only_queue_info [OF s1(3)] only_queue_fields(1) [OF s1(3)] by (simp add: queues_ok_def)
  moreover have "lists_of (info_of st2) (fds st2) rs' ps = take_ready a"
    using only_queue_info [OF s1(3)] only_queue_fields(1) [OF s1(3)]
    by (simp add: s2 lists_of_status [of "info_of st" p n s i, OF i] a take_ready_def rs) (simp add: lists_of_def)
  ultimately show ?thesis
    using s1 s2 f only_queue_fields(2) [OF s1(3)] by (auto simp: next_ready_port_def intro: representsI)
qed

text \<open>
  Property C29. Taking the next ready port gives the descriptor that has been ready for
  longest, which is then on no queue but still registered with its direction.
\<close>

theorem next_ready_port_refines:
  assumes "represents st a" "ready_fds a = n # ns"
  shows "\<exists>st'. next_ready_port st = Some (n, st') \<and> represents st' (take_ready a) \<and>
     complaints st' = complaints st"
  using assms by (rule next_ready_port_ok)

text \<open>Moving one entry of the pending queue to the end of the ready one.\<close>

lemma move_one:
  assumes "queues_ok st rs (passed @ p # ps)" "info_of st p = Some (n, t, i)"
  obtains st1 st2 st3 where "rmque (link_after Pending passed) Pending st = Some (p, st1)"
    "set_status p FD_READY st1 = Some st2" "addque p Ready st2 = Some st3"
    "queues_ok st3 (rs @ [p]) (passed @ ps)" "info_of st3 = (info_of st)(p \<mapsto> (n, FD_READY, i))"
    "fds st3 = fds st" "complaints st3 = complaints st"
proof -
  note live = queues_ok_live [OF assms(1)]
  have h: "holds Ready st rs" "holds Pending st (passed @ p # ps)"
    and m: "members (info_of st) (fds st) rs (passed @ p # ps)"
    using assms(1) by (simp_all add: queues_ok_def)
  obtain st1 where s1: "rmque (link_after Pending passed) Pending st = Some (p, st1)"
      "holds Pending st1 (passed @ ps)" "only_queue Pending (set passed) st st1"
    by (rule rmque_holds [OF h(2)])
  have h1: "holds Ready st1 rs" using holds_other [OF s1(3), of rs] h(1) live(5) by auto
  have i1: "info_of st1 p = Some (n, t, i)" using only_queue_info [OF s1(3)] assms(2) by simp
  obtain st2 where s2: "set_status p FD_READY st1 = Some st2"
      "info_of st2 = (info_of st1)(p \<mapsto> (n, FD_READY, i))"
      "\<And>q xs. holds q st1 xs \<Longrightarrow> holds q st2 xs" "fds st2 = fds st1" "complaints st2 = complaints st1"
    using set_status_info [OF i1, of FD_READY] by blast
  have "info_of st2 p = Some (n, FD_READY, i)" using s2(2) by simp
  then obtain f where f: "store st2 p = Some f" by (auto dest: info_live)
  have p: "p \<notin> set rs" "p \<notin> set (passed @ ps)" "set rs \<inter> set (passed @ ps) = {}" using live(4,5) by auto
  obtain st3 where s3: "addque p Ready st2 = Some st3" "holds Ready st3 (rs @ [p])"
      "only_queue Ready (insert p (set rs)) st2 st3"
    by (rule addque_holds [OF s2(3) [OF h1] p(1) f])
  have h3: "holds Pending st3 (passed @ ps)"
    using holds_other [OF s3(3), of "passed @ ps"] s2(3) [OF s1(2)] p by auto
  have "members ((info_of st)(p \<mapsto> (n, FD_READY, i))) (fds st) (rs @ [p]) (passed @ ps)"
    by (rule members_status [OF m assms(2)]) (use p in auto)
  then show ?thesis
    using s1 s2 s3 h3 only_queue_info [OF s1(3)] only_queue_info [OF s3(3)]
      only_queue_fields(1,2) [OF s1(3)] only_queue_fields(1,2) [OF s3(3)]
    by (intro that [of st1 st2 st3]) (simp_all add: queues_ok_def)
qed

text \<open>The loop over the pending queue: \<open>passed\<close> is behind, \<open>ps\<close> is to come.\<close>

definition fd_at :: "events \<Rightarrow> ptr \<Rightarrow> int" where
  "fd_at st p = fst (the (info_of st p))"

lemma move_ready_ok:
  assumes "queues_ok st rs (passed @ ps)"
    and "\<And>p n t i. p \<in> set ps \<Longrightarrow> info_of st p = Some (n, t, i) \<Longrightarrow>
      (n \<in> alls s \<or> n \<in> (if i then reads s else writes s)) = R n"
    and "int (length (filter (\<lambda>p. R (fd_at st p)) ps)) \<le> left"
  shows "\<exists>st'. move_ready left (link_after Pending passed) s st = Some st' \<and>
    queues_ok st' (rs @ filter (\<lambda>p. R (fd_at st p)) ps) (passed @ filter (\<lambda>p. \<not> R (fd_at st p)) ps) \<and>
    lists_of (info_of st') (fds st') = lists_of (info_of st) (fds st) \<and> complaints st' = complaints st"
  using assms
proof (induction ps arbitrary: passed rs st left)
  case Nil
  then have "get_link (link_after Pending passed) st = Some None"
    by (intro get_link_after) (simp add: queues_ok_def holds_def)
  then show ?case using Nil.prems by (subst move_ready.simps) simp
next
  case (Cons p ps)
  note live = queues_ok_live [OF Cons.prems(1)]
  obtain n t i where i: "info_of st p = Some (n, t, i)" using live(2) by auto
  then obtain f where f: "store st p = Some f" "fd f = n" "is_input f = i" by (auto simp: info_of_def)
  have n: "fd_at st p = n" by (simp add: fd_at_def i)
  have set: "is_set s f = R n" using Cons.prems(2) [OF _ i] by (simp add: is_set_def f)
  show ?case
  proof (cases "0 < left")
    case False
    with Cons.prems(3) have "filter (\<lambda>p. R (fd_at st p)) (p # ps) = []" by (simp add: not_less flip: length_0_conv)
    moreover from this have "filter (\<lambda>p. \<not> R (fd_at st p)) (p # ps) = p # ps"
      by (intro filter_True) (auto simp: filter_empty_conv simp del: filter.simps)
    ultimately show ?thesis using False Cons.prems(1) by (subst move_ready.simps) (simp del: filter.simps)
  next
    case left: True
    have "get_link (link_after Pending passed) st = Some (Some p)"
      using Cons.prems(1) by (intro get_link_after) (auto simp: queues_ok_def holds_def chain_append)
    note step = move_ready.simps [of left "link_after Pending passed" s st, unfolded this]
    show ?thesis
    proof (cases "R n")
      case False
      have "move_ready left (link_after Pending passed) s st = move_ready left (link_after Pending (passed @ [p])) s st"
        using left f(1) set False by (subst step) (simp add: link_after_def [of _ "passed @ [p]"])
      moreover have "(m \<in> alls s \<or> m \<in> (if j then reads s else writes s)) = R m"
        if "q \<in> set ps" "info_of st q = Some (m, u, j)" for q m u j
        using that Cons.prems(2) [of q m u j] by simp
      ultimately show ?thesis
        using Cons.IH [of st rs "passed @ [p]" left] Cons.prems(1,3) False n by simp
    next
      case True
      obtain st1 st2 st3 where s: "rmque (link_after Pending passed) Pending st = Some (p, st1)"
        "set_status p FD_READY st1 = Some st2" "addque p Ready st2 = Some st3"
        "queues_ok st3 (rs @ [p]) (passed @ ps)" "info_of st3 = (info_of st)(p \<mapsto> (n, FD_READY, i))"
        "fds st3 = fds st" "complaints st3 = complaints st"
        by (rule move_one [OF Cons.prems(1) i])
      have at: "fd_at st3 q = fd_at st q" for q by (simp add: fd_at_def s(5) i)
      have "(m \<in> alls s \<or> m \<in> (if j then reads s else writes s)) = R m"
        if "q \<in> set ps" "info_of st3 q = Some (m, u, j)" for q m u j
        using that Cons.prems(2) [of q m u j] Cons.prems(2) [OF _ i] by (auto simp: s(5) split: if_splits)
      moreover have "int (length (filter (\<lambda>p. R (fd_at st3 p)) ps)) \<le> left - 1"
        using Cons.prems(3) True n by (simp add: at)
      ultimately have "\<exists>st'. move_ready (left - 1) (link_after Pending passed) s st3 = Some st' \<and>
          queues_ok st' ((rs @ [p]) @ filter (\<lambda>p. R (fd_at st3 p)) ps) (passed @ filter (\<lambda>p. \<not> R (fd_at st3 p)) ps) \<and>
          lists_of (info_of st') (fds st') = lists_of (info_of st3) (fds st3) \<and> complaints st' = complaints st3"
        by (intro Cons.IH [OF s(4)]) auto
      then obtain st' where st': "move_ready (left - 1) (link_after Pending passed) s st3 = Some st'"
        "queues_ok st' ((rs @ [p]) @ filter (\<lambda>p. R (fd_at st p)) ps) (passed @ filter (\<lambda>p. \<not> R (fd_at st p)) ps)"
        "lists_of (info_of st') (fds st') = lists_of (info_of st3) (fds st3)" "complaints st' = complaints st3"
        unfolding at by blast
      have "lists_of (info_of st3) (fds st3) = lists_of (info_of st) (fds st)"
        by (intro ext) (simp add: s lists_of_status [of "info_of st" p n t i, OF i])
      moreover have "move_ready left (link_after Pending passed) s st = Some st'"
        using left f(1) set True s(1-3) st'(1) by (simp add: step)
      ultimately show ?thesis using st' s(7) True n by simp
    qed
  qed
qed

subsection \<open>Polling\<close>

text \<open>What is asked of \<open>select\<close>, and what it must answer: parts of the sets, and their size.\<close>

definition asked :: "fd_lists \<Rightarrow> fd_sets" where
  "asked a = \<lparr>reads = {n \<in> set (pending_fds a). direction a n = Some True},
     writes = {n \<in> set (pending_fds a). direction a n \<noteq> Some True}, alls = set (pending_fds a)\<rparr>"

definition limit :: "int list \<Rightarrow> int" where
  "limit ns = foldl (\<lambda>l n. max l (n + 1)) 0 ns"

definition select_ok :: "select_call \<Rightarrow> bool" where
  "select_ok select \<longleftrightarrow> (\<forall>limfd s tvp left s'.
     finite (reads s) \<and> finite (writes s) \<and> finite (alls s) \<and> select limfd s tvp = Inr (left, s') \<longrightarrow>
       reads s' \<subseteq> reads s \<and> writes s' \<subseteq> writes s \<and> alls s' \<subseteq> alls s \<and>
       left = int (card (reads s') + card (writes s') + card (alls s')))"

definition became_ready :: "fd_lists \<Rightarrow> fd_sets \<Rightarrow> int \<Rightarrow> bool" where
  "became_ready a s n \<longleftrightarrow>
     n \<in> alls s \<or> n \<in> (if direction a n = Some True then reads s else writes s)"

lemma fill_sets_ok:
  assumes "chain (store st) r ps None"
  shows "fill_sets r limfd s st = Some
     (foldl (\<lambda>l n. max l (n + 1)) limfd (map (fd_at st) ps),
      \<lparr>reads = reads s \<union> {n. \<exists>p\<in>set ps. \<exists>t. info_of st p = Some (n, t, True)},
       writes = writes s \<union> {n. \<exists>p\<in>set ps. \<exists>t. info_of st p = Some (n, t, False)},
       alls = alls s \<union> fd_at st ` set ps\<rparr>)"
  using assms
proof (induction ps arbitrary: r limfd s)
  case Nil
  then show ?case by (subst fill_sets.simps) simp
next
  case (Cons p ps)
  then obtain f where f: "r = Some p" "store st p = Some f" "chain (store st) (next f) ps None"
    by (auto split: option.splits)
  have i: "info_of st p = Some (fd f, status f, is_input f)" "fd_at st p = fd f"
    using f by (simp_all add: info_of_def fd_at_def)
  have lim: "(if limfd \<le> fd f then fd f + 1 else limfd) = max limfd (fd f + 1)" by (simp add: max_def)
  show ?case
    by (subst fill_sets.simps) (simp add: f Cons.IH [OF f(3)] i lim, auto simp: i)
qed

lemma direction_at:
  assumes "members (info_of st) (fds st) rs ps" "info_of st p = Some (n, t, i)"
  shows "direction (lists_of (info_of st) (fds st) rs' ps') n = Some i"
  using members_info [OF assms] assms(2) by (simp add: lists_of_def)

lemma asked_eq:
  assumes "queues_ok st rs ps"
  defines "a \<equiv> lists_of (info_of st) (fds st) rs ps"
  shows "pending_fds a = map (fd_at st) ps"
    "asked a = \<lparr>reads = {n. \<exists>p\<in>set ps. \<exists>t. info_of st p = Some (n, t, True)},
       writes = {n. \<exists>p\<in>set ps. \<exists>t. info_of st p = Some (n, t, False)}, alls = fd_at st ` set ps\<rparr>"
proof -
  have m: "members (info_of st) (fds st) rs ps" using assms(1) by (simp add: queues_ok_def)
  show p: "pending_fds a = map (fd_at st) ps" by (simp add: a_def lists_of_def fd_at_def)
  have "(\<exists>t. info_of st p = Some (n, t, b)) \<longleftrightarrow> n = fd_at st p \<and> direction a n = Some b"
    if "p \<in> set ps" for p n b
  proof -
    from queues_ok_live(2) [OF assms(1)] that
    obtain n' t i where i: "info_of st p = Some (n', t, i)" by auto
    then show ?thesis using direction_at [OF m i] by (auto simp: fd_at_def a_def)
  qed
  note key = this
  have "direction a (fd_at st p) \<noteq> Some True \<longleftrightarrow> direction a (fd_at st p) = Some False" if "p \<in> set ps" for p
  proof -
    from queues_ok_live(2) [OF assms(1)] that
    obtain n' t i where i: "info_of st p = Some (n', t, i)" by auto
    then show ?thesis using direction_at [OF m i] by (simp add: fd_at_def a_def)
  qed
  with key have "{n \<in> fd_at st ` set ps. direction a n = Some True} = {n. \<exists>p\<in>set ps. \<exists>t. info_of st p = Some (n, t, True)}"
    "{n \<in> fd_at st ` set ps. direction a n \<noteq> Some True} = {n. \<exists>p\<in>set ps. \<exists>t. info_of st p = Some (n, t, False)}"
    by auto
  then show "asked a = \<lparr>reads = {n. \<exists>p\<in>set ps. \<exists>t. info_of st p = Some (n, t, True)},
       writes = {n. \<exists>p\<in>set ps. \<exists>t. info_of st p = Some (n, t, False)}, alls = fd_at st ` set ps\<rparr>"
    by (simp add: asked_def p)
qed

lemma distinct_fds:
  assumes "queues_ok st rs ps"
  shows "distinct (map (fd_at st) ps)"
proof -
  have m: "members (info_of st) (fds st) rs ps" using assms by (simp add: queues_ok_def)
  have "inj_on (fd_at st) (set ps)"
  proof
    fix p q assume "p \<in> set ps" "q \<in> set ps" "fd_at st p = fd_at st q"
    moreover from this queues_ok_live(2) [OF assms] obtain x y
      where "info_of st p = Some x" "info_of st q = Some y" by blast
    moreover obtain n t i m' t' i' where "x = (n, t, i)" "y = (m', t', i')" by (cases x, cases y) auto
    ultimately show "p = q" using members_inj [OF m, of p n t i q t' i'] by (simp add: fd_at_def)
  qed
  then show ?thesis using queues_ok_live(4) [OF assms] by (simp add: distinct_map)
qed

lemma ready_count:
  assumes "distinct ns" "finite (reads s)" "finite (writes s)" "finite (alls s)"
  shows "length (filter (became_ready a s) ns) \<le> card (reads s) + card (writes s) + card (alls s)"
proof -
  have "length (filter (became_ready a s) ns) = card (set (filter (became_ready a s) ns))"
    by (metis distinct_card distinct_filter assms(1))
  also have "\<dots> \<le> card (reads s \<union> writes s \<union> alls s)"
    using assms by (intro card_mono) (auto simp: became_ready_def split: if_splits)
  also have "\<dots> \<le> card (reads s) + card (writes s) + card (alls s)"
    by (metis add_le_mono1 card_Un_le order_trans)
  finally show ?thesis .
qed

lemma represents_fields [simp]:
  "represents (st\<lparr>poll_time := t\<rparr>) a = represents st a"
  by (simp add: represents_def queues_ok_def)

lemma queue_ready_ports_ok:
  assumes "represents st a" "select_ok select"
  shows "\<exists>res st'. queue_ready_ports select wait seconds ticks st = Some (res, st') \<and>
     complaints st' = complaints st \<and>
     (if \<not> wait \<and> pending_fds a = [] then res = 0 \<and> st' = st
      else case select (limit (pending_fds a)) (asked a)
           (if \<not> wait then Some (0, 0) else if seconds = - 1 then None
            else Some (seconds, ticks * long_sdiv 1000000 TICKS_PER_SECOND)) of
        Inl errno \<Rightarrow> res = errno \<and> st' = st
      | Inr (left, s) \<Rightarrow> res = 0 \<and>
          (if left \<le> 0 then st' = st else represents st' (complete (became_ready a s) a)))"
proof -
  obtain rs ps where ok: "queues_ok st rs ps" and a: "a = lists_of (info_of st) (fds st) rs ps"
    using assms by (auto simp: represents_def)
  have h: "holds Pending st ps" and m: "members (info_of st) (fds st) rs ps"
    using ok by (simp_all add: queues_ok_def)
  then have c: "chain (store st) (first (pending_que st)) ps None" by (simp add: holds_def)
  note ask = asked_eq [OF ok, folded a]
  have empty: "first (pending_que st) = None \<longleftrightarrow> pending_fds a = []"
    using c by (cases ps) (auto simp: ask(1))
  define tvp where "tvp = (if wait then if seconds = - 1 then None
     else Some (seconds, ticks * long_sdiv 1000000 TICKS_PER_SECOND) else Some (0, 0))"
  have fill: "fill_sets (first (pending_que st)) 0 \<lparr>reads = {}, writes = {}, alls = {}\<rparr> st =
      Some (limit (pending_fds a), asked a)"
    by (simp add: fill_sets_ok [OF c] ask limit_def)
  show ?thesis
  proof (cases "\<not> wait \<and> pending_fds a = []")
    case True
    then show ?thesis using empty by (simp add: queue_ready_ports_def)
  next
    case go: False
    then have q: "queue_ready_ports select wait seconds ticks st =
       (case select (limit (pending_fds a)) (asked a) tvp of
           Inl errno \<Rightarrow> Some (errno, st)
         | Inr (left, s1) \<Rightarrow>
             if left \<le> 0 then Some (0, st)
             else do {
               st1 \<leftarrow> move_ready left (FirstOf Pending) s1 st;
               Some (0, if first (pending_que st1) = None then st1\<lparr>poll_time := - 1\<rparr> else st1) })"
      using empty by (auto simp: queue_ready_ports_def fill tvp_def Let_def split: sum.split)
    have tvp: "(if \<not> wait then Some (0, 0) else if seconds = - 1 then None
            else Some (seconds, ticks * long_sdiv 1000000 TICKS_PER_SECOND)) = tvp"
      by (simp add: tvp_def)
    show ?thesis
    proof (cases "select (limit (pending_fds a)) (asked a) tvp")
      case (Inl e)
      then show ?thesis using go by (auto simp: q tvp)
    next
      case (Inr x)
      obtain left s1 where x: "x = (left, s1)" by (cases x)
      have fin: "finite (reads (asked a))" "finite (writes (asked a))" "finite (alls (asked a))"
        by (simp_all add: asked_def)
      then have sel: "reads s1 \<subseteq> reads (asked a)" "writes s1 \<subseteq> writes (asked a)" "alls s1 \<subseteq> alls (asked a)"
        "left = int (card (reads s1) + card (writes s1) + card (alls s1))"
        using assms(2) Inr x unfolding select_ok_def by blast+
      have count: "int (length (filter (\<lambda>p. became_ready a s1 (fd_at st p)) ps)) \<le> left"
        using ready_count [OF distinct_fds [OF ok], of s1 a] fin sel
        by (simp add: filter_map comp_def finite_subset)
      have R: "(n \<in> alls s1 \<or> n \<in> (if i then reads s1 else writes s1)) = became_ready a s1 n"
        if "p \<in> set ps" "info_of st p = Some (n, t, i)" for p n t i
        using direction_at [OF m that(2)] by (simp add: became_ready_def a)
      from move_ready_ok [of st rs "[]" ps s1 "became_ready a s1" left] ok R count
      obtain st1 where st1: "move_ready left (FirstOf Pending) s1 st = Some st1"
        "queues_ok st1 (rs @ filter (\<lambda>p. became_ready a s1 (fd_at st p)) ps)
           (filter (\<lambda>p. \<not> became_ready a s1 (fd_at st p)) ps)"
        "lists_of (info_of st1) (fds st1) = lists_of (info_of st) (fds st)" "complaints st1 = complaints st"
        by (auto simp: link_after_def)
      have "represents st1 (complete (became_ready a s1) a)"
        by (rule representsI [OF st1(2)])
          (simp add: st1(3) a complete_def lists_of_def filter_map comp_def fd_at_def)
      then show ?thesis using go Inr x st1(1,4) by (auto simp: q tvp)
    qed
  qed
qed

text \<open>
  Property C27. Polling does what the abstract lists ask for: \<open>queue_ready_ports\<close> asks
  \<open>select\<close> about exactly the pending descriptors, each in the direction it was registered
  with, and moves those that \<open>select\<close> reports, in that direction or as exceptional, from the
  pending to the end of the ready queue, keeping their order; on an error or a timeout it
  moves nothing. A poll that need not wait, with nothing pending, does not call \<open>select\<close>.
\<close>

theorem queue_ready_ports_refines:
  assumes "represents st a" "select_ok select"
  shows "\<exists>res st'. queue_ready_ports select wait seconds ticks st = Some (res, st') \<and>
     complaints st' = complaints st \<and>
     (if \<not> wait \<and> pending_fds a = [] then res = 0 \<and> st' = st
      else case select (limit (pending_fds a)) (asked a)
           (if \<not> wait then Some (0, 0) else if seconds = - 1 then None
            else Some (seconds, ticks * long_sdiv 1000000 TICKS_PER_SECOND)) of
        Inl errno \<Rightarrow> res = errno \<and> st' = st
      | Inr (left, s) \<Rightarrow> res = 0 \<and>
          (if left \<le> 0 then st' = st else represents st' (complete (became_ready a s) a)))"
  using assms by (rule queue_ready_ports_ok)

end
