(* ===== verification/Events_Facts.thy ===== *)
theory Events_Facts
  imports Events_Refine
begin

text \<open>
  What \<open>get_next_event\<close>, \<open>schedule_alarm_interrupt\<close> and the signal handlers of
  \<open>src/c/unix/event.c\<close> achieve together, and concrete states for the refinement theorems.
\<close>

subsection \<open>Concrete states\<close>

definition demo_events :: events where
  "demo_events = events_init\<lparr>
     store := [7 \<mapsto> \<lparr>fd = 3, status = FD_PENDING, is_input = True, next = None\<rparr>,
               8 \<mapsto> \<lparr>fd = 5, status = FD_READY, is_input = False, next = None\<rparr>],
     fds := (\<lambda>_. None)(3 := Some 7, 5 := Some 8),
     ready_que := \<lparr>first = Some 8, lastp = NextOf 8\<rparr>,
     pending_que := \<lparr>first = Some 7, lastp = NextOf 7\<rparr>, poll_time := 5\<rparr>"

definition demo_lists :: fd_lists where
  "demo_lists = \<lparr>ready_fds = [5], pending_fds = [3], direction = (\<lambda>_. None)(3 := Some True, 5 := Some False)\<rparr>"

definition demo_select :: select_call where
  "demo_select limfd s tvp = Inr (int (card (reads s)), \<lparr>reads = reads s, writes = {}, alls = {}\<rparr>)"

lemma init_represents: "represents events_init \<lparr>ready_fds = [], pending_fds = [], direction = (\<lambda>_. None)\<rparr>"
  by (rule representsI [of _ "[]" "[]"])
    (simp_all add: queues_ok_def holds_def link_after_def members_def lists_of_def info_of_def events_init_def)

lemma demo_represents: "represents demo_events demo_lists"
proof (rule representsI [of _ "[8]" "[7]"])
  have i: "info_of demo_events = [7 \<mapsto> (3, FD_PENDING, True), 8 \<mapsto> (5, FD_READY, False)]"
    by (auto simp: info_of_def demo_events_def)
  have f: "fds demo_events = (\<lambda>_. None)(3 := Some 7, 5 := Some 8)" by (simp add: demo_events_def)
  have "members (info_of demo_events) (fds demo_events) [8] [7]"
    unfolding i f by (rule membersI) (auto simp: FD_SETSIZE_def split: if_splits)
  then show "queues_ok demo_events [8] [7]"
    by (simp add: queues_ok_def holds_def link_after_def demo_events_def)
  show "lists_of (info_of demo_events) (fds demo_events) [8] [7] = demo_lists"
    unfolding i f by (auto simp: lists_of_def demo_lists_def)
qed

lemma demo_select_ok: "select_ok demo_select"
  by (auto simp: select_ok_def demo_select_def)

lemma add_pending_fd_refines_witness:
  "\<exists>ok st'. add_pending_fd (Some 9) 5 True demo_events = Some (ok, st') \<and> ok \<and>
     represents st' (pend 5 True demo_lists) \<and> pending_fds (pend 5 True demo_lists) = [3, 5]"
proof -
  have "\<forall>p. Some 9 = Some p \<longrightarrow> store demo_events p = None" by (simp add: demo_events_def)
  from add_pending_fd_refines [OF demo_represents this, of 5 True] show ?thesis
    by (auto simp: FD_SETSIZE_def demo_lists_def pend_def)
qed

lemma remove_fd_refines_witness:
  "\<exists>st'. remove_fd 3 demo_events = Some (True, st') \<and>
     represents st' \<lparr>ready_fds = [5], pending_fds = [], direction = (\<lambda>_. None)(5 := Some False)\<rparr>"
proof -
  have "forget 3 demo_lists = \<lparr>ready_fds = [5], pending_fds = [], direction = (\<lambda>_. None)(5 := Some False)\<rparr>"
    by (auto simp: forget_def demo_lists_def)
  with remove_fd_refines [OF demo_represents, of 3] show ?thesis
    by (auto simp: FD_SETSIZE_def demo_lists_def)
qed

lemma next_ready_port_refines_witness:
  "\<exists>st'. next_ready_port demo_events = Some (5, st') \<and> represents st' (take_ready demo_lists)"
  using next_ready_port_refines [OF demo_represents, of 5 "[]"] by (auto simp: demo_lists_def)

lemma queue_ready_ports_refines_witness:
  "\<exists>st'. queue_ready_ports demo_select False 0 0 demo_events = Some (0, st') \<and>
     represents st' \<lparr>ready_fds = [5, 3], pending_fds = [], direction = (\<lambda>_. None)(3 := Some True, 5 := Some False)\<rparr>"
proof -
  let ?s = "\<lparr>reads = {3}, writes = {}, alls = {}\<rparr>"
  have "demo_select (limit (pending_fds demo_lists)) (asked demo_lists) (Some (0, 0)) = Inr (1, ?s)"
  proof -
    have "{n. n = 3} = {3 :: int}" by auto
    then show ?thesis by (simp add: demo_select_def asked_def demo_lists_def cong: conj_cong)
  qed
  moreover have "complete (became_ready demo_lists ?s) demo_lists =
      \<lparr>ready_fds = [5, 3], pending_fds = [], direction = (\<lambda>_. None)(3 := Some True, 5 := Some False)\<rparr>"
    by (simp add: complete_def became_ready_def demo_lists_def)
  moreover have "pending_fds demo_lists \<noteq> []" by (simp add: demo_lists_def)
  ultimately show ?thesis
    using queue_ready_ports_refines [OF demo_represents demo_select_ok, of False 0 0] by auto
qed

subsection \<open>The next event\<close>

lemma represents_keep [simp]:
  "represents (st\<lparr>keyboard_interrupt_count := k\<rparr>) a = represents st a"
  "represents (st\<lparr>alarm_time := t\<rparr>) a = represents st a"
  "represents (st\<lparr>current_time := t\<rparr>) a = represents st a"
  "represents (st\<lparr>itimer := i\<rparr>) a = represents st a"
  "represents (st\<lparr>Spending_eventsPS := b\<rparr>) a = represents st a"
  "represents (NOTE_EVENT st) a = represents st a"
proof -
  have h: "holds q (st\<lparr>keyboard_interrupt_count := k\<rparr>) xs = holds q st xs"
    "holds q (st\<lparr>alarm_time := t\<rparr>) xs = holds q st xs"
    "holds q (st\<lparr>current_time := t\<rparr>) xs = holds q st xs"
    "holds q (st\<lparr>itimer := i\<rparr>) xs = holds q st xs"
    "holds q (st\<lparr>Spending_eventsPS := b\<rparr>) xs = holds q st xs"
    "holds q (NOTE_EVENT st) xs = holds q st xs" for q xs
    by (cases q; simp add: holds_def NOTE_EVENT_def)+
  have i: "info_of (st\<lparr>keyboard_interrupt_count := k\<rparr>) = info_of st"
    "info_of (st\<lparr>alarm_time := t\<rparr>) = info_of st"
    "info_of (st\<lparr>current_time := t\<rparr>) = info_of st"
    "info_of (st\<lparr>itimer := i\<rparr>) = info_of st"
    "info_of (st\<lparr>Spending_eventsPS := b\<rparr>) = info_of st"
    "info_of (NOTE_EVENT st) = info_of st" "fds (NOTE_EVENT st) = fds st"
    by (simp_all add: info_of_def NOTE_EVENT_def fun_eq_iff)
  show "represents (st\<lparr>keyboard_interrupt_count := k\<rparr>) a = represents st a"
    "represents (st\<lparr>alarm_time := t\<rparr>) a = represents st a"
    "represents (st\<lparr>current_time := t\<rparr>) a = represents st a"
    "represents (st\<lparr>itimer := i\<rparr>) a = represents st a"
    "represents (st\<lparr>Spending_eventsPS := b\<rparr>) a = represents st a"
    "represents (NOTE_EVENT st) a = represents st a"
    unfolding represents_def queues_ok_def by (simp_all add: h i)
qed

lemma ready_ports_represents:
  "represents st a \<Longrightarrow> there_are_ready_ports st \<longleftrightarrow> ready_fds a \<noteq> []"
  by (auto simp: represents_def queues_ok_def holds_def lists_of_def there_are_ready_ports_def
      dest: chain_None) (metis chain.simps(1) neq_Nil_conv chain.simps(2) option.distinct(1) chain_None)

text \<open>The event that follows from the lists and the clock once the poll is over.\<close>

definition due_event :: "events \<Rightarrow> fd_lists \<Rightarrow> event_enum" where
  "due_event st a =
     (case ready_fds a of
        n # ns \<Rightarrow> IO_COMPLETION_EVENT n
      | [] \<Rightarrow> if alarm_time st \<noteq> - 1 \<and> alarm_time st \<le>s current_time st then ALARM_EVENT else NO_EVENT)"

lemma next_event_after_poll_ok:
  assumes "represents st a"
  shows "\<exists>st'. next_event_after_poll st = Some (due_event st a, st') \<and>
     represents st' (take_ready a) \<and> complaints st' = complaints st"
proof (cases "ready_fds a")
  case Nil
  then have "take_ready a = a" by (simp add: take_ready_def)
  then show ?thesis using assms Nil ready_ports_represents [OF assms]
    by (simp add: next_event_after_poll_def due_event_def)
next
  case (Cons n ns)
  then show ?thesis using next_ready_port_ok [OF assms Cons] ready_ports_represents [OF assms]
    by (auto simp: next_event_after_poll_def due_event_def)
qed

text \<open>The queue operations leave the clocks and the flags alone.\<close>

definition clock :: "events \<Rightarrow> long \<times> long \<times> long \<times> bool \<times> bool" where
  "clock st = (keyboard_interrupt_count st, alarm_time st, current_time st,
     Spending_eventsPS st, Spending_interruptPS st)"

lemma clock_simps [simp]:
  "clock (set_que q x st) = clock st" "clock (set_store p f st) = clock st"
  "clock (set_lastp q l st) = clock st" "clock (st\<lparr>poll_time := t\<rparr>) = clock st"
  by (cases q; simp add: clock_def set_store_def set_lastp_def)+

lemma set_link_clock: "set_link l r st = Some st' \<Longrightarrow> clock st' = clock st"
  by (cases l) auto

lemma rmque_clock: "rmque l q st = Some (p, st') \<Longrightarrow> clock st' = clock st"
  by (auto simp: rmque_def bind_eq_Some_conv dest: set_link_clock split: if_splits)

lemma addque_clock: "addque p q st = Some st' \<Longrightarrow> clock st' = clock st"
  by (auto simp: addque_def bind_eq_Some_conv dest!: set_link_clock)

lemma set_status_clock: "set_status p s st = Some st' \<Longrightarrow> clock st' = clock st"
  by (auto simp: set_status_def)

lemma move_ready_clock:
  assumes "move_ready left fdpp s st = Some st'"
  shows "clock st' = clock st"
proof (rule move_ready.raw_induct [OF _ assms, where P = "\<lambda>left fdpp s st st'. clock st' = clock st"],
    goal_cases)
  case (1 run left fdpp s st st')
  from 1(2) show ?case
    by (auto split: if_splits option.splits dest!: 1(1) rmque_clock set_status_clock addque_clock)
qed

lemma queue_ready_ports_clock:
  "queue_ready_ports select wait seconds ticks st = Some (res, st') \<Longrightarrow> clock st' = clock st"
proof (cases "\<not> wait \<and> first (pending_que st) = None")
  case False
  assume q: "queue_ready_ports select wait seconds ticks st = Some (res, st')"
  then obtain limfd s where f: "fill_sets (first (pending_que st)) 0 \<lparr>reads = {}, writes = {}, alls = {}\<rparr> st = Some (limfd, s)"
    using False unfolding queue_ready_ports_def
    by (cases "fill_sets (first (pending_que st)) 0 \<lparr>reads = {}, writes = {}, alls = {}\<rparr> st") auto
  define tvp where "tvp = (if wait then if seconds = - 1 then None
     else Some (seconds, ticks * long_sdiv 1000000 TICKS_PER_SECOND) else Some (0, 0))"
  show ?thesis
  proof (cases "select limfd s tvp")
    case (Inl e)
    then show ?thesis using q False f by (auto simp: queue_ready_ports_def tvp_def Let_def split: if_splits)
  next
    case (Inr x)
    obtain left s1 where x: "x = (left, s1)" by (cases x)
    have "(if left \<le> 0 then Some (0, st) else do {
               st1 \<leftarrow> move_ready left (FirstOf Pending) s1 st;
               Some (0, if first (pending_que st1) = None then st1\<lparr>poll_time := - 1\<rparr> else st1) }) = Some (res, st')"
      using q False f Inr x by (auto simp: queue_ready_ports_def tvp_def Let_def split: if_splits)
    then show ?thesis by (auto simp: bind_eq_Some_conv split: if_splits dest!: move_ready_clock)
  qed
qed (auto simp: queue_ready_ports_def)

definition poll_answer :: "select_call \<Rightarrow> events \<Rightarrow> fd_lists \<Rightarrow> int + (int \<times> fd_sets)" where
  "poll_answer select st a =
     (if poll_time st \<noteq> - 1 \<and> poll_time st \<le>s current_time st \<and> pending_fds a \<noteq> []
      then select (limit (pending_fds a)) (asked a) (Some (0, 0)) else Inr (0, asked a))"

definition after_poll :: "int + (int \<times> fd_sets) \<Rightarrow> fd_lists \<Rightarrow> fd_lists" where
  "after_poll answer a = (case answer of
       Inl e \<Rightarrow> a
     | Inr (left, s) \<Rightarrow> if left \<le> 0 then a else complete (became_ready a s) a)"

text \<open>
  Property C28. \<open>get_next_event\<close> on a state that represents the lists \<open>a\<close> always returns.
  A keyboard interrupt comes first; otherwise, when a poll is due and something is pending,
  \<open>select\<close> is asked, and an error of it other than an interruption is the event; otherwise
  the descriptor that has been ready for longest after that poll is the event, then an alarm
  that is due, and only when none of these is there no event. The state it leaves represents
  the lists that follow.
\<close>

theorem get_next_event_refines:
  assumes "represents st a" "select_ok select"
  defines "answer \<equiv> poll_answer select st a"
  shows "\<exists>ev st'. get_next_event select st = Some (ev, st') \<and> complaints st' = complaints st \<and>
     (if 0 <s keyboard_interrupt_count st
      then ev = KEYBOARD_INTERRUPT_EVENT \<and> represents st' a \<and>
           keyboard_interrupt_count st' = keyboard_interrupt_count st - 1
      else if \<exists>e. answer = Inl e \<and> e \<noteq> 0 \<and> e \<noteq> EINTR
      then ev = ERROR_EVENT (projl answer) \<and> represents st' a
      else ev = due_event st (after_poll answer a) \<and> represents st' (take_ready (after_poll answer a)))"
proof (cases "0 <s keyboard_interrupt_count st")
  case True
  then show ?thesis using assms(1) by (simp add: get_next_event_def)
next
  case no_key: False
  have due: "due_event st1 b = due_event st b" if "clock st1 = clock st" for st1 b
    using that by (simp add: due_event_def clock_def)
  show ?thesis
  proof (cases "poll_time st \<noteq> - 1 \<and> poll_time st \<le>s current_time st")
    case False
    have "get_next_event select st = next_event_after_poll st"
      by (simp only: get_next_event_def if_not_P [OF no_key] if_not_P [OF False])
    moreover have "answer = Inr (0, asked a)" using False by (auto simp: answer_def poll_answer_def)
    ultimately show ?thesis using next_event_after_poll_ok [OF assms(1)] no_key
      by (auto simp: after_poll_def)
  next
    case True
    obtain res st1 where q: "queue_ready_ports select False 0 0 st = Some (res, st1)"
      "complaints st1 = complaints st"
      "if pending_fds a = [] then res = 0 \<and> st1 = st
      else case select (limit (pending_fds a)) (asked a) (Some (0, 0)) of
        Inl errno \<Rightarrow> res = errno \<and> st1 = st
      | Inr (left, s) \<Rightarrow> res = 0 \<and>
          (if left \<le> 0 then st1 = st else represents st1 (complete (became_ready a s) a))"
      using queue_ready_ports_ok [OF assms(1,2), of False 0 0] by (auto cong: if_cong)
    have r: "represents st1 (after_poll answer a)" "res = (case answer of Inl e \<Rightarrow> e | Inr x \<Rightarrow> 0)"
      using q(3) assms(1) True
      by (auto simp: answer_def poll_answer_def after_poll_def split: sum.splits if_splits)
    have clk: "clock st1 = clock st" by (rule queue_ready_ports_clock [OF q(1)])
    define st2 where "st2 = (if res = 0 then st1\<lparr>poll_time := current_time st1 + poll_interval st1\<rparr> else st1)"
    have "represents st2 (after_poll answer a)" "clock st2 = clock st" "complaints st2 = complaints st"
      using r(1) clk q(2) by (simp_all add: st2_def)
    note after = next_event_after_poll_ok [OF this(1)] due [OF this(2)] this(3)
    have g: "get_next_event select st =
      (if res \<noteq> 0 \<and> res \<noteq> EINTR then Some (ERROR_EVENT res, st1) else next_event_after_poll st2)"
      using no_key True q(1) by (simp add: get_next_event_def st2_def)
    show ?thesis
    proof (cases "res \<noteq> 0 \<and> res \<noteq> EINTR")
      case err: True
      then obtain e where "answer = Inl e" "e = res" using r(2) by (cases answer) auto
      then show ?thesis using g err no_key r(1) q(2) by (simp add: after_poll_def)
    next
      case False
      then have "\<not> (\<exists>e. answer = Inl e \<and> e \<noteq> 0 \<and> e \<noteq> EINTR)" using r(2) by auto
      moreover have "get_next_event select st = next_event_after_poll st2" using g False by auto
      ultimately show ?thesis using no_key after by auto
    qed
  qed
qed

lemma get_next_event_refines_witness:
  "\<exists>ev st'. get_next_event demo_select demo_events = Some (ev, st') \<and> ev = IO_COMPLETION_EVENT 5 \<and>
     represents st' (take_ready demo_lists)"
proof -
  have "\<not> 0 <s keyboard_interrupt_count demo_events" "poll_answer demo_select demo_events demo_lists = Inr (0, asked demo_lists)"
    "due_event demo_events demo_lists = IO_COMPLETION_EVENT 5"
    by (simp_all add: demo_events_def events_init_def poll_answer_def due_event_def demo_lists_def
        word_sle_eq)
  then show ?thesis
    using get_next_event_refines [OF demo_represents demo_select_ok] by (auto simp: after_poll_def)
qed

subsection \<open>Alarms\<close>

lemma sint_small_of_nat:
  assumes "n < 2147483648"
  shows "sint (of_nat n :: long) = int n"
proof -
  have "uint (of_nat n :: long) = int n" using uint_word_of_int_id [of "int n"] assms by simp
  then show ?thesis using assms by (simp add: sint_small)
qed

lemma alarm_ticks_fields:
  "current_time ((when_alarm_interrupt ^^ n) st) = current_time st + of_nat n \<and>
   alarm_time ((when_alarm_interrupt ^^ n) st) = alarm_time st \<and>
   poll_time ((when_alarm_interrupt ^^ n) st) = poll_time st"
  by (induction n) (simp_all add: when_alarm_interrupt_def Let_def NOTE_EVENT_def)

lemma TICKS_PER_POLL_50: "TICKS_PER_POLL = 50"
  by (simp add: TICKS_PER_POLL_def long_sdiv_def TICKS_PER_SECOND_def POLLS_PER_SECOND_def)

text \<open>
  Property C30. An alarm is signalled when it is due and not before: after
  \<open>schedule_alarm_interrupt\<close> with a delay of \<open>k\<close> polls, \<open>k\<close> positive, with no poll scheduled and no
  event noted, the first \<open>k - 1\<close> timer signals note no event; the signal \<open>k\<close> does, and from
  then on, with no port ready and no keyboard interrupt, the next event is the alarm.
\<close>

theorem alarm_fires:
  assumes "0 < k" "k \<le> 42949672" "poll_time st = - 1" "\<not> Spending_eventsPS st"
  defines "st0 \<equiv> snd (schedule_alarm_interrupt (of_nat (k * 50)) st)"
  shows "(\<forall>j<k. \<not> Spending_eventsPS ((when_alarm_interrupt ^^ j) st0)) \<and>
     Spending_eventsPS ((when_alarm_interrupt ^^ k) st0) \<and>
     due_event ((when_alarm_interrupt ^^ k) st0) \<lparr>ready_fds = [], pending_fds = [], direction = (\<lambda>_. None)\<rparr>
       = ALARM_EVENT"
proof -
  have delta: "sint (of_nat (k * 50) :: long) = int (k * 50)"
    using sint_small_of_nat [of "k * 50"] assms(2) by simp
  then have "(of_nat (k * 50) :: long) \<noteq> 0" using assms(1) sint_eq_0 by force
  moreover have "long_sdiv (of_nat (k * 50)) 50 = of_nat k"
    unfolding long_sdiv_def delta by (simp add: sgn_if signed_divide_int_def)
  ultimately have st0: "current_time st0 = 0" "alarm_time st0 = of_nat k" "poll_time st0 = - 1"
    "\<not> Spending_eventsPS st0"
    using assms(3,4) by (simp_all add: st0_def schedule_alarm_interrupt_def Let_def TICKS_PER_POLL_50)
  have s: "sint (of_nat j :: long) = int j" if "j \<le> k" for j
    using sint_small_of_nat [of j] that assms(2) by simp
  note f = alarm_ticks_fields [of _ st0, unfolded st0]
  have tick: "Spending_eventsPS ((when_alarm_interrupt ^^ Suc j) st0) \<longleftrightarrow>
      Spending_eventsPS ((when_alarm_interrupt ^^ j) st0) \<or> Suc j = k" if "j < k" for j
  proof -
    have "current_time ((when_alarm_interrupt ^^ j) st0) + 1 = of_nat (Suc j)" using f by simp
    moreover have "sint (of_nat (Suc j) :: long) = int (Suc j)" "sint (of_nat k :: long) = int k"
      using that by (intro s; simp)+
    ultimately show ?thesis using that f
      by (simp add: when_alarm_interrupt_def Let_def NOTE_EVENT_def word_sle_eq del: of_nat_Suc)
  qed
  have before: "\<not> Spending_eventsPS ((when_alarm_interrupt ^^ j) st0)" if "j < k" for j
    using that
  proof (induction j)
    case (Suc j)
    then show ?case using tick [of j] by simp
  qed (simp add: st0)
  obtain j where j: "k = Suc j" using assms(1) by (cases k) auto
  have "(of_nat k :: long) \<noteq> - 1"
  proof
    assume "(of_nat k :: long) = - 1"
    then show False using s [of k] by (simp del: of_nat_eq_iff)
  qed
  then have "due_event ((when_alarm_interrupt ^^ k) st0)
      \<lparr>ready_fds = [], pending_fds = [], direction = (\<lambda>_. None)\<rparr> = ALARM_EVENT"
    using f [of k] by (simp add: due_event_def word_sle_eq)
  moreover have "Spending_eventsPS ((when_alarm_interrupt ^^ k) st0)" using tick [of j] j by simp
  ultimately show ?thesis using before by blast
qed

lemma alarm_fires_witness:
  "\<not> Spending_eventsPS ((when_alarm_interrupt ^^ 1) (snd (schedule_alarm_interrupt 100 events_init))) \<and>
   Spending_eventsPS ((when_alarm_interrupt ^^ 2) (snd (schedule_alarm_interrupt 100 events_init)))"
proof -
  have init: "poll_time events_init = - 1" "\<not> Spending_eventsPS events_init" "of_nat (2 * 50) = (100 :: long)"
    by (simp_all add: events_init_def)
  note fires = alarm_fires [of 2 events_init, unfolded init(3), OF _ _ init(1,2), simplified]
  show ?thesis using conjunct1 [OF fires, rule_format, of 1] conjunct1 [OF conjunct2 [OF fires]] by simp
qed

text \<open>
  A delay of zero does not cancel the alarm: it makes the alarm due at once,
  whatever the clock and the alarm were, and notes an event; a delay of less than one poll
  also makes it due at once. (The comment on \<open>schedule_alarm_interrupt\<close> says that zero cancels
  the current alarm.)
\<close>

theorem alarm_zero_is_due:
  assumes "0 \<le>s delta" "delta <s 50"
  shows "(let st' = snd (schedule_alarm_interrupt delta st)
      in alarm_time st' \<noteq> - 1 \<and> alarm_time st' \<le>s current_time st' \<and> (delta = 0 \<longrightarrow> Spending_eventsPS st'))"
proof -
  have "0 \<le> sint delta" "sint delta < 50" using assms by (simp_all add: word_sle_eq word_sless_alt)
  then have "long_sdiv delta 50 = 0" by (simp add: long_sdiv_def signed_divide_int_def sgn_if)
  then show ?thesis
    by (simp add: schedule_alarm_interrupt_def Let_def TICKS_PER_POLL_50 NOTE_EVENT_def)
qed

lemma alarm_zero_is_due_witness:
  "Spending_eventsPS (snd (schedule_alarm_interrupt 0 events_init))"
  using alarm_zero_is_due [of 0 events_init] by (simp add: Let_def word_sless_alt)

text \<open>
  Scheduling an alarm resets the clock and keeps the time that is left until
  the next poll, with one exception: when the poll is overdue by exactly one tick, its
  time becomes \<open>- 1\<close>, which means that no poll is scheduled, so pending descriptors are no
  longer polled.
\<close>

theorem schedule_alarm_poll:
  assumes "poll_time st \<noteq> - 1" "st' = snd (schedule_alarm_interrupt delta st)"
  shows "current_time st' = 0 \<and> poll_time st' = poll_time st - current_time st \<and>
     (poll_time st' = - 1 \<longleftrightarrow> current_time st = poll_time st + 1)"
proof -
  have "poll_time st' = poll_time st - current_time st" "current_time st' = 0"
    using assms by (simp_all add: schedule_alarm_interrupt_def Let_def NOTE_EVENT_def)
  moreover have "p - c = - 1 \<longleftrightarrow> c = p + 1" for p c :: long
    by (auto simp: algebra_simps)
  ultimately show ?thesis by simp
qed

lemma schedule_alarm_poll_witness:
  "poll_time (snd (schedule_alarm_interrupt 100 (demo_events\<lparr>current_time := 6\<rparr>))) = - 1 \<and>
   represents (snd (schedule_alarm_interrupt 100 (demo_events\<lparr>current_time := 6\<rparr>))) demo_lists"
proof
  show "poll_time (snd (schedule_alarm_interrupt 100 (demo_events\<lparr>current_time := 6\<rparr>))) = - 1"
    using schedule_alarm_poll [of "demo_events\<lparr>current_time := 6\<rparr>" _ 100] by (simp add: demo_events_def)
  show "represents (snd (schedule_alarm_interrupt 100 (demo_events\<lparr>current_time := 6\<rparr>))) demo_lists"
    using demo_represents by (simp add: schedule_alarm_interrupt_def Let_def)
qed

end
