(* ===== verification/Fd_Io.thy ===== *)
theory Fd_Io
  imports Files Events_Facts
begin

text \<open>
  \<open>src/c/unix/fd-io.c\<close>: opening, closing, reading and writing file descriptors without
  blocking. The system calls are functions
  on a state \<open>'os\<close> of the operating system; a call that sets \<open>errno\<close> gives its value beside
  its result. Retrying an interrupted call may go on forever, in which case the operation
  has the value \<open>None\<close>. A status that the code leaves unset is \<open>None\<close> as well.
\<close>

datatype open_flag = O_RDONLY | O_WRONLY | O_CREAT | O_TRUNC | O_NONBLOCK

type_synonym 'os call = "'os \<Rightarrow> (int \<times> int) \<times> 'os"

text \<open>The loops that keep trying when a call is interrupted: its first other answer.\<close>

partial_function (option) retry :: "'os call \<Rightarrow> 'os \<Rightarrow> ((int \<times> int) \<times> 'os) option" where
  "retry call os =
     (case call os of ((result, errno), os1) \<Rightarrow>
        if result \<noteq> - 1 then Some ((result, errno), os1)
        else if errno \<noteq> EINTR then Some ((result, errno), os1)
        else retry call os1)"

declare retry.simps [code]

text \<open>The file descriptor and the status.\<close>

definition ps_open_fd ::
  "(byte list \<Rightarrow> byte list option) \<Rightarrow> (byte list \<Rightarrow> byte list option) \<Rightarrow>
   (byte list \<Rightarrow> open_flag list \<Rightarrow> int \<Rightarrow> 'os call) \<Rightarrow>
     byte list \<Rightarrow> bool \<Rightarrow> 'os \<Rightarrow> ((int \<times> int option) \<times> 'os) option" where
  "ps_open_fd getenv getpwnam open_call filename inp os =
     (case expand_file_name getenv getpwnam filename FILE_NAME_SIZE of
        Inl _ \<Rightarrow> Some ((- 1, None), os)
      | Inr expanded \<Rightarrow>
          let flags = (if inp then [O_RDONLY] else [O_WRONLY, O_CREAT, O_TRUNC, O_NONBLOCK]);
              mode = (if inp then 0 else 438)
          in do {
            ((fd, errno), os1) \<leftarrow> retry (open_call expanded flags mode) os;
            Some (if fd \<noteq> - 1 then (fd, Some NO_ERRORS) else (- 1, Some errno), os1) })"

definition ps_close_fd ::
  "(int \<Rightarrow> 'os call) \<Rightarrow> int \<Rightarrow> events \<Rightarrow> 'os \<Rightarrow> (int \<times> events \<times> 'os) option" where
  "ps_close_fd close_call n ev os = do {
     ((result, errno), os1) \<leftarrow> retry (close_call n) os;
     if result \<noteq> - 1
     then do { (_, ev1) \<leftarrow> remove_fd n ev; Some (NO_ERRORS, ev1, os1) }
     else Some (errno, ev, os1) }"

text \<open>What a read gives: how many bytes, whether at the end of the file, whether pending, the status.\<close>

record read_result =
  got :: int
  eofp :: bool
  pending :: bool
  rd_status :: int

definition normal_read :: "int \<Rightarrow> read_result" where
  "normal_read n = \<lparr>got = n, eofp = False, pending = False, rd_status = NO_ERRORS\<rparr>"

text \<open>Nothing can be read now: \<open>new\<close> is the answer of \<open>malloc\<close> in \<open>add_pending_fd\<close>.\<close>

definition no_input ::
  "ptr option \<Rightarrow> int \<Rightarrow> bool \<Rightarrow> events \<Rightarrow> (read_result \<times> events) option" where
  "no_input new n waitp ev =
     (if \<not> waitp then Some (normal_read 0, ev)
      else do {
        (ok, ev1) \<leftarrow> add_pending_fd new n True ev;
        Some (if ok then (normal_read 0)\<lparr>pending := True\<rparr> else (normal_read 0)\<lparr>rd_status := ENOMEM\<rparr>, ev1) })"

partial_function (option) ps_read_fd ::
  "'os call \<Rightarrow> 'os call \<Rightarrow> ptr option \<Rightarrow> int \<Rightarrow> bool \<Rightarrow> events \<Rightarrow> 'os \<Rightarrow>
     (read_result \<times> events \<times> 'os) option" where
  "ps_read_fd select_call read_call new n waitp ev os =
     (case select_call os of ((ready, errno), os1) \<Rightarrow>
        if ready = 0
        then (case no_input new n waitp ev of None \<Rightarrow> None | Some (r, ev1) \<Rightarrow> Some (r, ev1, os1))
        else if ready = - 1
        then (if errno \<noteq> EINTR then Some ((normal_read 0)\<lparr>rd_status := errno\<rparr>, ev, os1)
              else ps_read_fd select_call read_call new n waitp ev os1)
        else (case read_call os1 of ((g, errno1), os2) \<Rightarrow>
               if 0 < g then Some (normal_read g, ev, os2)
               else if g = 0 then Some ((normal_read 0)\<lparr>eofp := True\<rparr>, ev, os2)
               else if errno1 = EINTR then Some (normal_read 0, ev, os2)
               else if errno1 = EAGAIN
               then (case no_input new n waitp ev of None \<Rightarrow> None | Some (r, ev1) \<Rightarrow> Some (r, ev1, os2))
               else Some ((normal_read 0)\<lparr>rd_status := errno1\<rparr>, ev, os2)))"

declare ps_read_fd.simps [code]

text \<open>How many bytes were sent, whether pending, the status.\<close>

definition ps_write_fd ::
  "'os call \<Rightarrow> ptr option \<Rightarrow> int \<Rightarrow> events \<Rightarrow> 'os \<Rightarrow> ((int \<times> bool \<times> int) \<times> events \<times> 'os) option" where
  "ps_write_fd write_call new n ev os =
     (case write_call os of ((sent, errno), os1) \<Rightarrow>
        if 0 < sent then Some ((sent, False, NO_ERRORS), ev, os1)
        else if errno = EINTR \<or> errno = EAGAIN
        then do {
          (ok, ev1) \<leftarrow> add_pending_fd new n False ev;
          Some (if ok then (0, True, NO_ERRORS) else (0, False, ENOMEM), ev1, os1) }
        else Some ((0, False, errno), ev, os1))"

definition ps_abort_fd_op :: "int \<Rightarrow> events \<Rightarrow> (int \<times> events) option" where
  "ps_abort_fd_op n ev = do {
     (ok, ev1) \<leftarrow> remove_fd n ev;
     Some (0, if ok then ev1 else complain (NoPendingOperation n) ev1) }"

subsection \<open>Properties\<close>

text \<open>A call that is interrupted the first \<open>k\<close> times.\<close>

fun interrupted :: "nat \<Rightarrow> 'os call \<Rightarrow> 'os \<Rightarrow> 'os \<Rightarrow> bool" where
  "interrupted 0 call os os' = (os' = os)"
| "interrupted (Suc k) call os os' = (\<exists>os1. call os = ((- 1, EINTR), os1) \<and> interrupted k call os1 os')"

lemma retry_interrupted:
  "interrupted k call os os1 \<Longrightarrow> call os1 = ((result, errno), os2) \<Longrightarrow>
     result \<noteq> - 1 \<or> errno \<noteq> EINTR \<Longrightarrow> retry call os = Some ((result, errno), os2)"
proof (induction k arbitrary: os)
  case 0
  then show ?case by (subst retry.simps) auto
next
  case (Suc k)
  then obtain os' where "call os = ((- 1, EINTR), os')" "interrupted k call os' os1" by auto
  then show ?case using Suc.IH [of os'] Suc.prems by (subst retry.simps) simp
qed

lemma retry_answer:
  assumes "retry call os = Some y"
  shows "fst y \<noteq> (- 1, EINTR)"
proof (rule retry.raw_induct [OF _ assms, where P = "\<lambda>call os y. fst y \<noteq> (- 1, EINTR)"], goal_cases)
  case (1 run call os y)
  obtain r e os' where c: "call os = ((r, e), os')" by (metis surj_pair)
  show ?case using 1(1) [of call os' y] 1(2) by (auto simp: c split: if_splits)
qed

lemma retry_EINTR: "retry call os = Some ((- 1, EINTR), os') \<Longrightarrow> False"
  using retry_answer [of call os "((- 1, EINTR), os')"] by simp

text \<open>
  Property C36. Closing a descriptor succeeds after any number of interruptions, and then
  the descriptor is forgotten: it is on neither queue and has no direction.
\<close>

theorem ps_close_fd_forgets:
  assumes "represents ev a" "interrupted k (close_call n) os os1" "close_call n os1 = ((0, errno), os2)"
  shows "\<exists>ev'. ps_close_fd close_call n ev os = Some (0, ev', os2) \<and>
     (0 \<le> n \<and> n < FD_SETSIZE \<longrightarrow> represents ev' (forget n a))"
proof -
  have "retry (close_call n) os = Some ((0, errno), os2)"
    using retry_interrupted [OF assms(2,3)] by simp
  then show ?thesis using remove_fd_ok [OF assms(1), of n]
    by (auto simp: ps_close_fd_def NO_ERRORS_def)
qed

lemma ps_close_fd_forgets_witness:
  "\<exists>ev'. ps_close_fd (\<lambda>n k. if k = 0 then ((0, 0), 0) else ((- 1, EINTR), k - 1)) 3 demo_events (2 :: nat)
       = Some (0, ev', 0) \<and> represents ev' (forget 3 demo_lists)"
proof -
  let ?close = "\<lambda>(n :: int) k :: nat. if k = 0 then ((0 :: int, 0), 0) else ((- 1, EINTR), k - 1)"
  have "interrupted 2 (?close 3) 2 0" by (simp add: eval_nat_numeral)
  from ps_close_fd_forgets [where close_call = ?close and n = 3, OF demo_represents this, of 0 0] show ?thesis by (auto simp: FD_SETSIZE_def)
qed

definition read_case :: "ptr option \<Rightarrow> int \<Rightarrow> bool \<Rightarrow> events \<Rightarrow> read_result \<Rightarrow> events \<Rightarrow> bool" where
  "read_case new n waitp ev r ev' \<longleftrightarrow> no_input new n waitp ev = Some (r, ev') \<or>
     ev' = ev \<and> ((\<exists>g>0. r = normal_read g) \<or> r = (normal_read 0)\<lparr>eofp := True\<rparr> \<or>
       (\<exists>e. r = (normal_read 0)\<lparr>rd_status := e\<rparr>))"

lemma normal_read_status: "normal_read g = (normal_read g)\<lparr>rd_status := NO_ERRORS\<rparr>"
  by (simp add: normal_read_def)

lemma ps_read_fd_case:
  assumes "ps_read_fd select_call read_call new n waitp ev os = Some res"
  shows "read_case new n waitp ev (fst res) (fst (snd res))"
proof (rule ps_read_fd.raw_induct [OF _ assms,
      where P = "\<lambda>sel rd new n waitp ev os res. read_case new n waitp ev (fst res) (fst (snd res))"], goal_cases)
  case (1 run sel rd new n waitp ev os res)
  obtain ready errno os1 where s: "sel os = ((ready, errno), os1)" by (metis surj_pair)
  obtain g errno1 os2 where r: "rd os1 = ((g, errno1), os2)" by (metis surj_pair)
  show ?case
  proof (cases "ready = - 1 \<and> errno = EINTR")
    case True
    then show ?thesis using 1(1) [of sel rd new n waitp ev os1 res] 1(2) by (simp add: s)
  next
    case False
    then show ?thesis using 1(2) normal_read_status [of 0]
      by (auto simp: s r read_case_def split: if_splits option.splits)
  qed
qed

text \<open>
  Property C37. Whatever the operating system answers, a read that returns has exactly one
  outcome: some bytes, or the end of the file, or a pending operation, which is then
  registered for input, or an error, or nothing at all (no input and not waiting, or an
  interrupted read). The queues change only when the operation is pending.
\<close>

theorem ps_read_fd_outcome:
  assumes "represents ev a" "\<forall>p. new = Some p \<longrightarrow> store ev p = None"
    and "ps_read_fd select_call read_call new n waitp ev os = Some (r, ev', os')"
  shows "0 \<le> got r \<and> (0 < got r \<longrightarrow> r = normal_read (got r)) \<and>
     (eofp r \<longrightarrow> r = (normal_read 0)\<lparr>eofp := True\<rparr>) \<and>
     (if pending r then waitp \<and> r = (normal_read 0)\<lparr>pending := True\<rparr> \<and> represents ev' (pend n True a)
      else represents ev' a)"
proof -
  have no_input: "r = (normal_read 0)\<lparr>pending := True\<rparr> \<and> waitp \<and> represents ev' (pend n True a) \<or>
      (r = normal_read 0 \<or> r = (normal_read 0)\<lparr>rd_status := ENOMEM\<rparr>) \<and> represents ev' a"
    if "no_input new n waitp ev = Some (r, ev')" for r ev'
  proof (cases waitp)
    case True
    have rep: "represents (complain c ev) a" for c
      using assms(1) by (simp add: represents_def queues_ok_def) (simp add: complain_def)
    show ?thesis
      using that True add_pending_fd_ok [OF assms(1,2), of n True] rep assms(1)
      by (auto simp: no_input_def split: if_splits)
  qed (use that assms(1) in \<open>auto simp: no_input_def\<close>)
  have "read_case new n waitp ev r ev'" using ps_read_fd_case [OF assms(3)] by simp
  then show ?thesis using no_input assms(1) by (auto simp: read_case_def normal_read_def)
qed

lemma ps_read_fd_outcome_witness:
  "\<exists>ev'. ps_read_fd (\<lambda>k. ((0, 0), k)) (\<lambda>k. ((- 1, EAGAIN), k)) (Some 9) 6 True demo_events ()
       = Some ((normal_read 0)\<lparr>pending := True\<rparr>, ev', ()) \<and> represents ev' (pend 6 True demo_lists)"
proof -
  have fresh: "\<forall>p. Some 9 = Some p \<longrightarrow> store demo_events p = None" by (simp add: demo_events_def)
  obtain ev' where "add_pending_fd (Some 9) 6 True demo_events = Some (True, ev')"
    using add_pending_fd_ok [OF demo_represents fresh, of 6 True] by (auto simp: FD_SETSIZE_def)
  then have r: "ps_read_fd (\<lambda>k. ((0, 0), k)) (\<lambda>k. ((- 1, EAGAIN), k)) (Some 9) 6 True demo_events ()
       = Some ((normal_read 0)\<lparr>pending := True\<rparr>, ev', ())"
    by (subst ps_read_fd.simps) (simp add: no_input_def)
  from ps_read_fd_outcome [OF demo_represents fresh r] r show ?thesis by simp
qed

text \<open>
  When the file name cannot be expanded \<open>ps_open_fd\<close> fails without setting the
  status, where opening a stream sets it; in every other case a failure carries the error
  number of \<open>open\<close>, and a success the descriptor \<open>open\<close> gave.
\<close>

theorem ps_open_fd_status:
  assumes "ps_open_fd getenv getpwnam open_call filename inp os = Some ((n, stat), os')"
  shows "(stat = None \<longleftrightarrow> (\<exists>e. expand_file_name getenv getpwnam filename 1024 = Inl e)) \<and>
     (stat = Some NO_ERRORS \<and> n \<noteq> - 1 \<or> n = - 1 \<and> stat \<noteq> Some EINTR) \<and>
     (stat = None \<longrightarrow> n = - 1 \<and> os' = os \<and>
       ps_really_open_file getenv getpwnam fopen filename mode = (None, EDOM))"
proof -
  show ?thesis using assms
    by (auto simp: ps_open_fd_def ps_really_open_file_def FILE_NAME_SIZE_def bind_eq_Some_conv Let_def
        split: sum.splits if_splits dest!: retry_EINTR)
qed

lemma ps_open_fd_status_witness:
  "\<exists>e. expand_file_name (\<lambda>_. None) (\<lambda>_. None) [126, 120] 1024 = Inl e"
proof -
  have "ps_open_fd (\<lambda>_. None) (\<lambda>_. None) (\<lambda>_ _ _ os. ((3, 0), os)) [126, 120] True () = Some ((- 1, None), ())"
    by (simp add: ps_open_fd_def expand_file_name_def USER_NAME_SIZE_def)
  from ps_open_fd_status [OF this, of "\<lambda>_ _. Inl 2 :: int + unit" 0] show ?thesis by blast
qed

end
