(* ===== verification/Sockets.thy ===== *)
theory Sockets
  imports Fd_Io
begin

text \<open>
  \<open>src/c/unix/socket.c\<close>: internet stream sockets. The calls of the socket interface are the
  fields of a record, functions on the state \<open>'os\<close> of the operating system; a port in a
  socket address is a 16-bit word in network order.
\<close>

definition AF_INET :: int where "AF_INET = 2"
definition LISTENQ :: int where "LISTENQ = 5"
definition EISCONN :: int where "EISCONN = 106"
definition EALREADY :: int where "EALREADY = 114"
definition EINPROGRESS :: int where "EINPROGRESS = 115"
definition EWOULDBLOCK :: int where "EWOULDBLOCK = EAGAIN"

text \<open>Swapping the two bytes, on a little-endian machine.\<close>

definition htons :: "16 word \<Rightarrow> 16 word" where
  "htons w = push_bit 8 w OR drop_bit 8 w"

record sockaddr_in =
  sin_family :: int
  sin_port :: "16 word"
  sin_addr :: "byte list"

record 'os net =
  sys_socket :: "'os \<Rightarrow> int \<times> 'os"
  sys_nonblock :: "int \<Rightarrow> 'os \<Rightarrow> 'os"
  sys_bind :: "int \<Rightarrow> sockaddr_in \<Rightarrow> 'os \<Rightarrow> int \<times> 'os"
  sys_listen :: "int \<Rightarrow> int \<Rightarrow> 'os \<Rightarrow> int \<times> 'os"
  sys_getsockname :: "int \<Rightarrow> 'os \<Rightarrow> (int \<times> sockaddr_in) \<times> 'os"
  sys_accept :: "int \<Rightarrow> 'os call"
  sys_gethostname :: "'os \<Rightarrow> byte list option"
  sys_gethostbyname :: "byte list \<Rightarrow> 'os \<Rightarrow> (int \<times> byte list) option"
  sys_connect :: "int \<Rightarrow> sockaddr_in \<Rightarrow> 'os call"
  sys_nodelay :: "int \<Rightarrow> int \<Rightarrow> 'os \<Rightarrow> int \<times> 'os"

definition internet_stream_socket :: "'os net \<Rightarrow> 'os \<Rightarrow> int \<times> 'os" where
  "internet_stream_socket net os =
     (let (res, os1) = sys_socket net os
      in if res < 0 then (res, os1) else (res, sys_nonblock net res os1))"

definition bind_address :: "int \<Rightarrow> sockaddr_in" where
  "bind_address port = \<lparr>sin_family = AF_INET, sin_port = htons (word_of_int port), sin_addr = [0, 0, 0, 0]\<rparr>"

definition socket_bind :: "'os net \<Rightarrow> int \<Rightarrow> int \<Rightarrow> 'os \<Rightarrow> int \<times> 'os" where
  "socket_bind net sock port os =
     (let (bound, os1) = sys_bind net sock (bind_address port) os
      in if bound < 0 then (- 1, os1)
         else let (listening, os2) = sys_listen net sock LISTENQ os1
              in if listening < 0 then (- 1, os2)
                 else if port = 0
                 then let ((named, addr1), os3) = sys_getsockname net sock os2
                      in if named < 0 \<or> sin_family addr1 \<noteq> AF_INET then (- 1, os3)
                         else (uint (htons (sin_port addr1)), os3)
                 else (port, os2))"

definition socket_accept ::
  "'os net \<Rightarrow> ptr option \<Rightarrow> int \<Rightarrow> events \<Rightarrow> 'os \<Rightarrow> (int \<times> events \<times> 'os) option" where
  "socket_accept net new sock ev os =
     (case sys_accept net sock os of ((res, errno), os1) \<Rightarrow>
        if 0 \<le> res then Some (res, ev, sys_nonblock net res os1)
        else if errno = EWOULDBLOCK \<or> errno = EINTR \<or> errno = EAGAIN
        then do {
          (ok, ev1) \<leftarrow> add_pending_fd new sock True ev;
          Some (if ok then - 2 else - 1, ev1, os1) }
        else Some (- 1, ev, os1))"

text \<open>The attempt to connect, once the machine has an address.\<close>

definition connect_to ::
  "'os net \<Rightarrow> ptr option \<Rightarrow> int \<Rightarrow> sockaddr_in \<Rightarrow> events \<Rightarrow> 'os \<Rightarrow> (int \<times> events \<times> 'os) option" where
  "connect_to net new sock addr ev os =
     (case sys_connect net sock addr os of ((res, errno), os1) \<Rightarrow>
        if 0 \<le> res then Some (sock, ev, os1)
        else if errno = EISCONN then Some (sock, ev, os1)
        else if errno \<in> {EWOULDBLOCK, EINTR, EINPROGRESS, EALREADY, EAGAIN}
        then do {
          (ok, ev1) \<leftarrow> add_pending_fd new sock False ev;
          Some (if ok then - 2 else - 1, ev1, os1) }
        else Some (- 1, ev, os1))"

definition socket_connect ::
  "'os net \<Rightarrow> ptr option \<Rightarrow> int \<Rightarrow> byte list \<Rightarrow> int \<Rightarrow> events \<Rightarrow> 'os \<Rightarrow> (int \<times> events \<times> 'os) option" where
  "socket_connect net new sock mach port ev os =
     (case (if mach = [] then sys_gethostname net os else Some mach) of
        None \<Rightarrow> Some (- 1, ev, os)
      | Some name \<Rightarrow>
          (case sys_gethostbyname net name os of
             None \<Rightarrow> Some (- 1, ev, os)
           | Some (h_addrtype, h_addr) \<Rightarrow>
               if 4 < length h_addr then Some (- 1, ev, os)
               else connect_to net new sock
                 \<lparr>sin_family = h_addrtype, sin_port = htons (word_of_int port),
                  sin_addr = h_addr @ replicate (4 - length h_addr) 0\<rparr> ev os))"

definition socket_nodelay :: "'os net \<Rightarrow> int \<Rightarrow> int \<Rightarrow> 'os \<Rightarrow> bool \<times> 'os" where
  "socket_nodelay net sock nodelay os =
     (let (stat, os1) = sys_nodelay net sock (if nodelay \<noteq> 0 then 1 else 0) os in (stat = 0, os1))"

subsection \<open>Properties\<close>

lemma htons_htons [simp]: "htons (htons w) = w"
proof (rule bit_word_eqI)
  fix n assume "n < LENGTH(16)"
  then show "bit (htons (htons w)) n = bit w n"
    by (auto simp: htons_def bit_simps)
qed

text \<open>
  A bind that succeeds reports the port the socket is bound to, the one that
  was asked for or, when that was 0, the one the system chose, provided the port asked for
  is at least 0 and below \<open>2 ^ 16\<close>; any other number is reported as it is, although the
  socket is bound to its value modulo \<open>2 ^ 16\<close>.
\<close>

theorem socket_bind_port:
  assumes "socket_bind net sock port os = (res, os')" "res \<noteq> - 1" "port \<noteq> - 1"
  shows "0 \<le> fst (sys_bind net sock (bind_address port) os) \<and>
     uint (htons (sin_port (bind_address port))) = port mod 65536 \<and>
     (if port = 0
      then \<exists>os2. res = uint (htons (sin_port (snd (fst (sys_getsockname net sock os2)))))
      else res = port)"
proof -
  obtain b os1 where b: "sys_bind net sock (bind_address port) os = (b, os1)" by fastforce
  obtain l os2 where l: "sys_listen net sock LISTENQ os1 = (l, os2)" by fastforce
  obtain g addr1 os3 where g: "sys_getsockname net sock os2 = ((g, addr1), os3)" by (metis surj_pair)
  have "0 \<le> b" using assms b by (auto simp: socket_bind_def Let_def split: if_splits)
  moreover have "uint (htons (sin_port (bind_address port))) = port mod 65536"
    by (simp add: uint_word_of_int bind_address_def)
  moreover have "if port = 0 then res = uint (htons (sin_port addr1)) else res = port"
    using assms b l g by (auto simp: socket_bind_def Let_def split: if_splits)
  moreover have "sin_port addr1 = sin_port (snd (fst (sys_getsockname net sock os2)))" by (simp add: g)
  ultimately show ?thesis using b by (auto split: if_splits)
qed

definition demo_net :: "unit net" where
  "demo_net = \<lparr>sys_socket = (\<lambda>os. (3, os)), sys_nonblock = (\<lambda>_ os. os), sys_bind = (\<lambda>_ _ os. (0, os)),
     sys_listen = (\<lambda>_ _ os. (0, os)),
     sys_getsockname = (\<lambda>_ os. ((0, \<lparr>sin_family = 2, sin_port = 80, sin_addr = [0, 0, 0, 0]\<rparr>), os)),
     sys_accept = (\<lambda>_ os. ((- 1, 11), os)), sys_gethostname = (\<lambda>_. Some [104]),
     sys_gethostbyname = (\<lambda>_ _. Some (2, [127, 0, 0, 1])), sys_connect = (\<lambda>_ _ os. ((- 1, 115), os)),
     sys_nodelay = (\<lambda>_ _ os. (0, os))\<rparr>"

lemma socket_bind_port_witness:
  "fst (socket_bind demo_net 3 65536 ()) = 65536 \<and> uint (htons (sin_port (bind_address 65536))) = 0"
proof -
  have s: "socket_bind demo_net 3 65536 () = (65536, ())" by (simp add: socket_bind_def demo_net_def)
  from socket_bind_port [OF s] s show ?thesis by simp
qed

definition pending_outcome ::
  "(int \<times> events \<times> 'os) option \<Rightarrow> int \<Rightarrow> bool \<Rightarrow> fd_lists \<Rightarrow> bool" where
  "pending_outcome op sock inp a \<longleftrightarrow> (\<exists>res ev' os'. op = Some (res, ev', os') \<and>
     (if res = - 2 then represents ev' (pend sock inp a) else represents ev' a))"

lemma pending_outcome_Some:
  "pending_outcome (Some (res, ev', os')) sock inp a \<longleftrightarrow>
     (if res = - 2 then represents ev' (pend sock inp a) else represents ev' a)"
  by (simp add: pending_outcome_def)

text \<open>
  Property C38. Accepting and connecting give \<open>- 2\<close> exactly when the operation has been put on
  the pending queue, for input and for output respectively; with any other result the
  queues are as they were.
\<close>

theorem socket_pending:
  assumes "represents ev a" "\<forall>p. new = Some p \<longrightarrow> store ev p = None" "0 \<le> sock"
  shows "pending_outcome (socket_accept net new sock ev os) sock True a \<and>
     pending_outcome (socket_connect net new sock mach port ev os) sock False a"
proof -
  have rep: "represents (complain c ev) a" for c
    using assms(1) by (simp add: represents_def queues_ok_def) (simp add: complain_def)
  have add: "\<exists>ok ev1. add_pending_fd new sock inp ev = Some (ok, ev1) \<and>
      (if ok then represents ev1 (pend sock inp a) else represents ev1 a)" for inp
    using add_pending_fd_ok [OF assms(1,2), of sock inp] assms(1) rep by (auto split: if_splits)
  have "pending_outcome (connect_to net new sock addr ev os) sock False a" for addr
  proof -
    obtain r e os1 where c: "sys_connect net sock addr os = ((r, e), os1)" by (metis surj_pair)
    show ?thesis using add [of False] assms(1,3)
      by (auto simp: connect_to_def c pending_outcome_Some split: if_splits)
  qed
  then have "pending_outcome (socket_connect net new sock mach port ev os) sock False a"
    using assms(1) by (simp add: socket_connect_def pending_outcome_Some split: option.split)
  moreover obtain r e os1 where c: "sys_accept net sock os = ((r, e), os1)" by (metis surj_pair)
  then have "pending_outcome (socket_accept net new sock ev os) sock True a"
    using add [of True] assms(1) by (auto simp: socket_accept_def c pending_outcome_Some)
  ultimately show ?thesis by blast
qed

lemma socket_pending_witness:
  "pending_outcome (socket_accept demo_net (Some 9) 6 demo_events ()) 6 True demo_lists"
proof -
  have "\<forall>p. Some 9 = Some p \<longrightarrow> store demo_events p = None" by (simp add: demo_events_def)
  from socket_pending [OF demo_represents this, of 6 demo_net "()"] show ?thesis by simp
qed

end
