(* ===== verification/Dynamo.thy ===== *)
theory Dynamo
  imports Descriptors
begin

text \<open>
  \<open>src/c/unix/dynamo.c\<close>: looking up external names, and dynamic loading. The calls of the
  dynamic linker are functions on a state \<open>'os\<close>; handles are numbers. \<open>dlopen\<close> and \<open>dlsym\<close>
  give \<open>None\<close> where \<open>dlerror\<close> would give a message. The variant for machines that have only
  \<open>nlist\<close> is here as well.
\<close>

subsection \<open>Loaded libraries\<close>

record dlob =
  dl_name :: "byte list"
  handle :: nat

record dynamo =
  dlobs :: "dlob list"
  self :: "nat option"

type_synonym 'os dlopen_call = "byte list option \<Rightarrow> 'os \<Rightarrow> nat option \<times> 'os"
type_synonym dlsym_call = "nat \<Rightarrow> byte list \<Rightarrow> addr option"

text \<open>The loop over the libraries: the first that has the name.\<close>

fun lookup_dlobs :: "dlsym_call \<Rightarrow> dlob list \<Rightarrow> byte list \<Rightarrow> addr option" where
  "lookup_dlobs dlsym [] name = None"
| "lookup_dlobs dlsym (dp # dps) name =
     (case dlsym (handle dp) name of Some res \<Rightarrow> Some res | None \<Rightarrow> lookup_dlobs dlsym dps name)"

text \<open>The location, if the result is true.\<close>

definition lookup_external_name ::
  "'os dlopen_call \<Rightarrow> dlsym_call \<Rightarrow> byte list \<Rightarrow> dynamo \<Rightarrow> 'os \<Rightarrow> addr option \<times> dynamo \<times> 'os" where
  "lookup_external_name dlopen dlsym name d os =
     (case lookup_dlobs dlsym (dlobs d) name of
        Some res \<Rightarrow> (Some res, d, os)
      | None \<Rightarrow>
          (case self d of
             Some h \<Rightarrow> (dlsym h name, d, os)
           | None \<Rightarrow>
               (case dlopen None os of
                  (None, os1) \<Rightarrow> (None, d, os1)
                | (Some h, os1) \<Rightarrow> (dlsym h name, d\<lparr>self := Some h\<rparr>, os1))))"

text \<open>\<open>malloc_ok\<close>: whether there is memory for a new entry. The loop of \<open>dynamic_load\<close>, at the
  entries \<open>dps\<close>: \<open>None\<close> when the name is not among them, otherwise the result and what becomes
  of the entries.\<close>

fun reload_dlob ::
  "'os dlopen_call \<Rightarrow> (nat \<Rightarrow> 'os \<Rightarrow> 'os) \<Rightarrow> byte list \<Rightarrow> dlob list \<Rightarrow> 'os \<Rightarrow> (bool \<times> dlob list \<times> 'os) option" where
  "reload_dlob dlopen dlclose name [] os = None"
| "reload_dlob dlopen dlclose name (dp # dps) os =
     (if name = dl_name dp
      then (case dlopen (Some name) (dlclose (handle dp) os) of
              (None, os1) \<Rightarrow> Some (False, dps, os1)
            | (Some h, os1) \<Rightarrow> Some (True, dp\<lparr>handle := h\<rparr> # dps, os1))
      else case reload_dlob dlopen dlclose name dps os of
             None \<Rightarrow> None
           | Some (ok, dps1, os1) \<Rightarrow> Some (ok, dp # dps1, os1))"

text \<open>\<open>pathfind\<close> looks a readable file up in a path.\<close>

definition resolve ::
  "(byte list \<Rightarrow> byte list option) \<Rightarrow> (byte list \<Rightarrow> byte list \<Rightarrow> byte list option) \<Rightarrow> byte list \<Rightarrow> byte list" where
  "resolve getenv pathfind name =
     (let find = (\<lambda>var. Option.bind (getenv var) (\<lambda>path. pathfind path name));
          S48_EXTERN_PATH = [83, 52, 56, 95, 69, 88, 84, 69, 82, 78, 95, 80, 65, 84, 72];
          LD_LIBRARY_PATH = [76, 68, 95, 76, 73, 66, 82, 65, 82, 89, 95, 80, 65, 84, 72]
      in case find S48_EXTERN_PATH of
           Some res \<Rightarrow> res
         | None \<Rightarrow> (case find LD_LIBRARY_PATH of Some res \<Rightarrow> res | None \<Rightarrow> name))"

definition dynamic_load ::
  "(byte list \<Rightarrow> byte list) \<Rightarrow> 'os dlopen_call \<Rightarrow> (nat \<Rightarrow> 'os \<Rightarrow> 'os) \<Rightarrow> bool \<Rightarrow>
     byte list \<Rightarrow> dynamo \<Rightarrow> 'os \<Rightarrow> bool \<times> dynamo \<times> 'os" where
  "dynamic_load resolve_name dlopen dlclose malloc_ok name0 d os =
     (let name = resolve_name name0
      in case reload_dlob dlopen dlclose name (dlobs d) os of
           Some (ok, dps, os1) \<Rightarrow> (ok, d\<lparr>dlobs := dps\<rparr>, os1)
         | None \<Rightarrow>
             (case dlopen (Some name) os of
                (None, os1) \<Rightarrow> (False, d, os1)
              | (Some h, os1) \<Rightarrow>
                  if \<not> malloc_ok then (False, d, dlclose h os1)
                  else (True, d\<lparr>dlobs := \<lparr>dl_name = name, handle = h\<rparr> # dlobs d\<rparr>, os1)))"

text \<open>The external procedure: no value when the string is not terminated.\<close>

definition s48_dynamic_load ::
  "(byte list \<Rightarrow> byte list) \<Rightarrow> 'os dlopen_call \<Rightarrow> (nat \<Rightarrow> 'os \<Rightarrow> 'os) \<Rightarrow> bool \<Rightarrow> memory \<Rightarrow>
     long \<Rightarrow> addr \<Rightarrow> dynamo \<Rightarrow> 'os \<Rightarrow> (scheme_value \<times> dynamo \<times> 'os) option" where
  "s48_dynamic_load resolve_name dlopen dlclose malloc_ok m argc argv d os =
     (if argc \<noteq> 1 then Some (SCHFALSE, d, os)
      else let arg = load m argv
      in if \<not> STRINGP m arg then Some (SCHFALSE, d, os)
         else case c_string m (ADDRESS_AFTER_HEADER arg) of
                None \<Rightarrow> None
              | Some name \<Rightarrow>
                  (case dynamic_load resolve_name dlopen dlclose malloc_ok name d os of
                     (ok, d1, os1) \<Rightarrow> Some (if ok then SCHTRUE else SCHFALSE, d1, os1)))"

subsection \<open>Machines with \<open>nlist\<close> only\<close>

text \<open>\<open>nlist\<close> gives its status and the value and type of the symbol.\<close>

definition lookup_external_name_nlist ::
  "byte list option \<Rightarrow> bool \<Rightarrow> bool \<Rightarrow> (byte list \<Rightarrow> byte list \<Rightarrow> int \<times> long \<times> int) \<Rightarrow> byte list \<Rightarrow> long option" where
  "lookup_external_name_nlist object_file uscore malloc_ok nlist svname =
     (case object_file of
        None \<Rightarrow> None
      | Some file \<Rightarrow>
          if uscore \<and> \<not> (1 + length svname + 1 \<le> 40 \<or> malloc_ok) then None
          else let (status, n_value, n_type) = nlist file (if uscore then 95 # svname else svname)
               in if status \<noteq> 0 \<or> (n_value = 0 \<and> n_type = 0) then None else Some n_value)"

subsection \<open>Properties\<close>

lemma reload_dlob_None:
  "reload_dlob dlopen dlclose name dps os = None \<longleftrightarrow> name \<notin> dl_name ` set dps"
  by (induction dps) (auto split: option.splits prod.splits)

lemma reload_dlob_names:
  "reload_dlob dlopen dlclose name dps os = Some (ok, dps', os') \<Longrightarrow>
     map dl_name dps' = (if ok then map dl_name dps else remove1 name (map dl_name dps))"
  by (induction dps arbitrary: dps') (auto split: option.splits prod.splits if_splits)

lemma reload_dlob_handle:
  "reload_dlob dlopen dlclose name dps os = Some (True, dps', os') \<Longrightarrow> distinct (map dl_name dps) \<Longrightarrow>
     \<exists>h os1. dlopen (Some name) os1 = (Some h, os') \<and> (\<forall>dp\<in>set dps'. dl_name dp = name \<longrightarrow> handle dp = h)"
proof (induction dps arbitrary: dps')
  case (Cons dp dps)
  show ?case
  proof (cases "name = dl_name dp")
    case True
    obtain r os1 where r: "dlopen (Some name) (dlclose (handle dp) os) = (r, os1)" by fastforce
    with True Cons.prems(1) obtain h where h: "r = Some h" "dps' = dp\<lparr>handle := h\<rparr> # dps" "os' = os1"
      by (cases r) simp_all
    have "dl_name x \<noteq> name" if "x \<in> set dps" for x
    proof -
      have "dl_name dp \<notin> dl_name ` set dps" using Cons.prems(2) by simp
      with that True show ?thesis by (metis imageI)
    qed
    then show ?thesis using r h by (intro exI [of _ h] exI [of _ "dlclose (handle dp) os"]) simp
  next
    case False
    with Cons.prems(1) obtain dps1 where d: "reload_dlob dlopen dlclose name dps os = Some (True, dps1, os')"
        "dps' = dp # dps1"
      by (cases "reload_dlob dlopen dlclose name dps os") (simp_all split: prod.splits)
    from Cons.IH [OF d(1)] Cons.prems(2) show ?thesis using False d(2) by simp
  qed
qed simp

text \<open>
  Property C39. Loading a library keeps the loaded libraries in one entry each. When it
  succeeds, the names are those before it, in their order, with a new one in front if the
  name was not there, and the entry of that name has the handle that this call of \<open>dlopen\<close>
  gave; when it fails, the name is not loaded, and the other entries stay.
\<close>

theorem dynamic_load_names:
  assumes "distinct (map dl_name (dlobs d))" "name = resolve_name name0"
    and "dynamic_load resolve_name dlopen dlclose malloc_ok name0 d os = (ok, d', os')"
  shows "distinct (map dl_name (dlobs d')) \<and> self d' = self d \<and>
     (if ok
      then map dl_name (dlobs d') = (if name \<in> dl_name ` set (dlobs d) then [] else [name]) @ map dl_name (dlobs d) \<and>
        (\<exists>h os1. dlopen (Some name) os1 = (Some h, os') \<and> (\<forall>dp\<in>set (dlobs d'). dl_name dp = name \<longrightarrow> handle dp = h))
      else map dl_name (dlobs d') = remove1 name (map dl_name (dlobs d)))"
proof (cases "reload_dlob dlopen dlclose name (dlobs d) os")
  case None
  then have new: "name \<notin> dl_name ` set (dlobs d)" by (simp add: reload_dlob_None)
  obtain r os1 where r: "dlopen (Some name) os = (r, os1)" by fastforce
  have load: "(case r of None \<Rightarrow> (False, d, os1) | Some h \<Rightarrow>
      if \<not> malloc_ok then (False, d, dlclose h os1)
      else (True, d\<lparr>dlobs := \<lparr>dl_name = name, handle = h\<rparr> # dlobs d\<rparr>, os1)) = (ok, d', os')"
    using assms(3) None r by (simp add: dynamic_load_def assms(2) [symmetric] split: option.splits)
  show ?thesis
  proof (cases "r = None \<or> \<not> malloc_ok")
    case True
    then have "\<not> ok" "d' = d" using load by (auto split: option.splits)
    then show ?thesis using assms(1) new by (simp add: remove1_idem)
  next
    case False
    then obtain h where h: "r = Some h" by auto
    with load False have d: "ok" "d' = d\<lparr>dlobs := \<lparr>dl_name = name, handle = h\<rparr> # dlobs d\<rparr>" "os' = os1" by simp_all
    have "\<forall>dp\<in>set (dlobs d'). dl_name dp = name \<longrightarrow> handle dp = h" using new d(2) by auto
    then have "dlopen (Some name) os = (Some h, os') \<and>
        (\<forall>dp\<in>set (dlobs d'). dl_name dp = name \<longrightarrow> handle dp = h)"
      unfolding r h d(3) by (rule conjI [OF refl])
    then have ex: "\<exists>h os1. dlopen (Some name) os1 = (Some h, os') \<and>
        (\<forall>dp\<in>set (dlobs d'). dl_name dp = name \<longrightarrow> handle dp = h)"
      by - (rule exI, rule exI)
    have "map dl_name (dlobs d') = name # map dl_name (dlobs d)" "self d' = self d" using d(2) by simp_all
    then have "distinct (map dl_name (dlobs d'))" "self d' = self d"
      "map dl_name (dlobs d') = (if name \<in> dl_name ` set (dlobs d) then [] else [name]) @ map dl_name (dlobs d)"
      using assms(1) new by simp_all
    with ex show ?thesis by (simp only: d(1) if_True simp_thms)
  qed
next
  case (Some x)
  obtain ok1 dps os1 where x: "x = (ok1, dps, os1)" by (cases x)
  then have d: "ok = ok1" "d' = d\<lparr>dlobs := dps\<rparr>" "os' = os1"
    using assms(3) Some by (simp_all add: dynamic_load_def assms(2) [symmetric])
  have r: "reload_dlob dlopen dlclose name (dlobs d) os = Some (ok, dps, os')" using Some x d by simp
  then have old: "name \<in> dl_name ` set (dlobs d)"
    using reload_dlob_None [of dlopen dlclose name "dlobs d" os] by (cases "name \<in> dl_name ` set (dlobs d)") simp_all
  show ?thesis
  proof (cases ok)
    case True
    with r have "\<exists>h os1. dlopen (Some name) os1 = (Some h, os') \<and> (\<forall>dp\<in>set dps. dl_name dp = name \<longrightarrow> handle dp = h)"
      by (intro reload_dlob_handle [OF _ assms(1)]) simp
    then show ?thesis using reload_dlob_names [OF r] assms(1) old d(2) True by simp
  next
    case False
    then show ?thesis using reload_dlob_names [OF r] assms(1) d(2) by (simp add: distinct_remove1)
  qed
qed

lemma dynamic_load_names_witness:
  "map dl_name (dlobs (fst (snd (dynamic_load id (\<lambda>_ n. (Some n, Suc n)) (\<lambda>_ n. n) True [98]
     \<lparr>dlobs = [\<lparr>dl_name = [97], handle = 0\<rparr>], self = None\<rparr> 1)))) = [[98], [97]]"
proof -
  let ?d = "\<lparr>dlobs = [\<lparr>dl_name = [97], handle = 0\<rparr>], self = None\<rparr>"
  let ?load = "dynamic_load id (\<lambda>_ n. (Some n, Suc n)) (\<lambda>_ n. n) True [98] ?d 1"
  have l: "?load = (True, fst (snd ?load), snd (snd ?load))" by (simp add: dynamic_load_def)
  show ?thesis using dynamic_load_names [of ?d "[98]" id "[98]", OF _ _ l] by simp
qed

end
