(* ===== verification/Longs.thy ===== *)
theory Longs
  imports Prelude "HOL-Library.Signed_Division"
begin

text \<open>
  Signed arithmetic of \<open>long\<close>s read as integers: an operation whose result fits gives that
  result, and the comparisons are those of the integers.
\<close>

named_theorems long_simps \<open>longs as signed integers\<close>

abbreviation in_long :: "int \<Rightarrow> bool" where
  "in_long r \<equiv> - 2147483648 \<le> r \<and> r < 2147483648"

lemma sint_in_long [simp]: "- 2147483648 \<le> sint (w :: long)" "sint (w :: long) < 2147483648"
  using sint_ge [of w] sint_lt [of w] by simp_all

lemma sint_of_long: "in_long r \<Longrightarrow> sint (word_of_int r :: long) = r"
  by (simp add: sint_sbintrunc' signed_take_bit_int_eq_self)

lemma long_of_sint: "(w :: long) = word_of_int (sint w)"
  by simp

lemma long_less [long_simps]: "(a :: long) <s b \<longleftrightarrow> sint a < sint b" "(a :: long) \<le>s b \<longleftrightarrow> sint a \<le> sint b"
  by (simp_all add: word_sless_alt word_sle_eq)

lemma sint_sar [long_simps]: "sint (sar n w) = sint w div 2 ^ n"
  by (simp add: sint_signed_drop_bit_eq drop_bit_eq_div)

lemma sar_of_int: "sar n w = word_of_int (sint w div 2 ^ n)"
  by (metis long_of_sint sint_sar)

text \<open>The numbers a fixnum holds.\<close>

definition fixnum_range :: "int \<Rightarrow> bool" where
  "fixnum_range r \<longleftrightarrow> - 536870912 \<le> r \<and> r \<le> 536870911"

lemma sar2_range [simp]: "fixnum_range (sint (sar 2 w))"
proof -
  have "- 2147483648 \<le> sint w" "sint w < 2147483648" by simp_all
  then have "- 536870912 \<le> sint w div 4" "sint w div 4 \<le> 536870911" by presburger+
  then show ?thesis by (simp add: fixnum_range_def sint_sar)
qed

lemma fixnum_range_long: "fixnum_range r \<Longrightarrow> in_long r"
  by (simp add: fixnum_range_def)

lemma uint_and_mask: "uint (65535 AND (w :: long)) = uint w mod 65536"
proof -
  have "(65535 :: long) = mask 16" by (simp add: mask_eq_exp_minus_1)
  then have "65535 AND w = take_bit 16 w" by (simp only: take_bit_eq_mask and.commute)
  then show ?thesis by (simp only: unsigned_take_bit_eq) (simp add: take_bit_eq_mod)
qed

lemma sint_nonneg_uint: "0 \<le> r \<Longrightarrow> r < 2147483648 \<Longrightarrow> uint (word_of_int r :: long) = r"
  by (simp add: uint_word_of_int)

lemma three_or: "3 AND ((a :: long) OR b) = 0 \<longleftrightarrow> 3 AND a = 0 \<and> 3 AND b = 0"
  by (simp add: bit.conj_disj_distrib or_eq_0_iff)

text \<open>A number and its fixnum.\<close>

lemma sar_push2: "fixnum_range r \<Longrightarrow> sar 2 (push_bit 2 (word_of_int r)) = word_of_int r"
proof -
  assume r: "fixnum_range r"
  have "push_bit 2 (word_of_int r :: long) = word_of_int (r * 4)"
    by (simp add: push_bit_eq_mult)
  moreover have "sint (word_of_int (r * 4) :: long) = r * 4"
    using r by (intro sint_of_long) (simp add: fixnum_range_def)
  ultimately show ?thesis by (simp add: sar_of_int)
qed

lemma push2_sar: "3 AND (w :: long) = 0 \<Longrightarrow> push_bit 2 (sar 2 w) = w"
proof -
  assume "3 AND w = 0"
  then have w: "uint w mod 4 = 0" by (simp add: three_and_eq)
  have "uint w = sint w mod 4294967296"
    using uint_word_of_int [of "sint w", where ?'a = 32] by simp
  then have "sint w mod 4 = 0"
    using w by (simp add: mod_mod_cancel)
  then have "sint w div 4 * 4 = sint w" by presburger
  then have "word_of_int (sint w div 4) * 4 = w"
    by (metis long_of_sint word_of_int_numeral wi_hom_mult)
  then show ?thesis by (simp add: push_bit_eq_mult sar_of_int)
qed

subsection \<open>Operations that stay in the range\<close>

lemma fixnum_range_drop_bit: "fixnum_range i \<longleftrightarrow> drop_bit 29 i = 0 \<or> drop_bit 29 i = - 1"
proof -
  have "i div 536870912 = 0 \<longleftrightarrow> 0 \<le> i \<and> i < 536870912"
    by (auto simp: zdiv_eq_0_iff)
  moreover have "i div 536870912 = - 1 \<longleftrightarrow> (i + 536870912) div 536870912 = 0"
    using div_add_self2 [of 536870912 i] by linarith
  then have "i div 536870912 = - 1 \<longleftrightarrow> - 536870912 \<le> i \<and> i < 0"
    by (auto simp: zdiv_eq_0_iff)
  ultimately show ?thesis by (auto simp: fixnum_range_def drop_bit_eq_div)
qed

lemma fixnum_range_bits:
  assumes "fixnum_range i" "fixnum_range j"
  shows "fixnum_range (i AND j)" "fixnum_range (i OR j)" "fixnum_range (i XOR j)"
  using assms by (auto simp: fixnum_range_drop_bit)

lemma div_power_range:
  assumes "fixnum_range a" shows "fixnum_range (a div 2 ^ n)"
proof (cases "a < 0")
  case True
  have "a div 1 \<le> a div 2 ^ n" using True by (intro zdiv_mono2_neg) simp_all
  moreover have "a div 2 ^ n < 0" using True by (simp add: div_neg_pos_less0)
  ultimately show ?thesis using assms by (simp add: fixnum_range_def)
next
  case False
  have "a div 2 ^ n \<le> a div 1" using False by (intro zdiv_mono2) simp_all
  moreover have "0 \<le> a div 2 ^ n" using False by (simp add: pos_imp_zdiv_nonneg_iff)
  ultimately show ?thesis using assms by (simp add: fixnum_range_def)
qed

lemma div_power_big:
  assumes "fixnum_range a" "32 \<le> n" shows "a div 2 ^ n = (if a < 0 then - 1 else 0)"
proof -
  have "(2 :: int) ^ 32 \<le> 2 ^ n" using assms(2) by (intro power_increasing) simp_all
  then have b: "- (2 ^ n) \<le> a" "a < 2 ^ n" using assms(1) by (simp_all add: fixnum_range_def)
  show ?thesis
  proof (cases "a < 0")
    case True
    then have "(a + 2 ^ n) div 2 ^ n = 0" using b by (intro div_pos_pos_trivial) simp_all
    then show ?thesis using True div_add_self2 [of "2 ^ n" a] by simp
  qed (use b in simp)
qed

text \<open>The 30 bits a fixnum keeps of a number.\<close>

lemma kept_bits:
  obtains r where "sar 2 (push_bit 2 (word_of_int z :: long)) = word_of_int r" "fixnum_range r"
    "1073741824 dvd r - z"
proof -
  let ?r = "sint (sar 2 (push_bit 2 (word_of_int z :: long)))"
  let ?w = "push_bit 2 (word_of_int z :: long)"
  have "?w = word_of_int (z * 4)" by (simp add: push_bit_eq_mult)
  then have "uint ?w = z * 4 mod 4294967296" using uint_word_of_int [of "z * 4", where ?'a = 32] by simp
  moreover have "uint ?w = sint ?w mod 4294967296"
    using uint_word_of_int [of "sint ?w", where ?'a = 32] by simp
  ultimately have "sint ?w mod 4294967296 = z * 4 mod 4294967296" by simp
  then have "4294967296 dvd sint ?w - z * 4" by (simp add: mod_eq_dvd_iff)
  then obtain k where k: "sint ?w = z * 4 + 4294967296 * k" by (metis add.commute diff_add_cancel dvdE)
  have "sint ?w = (z + 1073741824 * k) * 4" using k by simp
  then have "?r = z + 1073741824 * k"
    unfolding sint_sar by (simp only: power2_eq_square) simp
  then have "1073741824 dvd ?r - z" by simp
  then show ?thesis by (rule that [OF long_of_sint sar2_range])
qed

lemma fixnum_residue:
  assumes "fixnum_range q" "fixnum_range z" "1073741824 dvd q - z" shows "q = z"
proof -
  obtain k where k: "q - z = 1073741824 * k" using assms(3) by (elim dvdE)
  then have "- 1073741824 < 1073741824 * k" "1073741824 * k < 1073741824"
    using assms(1,2) unfolding k [symmetric] fixnum_range_def by linarith+
  then have "k = 0" by linarith
  then show ?thesis using k by simp
qed

end
