(* ===== verification/Main_C.thy ===== *)
theory Main_C
  imports Ps_Io_Facts Longs
begin

text \<open>
  \<open>src/c/main.c\<close>: the command line, the size of the heap, and the order in which the parts of
  the system are started. The parts themselves are functions on a state, arguments here, as
  are \<open>malloc\<close> and \<open>unlink\<close>. A string is the list of its bytes. The variant with static areas,
  a choice at compile time, is not modelled.
\<close>

subsection \<open>The command line\<close>

definition DEFAULT_HEAP_SIZE :: long where "DEFAULT_HEAP_SIZE = 2000000"
definition DEFAULT_STACK_SIZE :: long where "DEFAULT_STACK_SIZE = 2500"

text \<open>\<open>scheme48.image\<close>\<close>

definition DEFAULT_IMAGE_NAME :: "byte list" where
  "DEFAULT_IMAGE_NAME = [115, 99, 104, 101, 109, 101, 52, 56, 46, 105, 109, 97, 103, 101]"

text \<open>The C library's \<open>atoi\<close>: white space, a sign, digits; what follows is ignored.\<close>

definition atoi :: "byte list \<Rightarrow> long" where
  "atoi s =
     (let s1 = dropWhile (\<lambda>c. c = 32 \<or> 9 \<le> c \<and> c \<le> 13) s;
          negate = (s1 \<noteq> [] \<and> hd s1 = 45);
          s2 = (if s1 \<noteq> [] \<and> (hd s1 = 45 \<or> hd s1 = 43) then tl s1 else s1)
      in signed_value negate (takeWhile digit s2))"

record options =
  image_name :: "byte list"
  heap_size :: long
  stack_size :: long
  object_file :: "byte list option"
  errors :: nat
  vm_args :: "byte list list"

definition default_options :: options where
  "default_options = \<lparr>image_name = DEFAULT_IMAGE_NAME, heap_size = DEFAULT_HEAP_SIZE,
     stack_size = DEFAULT_STACK_SIZE, object_file = None, errors = 0, vm_args = []\<rparr>"

definition add_error :: "options \<Rightarrow> options" where
  "add_error opts = opts\<lparr>errors := errors opts + 1\<rparr>"

text \<open>
  The loop over the arguments after the program's name. An option with an argument consumes
  it; at the end of the list that is an error. What follows \<open>-a\<close> is for the virtual machine.
\<close>

fun parse_args :: "byte list list \<Rightarrow> options \<Rightarrow> options" where
  "parse_args [] opts = opts"
| "parse_args (a # as) opts =
     (if a \<noteq> [] \<and> hd a = 45
      then let c = (case tl a of [] \<Rightarrow> 0 | c # _ \<Rightarrow> c) in
        if c = 97 then opts\<lparr>vm_args := as\<rparr>
        else if c \<in> {104, 115, 105, 111}
        then (case as of
            [] \<Rightarrow> add_error opts
          | v # as1 \<Rightarrow>
              parse_args as1
                (if c = 104 then (let o1 = opts\<lparr>heap_size := atoi v\<rparr>
                   in if atoi v \<le>s 0 then add_error o1 else o1)
                 else if c = 115 then (let o1 = opts\<lparr>stack_size := atoi v\<rparr>
                   in if atoi v \<le>s 0 then add_error o1 else o1)
                 else if c = 105 then opts\<lparr>image_name := v\<rparr>
                 else opts\<lparr>object_file := Some v\<rparr>))
        else parse_args as (add_error opts)
      else parse_args as (if a \<noteq> [] then add_error opts else opts))"

subsection \<open>Starting up\<close>

text \<open>
  The steps \<open>main\<close> takes, in their order, as functions on the state of the program:
  \<open>required_init_space\<close> has the arguments for the virtual machine, \<open>initialize_heap\<close> and
  \<open>initialize_vm\<close> the address and the size in cells of their area.
\<close>

record 's system =
  sysdep_init_step :: "'s \<Rightarrow> 's"
  s48_heap_init_step :: "'s \<Rightarrow> 's"
  scheme48_init_step :: "'s \<Rightarrow> 's"
  check_image_header_step :: "byte list \<Rightarrow> 's \<Rightarrow> long \<times> 's"
  required_init_space_step :: "byte list list \<Rightarrow> 's \<Rightarrow> long"
  malloc_step :: "long \<Rightarrow> 's \<Rightarrow> long \<times> 's"
  initialize_heap_step :: "long \<Rightarrow> long \<Rightarrow> 's \<Rightarrow> 's"
  initialize_vm_step :: "long \<Rightarrow> long \<Rightarrow> 's \<Rightarrow> 's"
  read_image_step :: "'s \<Rightarrow> long \<times> 's"
  call_startup_step :: "long \<Rightarrow> byte list list \<Rightarrow> 's \<Rightarrow> long \<times> 's"
  reloc_cleanup_step :: "'s \<Rightarrow> 's"

definition choose_heap_size :: "long \<Rightarrow> long \<Rightarrow> long" where
  "choose_heap_size asked required = (if asked <s 4 * required then 4 * required else asked)"

definition main_c :: "'s system \<Rightarrow> byte list list \<Rightarrow> 's \<Rightarrow> long \<times> 's" where
  "main_c sys args s =
     (let opts = parse_args args default_options in
      if errors opts \<noteq> 0 then (1, s) else
      let s1 = scheme48_init_step sys (s48_heap_init_step sys (sysdep_init_step sys s));
          (checked, s2) = check_image_header_step sys (image_name opts) s1;
          image_size = sar 2 checked
      in if image_size = - 1 then (1, s2) else
      let required = image_size + required_init_space_step sys (vm_args opts) s2;
          size = choose_heap_size (heap_size opts) required;
          (hp, s3) = malloc_step sys (size * 4) s2;
          (stack, s4) = malloc_step sys (stack_size opts * 4) s3
      in if hp = 0 \<or> stack = 0 then (1, s4) else
      let s5 = initialize_vm_step sys stack (stack_size opts) (initialize_heap_step sys hp size s4);
          (startup_proc, s6) = read_image_step sys s5
      in if startup_proc = - 1 then (1, s6) else
      let (return_value, s7) = call_startup_step sys startup_proc (vm_args opts) s6
      in (return_value, reloc_cleanup_step sys s7))"

subsection \<open>Properties\<close>

datatype option_arg = HeapSize nat | StackSize nat | ImageName "byte list" | ObjectFile "byte list"

fun render :: "option_arg \<Rightarrow> byte list list" where
  "render (HeapSize n) = [[45, 104], decimal n]"
| "render (StackSize n) = [[45, 115], decimal n]"
| "render (ImageName f) = [[45, 105], f]"
| "render (ObjectFile f) = [[45, 111], f]"

fun set_option :: "option_arg \<Rightarrow> options \<Rightarrow> options" where
  "set_option (HeapSize n) opts = opts\<lparr>heap_size := of_nat n\<rparr>"
| "set_option (StackSize n) opts = opts\<lparr>stack_size := of_nat n\<rparr>"
| "set_option (ImageName f) opts = opts\<lparr>image_name := f\<rparr>"
| "set_option (ObjectFile f) opts = opts\<lparr>object_file := Some f\<rparr>"

fun option_ok :: "option_arg \<Rightarrow> bool" where
  "option_ok (HeapSize n) = (0 < n \<and> n < 2 ^ 31)"
| "option_ok (StackSize n) = (0 < n \<and> n < 2 ^ 31)"
| "option_ok (ImageName f) = True"
| "option_ok (ObjectFile f) = True"

lemma atoi_decimal: "atoi (decimal n) = of_nat n"
proof -
  obtain d ds where d: "decimal n = d # ds" "digit d" "list_all digit (d # ds)"
    using decimal_digits [of n] by (cases "decimal n") auto
  then have c: "\<not> (d = 32 \<or> 9 \<le> d \<and> d \<le> 13)" "d \<noteq> 45" "d \<noteq> 43"
    by (auto simp: digit_uint word_le_def)
  have "takeWhile digit (decimal n) = decimal n"
    using decimal_digits(1) [of n] by (simp add: list_all_iff takeWhile_eq_all_conv)
  moreover have "dropWhile (\<lambda>c. c = 32 \<or> 9 \<le> c \<and> c \<le> 13) (decimal n) = decimal n"
    unfolding d(1) by (simp only: dropWhile.simps if_not_P [OF c(1)])
  ultimately show ?thesis using digits_value_decimal [of n] d(1) c(2,3)
    by (simp add: atoi_def signed_value_def)
qed

lemma of_nat_positive: "0 < n \<Longrightarrow> n < 2 ^ 31 \<Longrightarrow> \<not> (of_nat n :: long) \<le>s 0"
proof -
  assume n: "0 < n" "n < 2 ^ 31"
  then have "uint (of_nat n :: long) = int n" using uint_word_of_int_id [of "int n"] by simp
  then show ?thesis using n by (simp add: word_sle_eq sint_small)
qed

text \<open>
  Property C33. The command line is read back as it was written: for any sequence of options
  with their arguments, sizes between 1 and \<open>2 ^ 31 - 1\<close>, followed by \<open>-a\<close> and arguments for
  the virtual machine, the loop finds no error, takes the last value given for each option,
  and leaves the arguments after \<open>-a\<close> to the machine, whatever they look like.
\<close>

theorem parse_args_render:
  assumes "list_all option_ok os"
  shows "parse_args (concat (map render os) @ [[45, 97]] @ rest) opts =
     (fold set_option os opts)\<lparr>vm_args := rest\<rparr>"
  using assms
proof (induction os arbitrary: opts)
  case (Cons x os)
  then show ?case by (cases x) (simp_all add: atoi_decimal of_nat_positive Let_def)
qed simp

lemma parse_args_render_witness:
  "parse_args ([[45, 104], decimal 5000] @ [[45, 97], [45, 104]]) default_options =
     default_options\<lparr>heap_size := 5000, vm_args := [[45, 104]]\<rparr>"
  using parse_args_render [of "[HeapSize 5000]" "[[45, 104]]" default_options] by simp

text \<open>
  What \<open>main\<close> asks of the other parts, in its order, when these answer in some way: \<open>len\<close> is
  the answer of \<open>check_image_header\<close>, \<open>needed\<close> that of \<open>required_init_space\<close>, \<open>malloc\<close>
  gets what has been asked before and the number of bytes.
\<close>

datatype main_call = Malloc long | InitHeap long long | InitVm long long | ReadImage | Startup long | Cleanup

definition logged ::
    "long \<Rightarrow> long \<Rightarrow> (main_call list \<Rightarrow> long \<Rightarrow> long) \<Rightarrow> long \<Rightarrow> long \<Rightarrow> main_call list system" where
  "logged len needed malloc startup result =
     \<lparr>sysdep_init_step = id, s48_heap_init_step = id, scheme48_init_step = id,
      check_image_header_step = (\<lambda>_ l. (len, l)), required_init_space_step = (\<lambda>_ _. needed),
      malloc_step = (\<lambda>n l. (malloc l n, l @ [Malloc n])), initialize_heap_step = (\<lambda>a k l. l @ [InitHeap a k]),
      initialize_vm_step = (\<lambda>a k l. l @ [InitVm a k]), read_image_step = (\<lambda>l. (startup, l @ [ReadImage])),
      call_startup_step = (\<lambda>proc _ l. (result, l @ [Startup proc])), reloc_cleanup_step = (\<lambda>l. l @ [Cleanup])\<rparr>"

lemma choose_heap_size_fits:
  assumes "0 \<le> sint required" "sint required < 536870912" "0 < sint asked"
  shows "sint (choose_heap_size asked required) = max (sint asked) (4 * sint required)"
proof -
  have "4 * required = word_of_int (4 * sint required)" by simp
  then have "sint (4 * required) = 4 * sint required" using assms sint_of_long [of "4 * sint required"] by simp
  then show ?thesis by (simp add: choose_heap_size_def word_sless_alt max_def)
qed

lemma choose_heap_size_wraps:
  assumes "536870912 \<le> sint required" "sint required \<le> 1073741824" "0 < sint asked"
  shows "choose_heap_size asked required = asked"
proof -
  have w: "(word_of_int (4 * sint required - 4294967296) :: long) = 4 * required" by simp
  have "sint (4 * required) = 4 * sint required - 4294967296"
    using assms sint_of_long [of "4 * sint required - 4294967296", unfolded w] by simp
  then show ?thesis using assms by (simp add: choose_heap_size_def word_sless_alt)
qed

lemma bytes_of_cells:
  assumes "0 \<le> sint (k :: long)"
  shows "uint (k * 4) = (if sint k < 1073741824 then 4 * sint k else 4 * sint k - 4294967296)"
proof -
  have "uint k = sint k" using sint_nonneg [OF assms] by simp
  then have "uint (k * 4) = 4 * sint k mod 4294967296" by (simp add: uint_word_ariths mult.commute)
  moreover have "sint k < 2147483648" using sint_lt [of k] by simp
  moreover have "4 * sint k mod 4294967296 = 4 * sint k - 4294967296" if "1073741824 \<le> sint k" "sint k < 2147483648"
    using that mod_pos_geq [of 4294967296 "4 * sint k"] mod_pos_pos_trivial [of "4 * sint k - 4294967296" 4294967296]
    by linarith
  ultimately show ?thesis using assms mod_pos_pos_trivial [of "4 * sint k" 4294967296] by simp
qed

lemma main_c_logged:
  fixes args
  defines "opts \<equiv> parse_args args default_options"
  assumes "errors opts = 0" "sar 2 len \<noteq> - 1"
  shows "main_c (logged len needed malloc startup result) args [] =
    (let size = choose_heap_size (heap_size opts) (sar 2 len + needed); asked = [Malloc (size * 4), Malloc (stack_size opts * 4)];
         hp = malloc [] (size * 4); stack = malloc [Malloc (size * 4)] (stack_size opts * 4);
         begun = asked @ [InitHeap hp size, InitVm stack (stack_size opts), ReadImage]
     in if hp = 0 \<or> stack = 0 then (1, asked)
        else if startup = - 1 then (1, begun) else (result, begun @ [Startup startup, Cleanup]))"
  using assms by (simp add: main_c_def logged_def Let_def opts_def)

text \<open>
  Property C34. The area for the heap. When \<open>main\<close> finds no error in its arguments and the image is
  usable, it asks \<open>malloc\<close> for an area and hands it to \<open>initialize_heap\<close> with a number of cells, and this
  is the greater of what the user asked for and four times what the image and the arguments need,
  as long as the latter is below \<open>2 ^ 31\<close>. The number of bytes asked for is four times the number of
  cells when this is below \<open>2 ^ 30\<close>; from there on it wraps, as does the comparison with what is
  needed from \<open>2 ^ 29\<close> cells on, and the area is smaller than what \<open>initialize_heap\<close> is told, or the
  number of cells too small.
\<close>

theorem choose_heap_size_enough:
  fixes args len needed
  defines "opts \<equiv> parse_args args default_options" and "required \<equiv> sint len div 4 + sint needed"
  assumes "errors opts = 0" "0 < sint (heap_size opts)" "0 \<le> sint len" "0 \<le> sint needed"
    and main: "main_c (logged len needed malloc startup result) args [] = (r, log)"
  shows "\<exists>size rest. log = Malloc (size * 4) # Malloc (stack_size opts * 4) # rest \<and>
    (if malloc [] (size * 4) = 0 \<or> malloc [Malloc (size * 4)] (stack_size opts * 4) = 0 then rest = []
     else hd rest = InitHeap (malloc [] (size * 4)) size) \<and>
    (required < 536870912 \<longrightarrow> sint size = max (sint (heap_size opts)) (4 * required) \<and>
       uint (size * 4) = (if sint size < 1073741824 then 4 * sint size else 4 * sint size - 4294967296)) \<and>
    (536870912 \<le> required \<and> required \<le> 1073741824 \<longrightarrow> size = heap_size opts)"
proof -
  define size where "size = choose_heap_size (heap_size opts) (sar 2 len + needed)"
  have l: "sint (sar 2 len) = sint len div 4" by (simp add: sint_sar)
  have "0 \<le> sint len div 4" using assms(5) by simp
  then have ok: "sar 2 len \<noteq> - 1" using l by auto
  have s: "sint (sar 2 len + needed) = required" if "required \<le> 1073741824"
  proof -
    have "sar 2 len + needed = word_of_int required"
      using l by (metis long_of_sint of_int_add required_def)
    moreover have "0 \<le> required" using assms(5,6) by (simp add: required_def)
    ultimately show ?thesis using that sint_of_long [of required] by simp
  qed
  have low: "sint size = max (sint (heap_size opts)) (4 * required)" if "required < 536870912"
    using choose_heap_size_fits [of "sar 2 len + needed" "heap_size opts"] s that assms(4-6)
    by (simp add: size_def required_def)
  then have "uint (size * 4) = (if sint size < 1073741824 then 4 * sint size else 4 * sint size - 4294967296)"
    if "required < 536870912" using that assms(4) bytes_of_cells [of size] by simp
  moreover have "size = heap_size opts" if "536870912 \<le> required" "required \<le> 1073741824"
    using choose_heap_size_wraps [of "sar 2 len + needed" "heap_size opts"] s that assms(4) by (simp add: size_def)
  moreover note main_c_logged [of args len needed malloc startup result, folded opts_def, OF assms(3) ok, folded size_def]
  ultimately show ?thesis using low main
    by (intro exI [of _ size] exI [of _ "drop 2 log"]) (auto simp: Let_def split: if_splits)
qed

lemma choose_heap_size_enough_witness:
  "\<exists>log. main_c (logged 2000 100 (\<lambda>l _. if l = [] then 4096 else 8192) 7 0) [] [] = (0, log) \<and>
     (\<exists>rest. log = Malloc 8000000 # Malloc 10000 # rest \<and> hd rest = InitHeap 4096 2000000)"
proof -
  let ?malloc = "\<lambda>(l :: main_call list) (_ :: long). if l = [] then 4096 else 8192 :: long"
  have o: "parse_args [] default_options = default_options" "errors default_options = 0"
    "heap_size default_options = 2000000" "stack_size default_options * 4 = 10000"
    by (simp_all add: default_options_def DEFAULT_HEAP_SIZE_def DEFAULT_STACK_SIZE_def)
  obtain r log where m: "main_c (logged 2000 100 ?malloc 7 0) [] [] = (r, log)" by fastforce
  have "sar 2 2000 \<noteq> (- 1 :: long)" by code_simp
  then have r: "r = 0"
    using m main_c_logged [of "[]" 2000 100 ?malloc 7 0] by (simp add: o Let_def)
  have "sint (2000000 :: long) = 2000000" "sint (2000 :: long) = 2000" "sint (100 :: long) = 100" by simp_all
  note c = choose_heap_size_enough [of "[]" 2000 100 ?malloc 7 0, unfolded o this, OF refl _ _ _ m]
  then obtain size rest where "log = Malloc (size * 4) # Malloc 10000 # rest"
    "hd rest = InitHeap 4096 size" "sint size = 2000000"
    by auto
  moreover from this(3) have "size = 2000000" using long_of_sint [of size] by simp
  ultimately show ?thesis using m r by simp
qed

end
