(* ===== verification/Vm_State.thy ===== *)
theory Vm_State
  imports Events Image_Write
begin

text \<open>
  The state of the byte-code virtual machine (\<open>src/c/scheme48vm.c\<close>): its static variables,
  with the names they have in the code, the storage manager's state, whose memory also
  holds the stack, and the state of the event queues, among it the two flags the machine
  shares with the signal handlers. The stack grows downwards; \<open>SstackS\<close> points to the first free cell. The
  table of channels is a function of the index. An operation that may start a collection is
  partial, as \<open>do_gc\<close> is: \<open>None\<close> is a run that does not come back, for a loop over a
  malformed structure or the exit of \<open>ps_error\<close>.
\<close>

record vm =
  vheap :: heap
  Snumber_of_channelsS :: long
  Svm_channelsS :: "int \<Rightarrow> long"
  Spending_channels_headS :: long
  Spending_channels_tailS :: long
  Sstack_beginS :: addr
  Sstack_endS :: addr
  SstackS :: addr
  Sstack_limitS :: addr
  ScontS :: long
  Sbottom_of_stackS :: long
  Sstack_warningPS :: bool
  SenvS :: long
  Stransmit_hpS :: addr
  Smax_hpS :: addr
  SstartS :: addr
  Sother_hpS :: addr
  Sheartbreak_hotelS :: addr
  Sour_address_spaceS :: long
  Snew_id_hotelS :: addr
  Slosing_proxy_hotelS :: addr
  Sbad_count_proxiesS :: long
  Snew_uidsS :: long
  StemplateS :: long
  Scode_pointerS :: addr
  SvalS :: long
  Sexception_handlersS :: long
  Sinterrupt_handlersS :: long
  Scurrent_threadS :: long
  Ssession_dataS :: long
  Sfinalizer_alistS :: long
  Sfinalize_theseS :: long
  Senabled_interruptsS :: long
  Spending_interruptsS :: long
  Sinterrupted_templateS :: long
  Sinterrupt_templateS :: long
  Sexception_templateS :: long
  Slosing_opcodeS :: long
  Sexternal_call_nargsS :: long
  Sextension_valueS :: long
  vevents :: events

text \<open>C statics are zero until the machine is initialised.\<close>

definition vm_zero :: "heap \<Rightarrow> events \<Rightarrow> vm" where
  "vm_zero h ev = \<lparr>vheap = h, Snumber_of_channelsS = 0, Svm_channelsS = (\<lambda>_. 0),
     Spending_channels_headS = 0, Spending_channels_tailS = 0, Sstack_beginS = 0, Sstack_endS = 0,
     SstackS = 0, Sstack_limitS = 0, ScontS = 0, Sbottom_of_stackS = 0, Sstack_warningPS = False,
     SenvS = 0, Stransmit_hpS = 0, Smax_hpS = 0, SstartS = 0, Sother_hpS = 0,
     Sheartbreak_hotelS = 0, Sour_address_spaceS = 0, Snew_id_hotelS = 0, Slosing_proxy_hotelS = 0,
     Sbad_count_proxiesS = 0, Snew_uidsS = 0, StemplateS = 0, Scode_pointerS = 0, SvalS = 0,
     Sexception_handlersS = 0, Sinterrupt_handlersS = 0, Scurrent_threadS = 0, Ssession_dataS = 0,
     Sfinalizer_alistS = 0, Sfinalize_theseS = 0, Senabled_interruptsS = 0,
     Spending_interruptsS = 0, Sinterrupted_templateS = 0, Sinterrupt_templateS = 0,
     Sexception_templateS = 0, Slosing_opcodeS = 0, Sexternal_call_nargsS = 0,
     Sextension_valueS = 0, vevents = ev\<rparr>"

definition scheme48_init :: "vm \<Rightarrow> vm" where
  "scheme48_init vm = vm\<lparr>Snumber_of_channelsS := 100, Spending_channels_headS := 1,
     Spending_channels_tailS := 1, Sstack_warningPS := True, Slosing_opcodeS := 0,
     vevents := (vevents vm)\<lparr>Spending_eventsPS := False\<rparr>\<rparr>"

definition set_extension_valueB :: "long \<Rightarrow> vm \<Rightarrow> vm" where
  "set_extension_valueB value vm = vm\<lparr>Sextension_valueS := value\<rparr>"

definition note_event :: "vm \<Rightarrow> vm" where
  "note_event vm = vm\<lparr>vevents := (vevents vm)\<lparr>Spending_eventsPS := True, Spending_interruptPS := True\<rparr>\<rparr>"

subsection \<open>Memory, stack and code\<close>

abbreviation vmem :: "vm \<Rightarrow> memory" where "vmem vm \<equiv> mem (vheap vm)"

definition set_vmem :: "memory \<Rightarrow> vm \<Rightarrow> vm" where
  "set_vmem m vm = vm\<lparr>vheap := (vheap vm)\<lparr>mem := m\<rparr>\<rparr>"

definition poke :: "addr \<Rightarrow> long \<Rightarrow> vm \<Rightarrow> vm" where
  "poke a v vm = set_vmem (store (vmem vm) a v) vm"

definition poke_byte :: "addr \<Rightarrow> byte \<Rightarrow> vm \<Rightarrow> vm" where
  "poke_byte a b vm = set_vmem ((vmem vm)(a := b)) vm"

text \<open>\<open>*((long * ) SstackS) = x; SstackS = SstackS + -4\<close>, and \<open>SstackS = SstackS + 4\<close> with the read after it.\<close>

definition push :: "long \<Rightarrow> vm \<Rightarrow> vm" where
  "push x vm = (poke (SstackS vm) x vm)\<lparr>SstackS := SstackS vm + (- 4)\<rparr>"

definition pop :: "vm \<Rightarrow> long \<times> vm" where
  "pop vm = (load (vmem vm) (SstackS vm + 4), vm\<lparr>SstackS := SstackS vm + 4\<rparr>)"

definition push_all :: "long list \<Rightarrow> vm \<Rightarrow> vm" where
  "push_all xs vm = fold push xs vm"

definition code_byte :: "vm \<Rightarrow> int \<Rightarrow> long" where
  "code_byte vm i = ucast (vmem vm (Scode_pointerS vm + i))"

definition code_two_bytes :: "vm \<Rightarrow> int \<Rightarrow> long" where
  "code_two_bytes vm i = push_bit 8 (code_byte vm i) + code_byte vm (i + 1)"

text \<open>The address of the first byte code of a template.\<close>

definition template_code :: "memory \<Rightarrow> long \<Rightarrow> addr" where
  "template_code m template = ADDRESS_AFTER_HEADER (load m (ADDRESS_AFTER_HEADER template))"

definition within_stackP :: "vm \<Rightarrow> long \<Rightarrow> bool" where
  "within_stackP vm p \<longleftrightarrow> STOBP p \<and> \<not> p <s word_of_int (Sstack_beginS vm) \<and>
     \<not> word_of_int (Sstack_endS vm) <s p"

subsection \<open>What a byte code leads to\<close>

text \<open>
  The labels of \<open>restart\<close> at which the parts of the machine hand over to one another: the
  dispatch on the next byte code (\<open>L19170\<close>), the call of an exception handler with so many
  arguments on the stack (\<open>L17068\<close>), the application of the closure in \<open>SvalS\<close> to arguments on
  the stack (\<open>L16469\<close>) and in a list of known length as well (\<open>L18972\<close>), a call that cannot be
  made, with the exception and the arguments (\<open>L17564\<close>), an interrupt, with the number of
  arguments on the stack (\<open>L17297\<close>), and the end of \<open>restart\<close> with a return option
  (\<open>L20076\<close>).
\<close>

datatype outcome =
    Dispatch vm | Raise long vm
  | Apply long vm | Apply_list long long long vm | Bad_call long long long long vm
  | Interrupt long vm | Leave long vm

definition next_op :: "int \<Rightarrow> vm \<Rightarrow> outcome" where
  "next_op n vm = Dispatch (vm\<lparr>Scode_pointerS := Scode_pointerS vm + n\<rparr>)"

definition goto_value :: "int \<Rightarrow> long \<Rightarrow> vm \<Rightarrow> outcome" where
  "goto_value n v vm = next_op n (vm\<lparr>SvalS := v\<rparr>)"

lemma vmem_set [simp]: "vmem (set_vmem m vm) = m"
  by (simp add: set_vmem_def)

end
