(* ===== verification/Vm_Continuations.thy ===== *)
theory Vm_Continuations
  imports Vm_State
begin

text \<open>
  Continuations and environments of the virtual machine (\<open>src/c/scheme48vm.c\<close>): frames are
  pushed on the stack, moved to the heap when the stack is full or a continuation is
  captured, and brought back one at a time.
\<close>

subsection \<open>Frames\<close>

text \<open>
  A frame is a stored object on the stack: the header, the next continuation, the program
  counter as a fixnum, the template and the environment, then the arguments that were on
  the stack already.
\<close>

definition push_continuationB :: "addr \<Rightarrow> long \<Rightarrow> vm \<Rightarrow> vm" where
  "push_continuationB code_pointer nargs vm =
     (let pc = push_bit 2 (word_of_int (code_pointer - template_code (vmem vm) (StemplateS vm)));
          template = StemplateS vm;
          s = SstackS vm + (- 20);
          cont = stob_at (s + 8);
          m1 = store (vmem vm) (s + 4) (4134 + push_bit 10 nargs);
          m2 = store m1 (ADDRESS_AFTER_HEADER cont + 4) pc;
          m3 = store m2 (ADDRESS_AFTER_HEADER cont + 8) template;
          m4 = store m3 (ADDRESS_AFTER_HEADER cont + 12) (SenvS vm);
          m5 = store m4 (ADDRESS_AFTER_HEADER cont) (ScontS vm)
      in (set_vmem m5 vm)\<lparr>SstackS := s, ScontS := cont\<rparr>)"

definition pop_continuationB :: "vm \<Rightarrow> vm" where
  "pop_continuationB vm =
     (let a = ADDRESS_AFTER_HEADER (ScontS vm);
          tem = load (vmem vm) (a + 8);
          pc = load (vmem vm) (a + 4)
      in vm\<lparr>StemplateS := tem, Scode_pointerS := template_code (vmem vm) tem + sint (sar 2 pc),
            SenvS := load (vmem vm) (a + 12), ScontS := load (vmem vm) a, SstackS := a + 12\<rparr>)"

text \<open>
  How many arguments are on top of the stack: the cells up to the next header, less one if
  the header is the mark of an environment that has moved to the heap.
\<close>

partial_function (option) arg_count_from :: "memory \<Rightarrow> addr \<Rightarrow> long \<Rightarrow> long option" where
  "arg_count_from m p i =
     (if HEADERP (load m p) then Some (if load m p = 54 then - 1 + i else i)
      else arg_count_from m (p + 4) (1 + i))"

declare arg_count_from.simps [code]

definition arg_count :: "vm \<Rightarrow> long option" where
  "arg_count vm = arg_count_from (vmem vm) (SstackS vm + 4) 0"

subsection \<open>Exceptions\<close>

text \<open>
  An exception in the instruction at the code pointer: the instruction's size, the
  exception, the template and the program counter are pushed, then a continuation in the
  exception template, then the opcode and the exception for the handler.
\<close>

definition push_exception_continuationB :: "long \<Rightarrow> long \<Rightarrow> vm \<Rightarrow> vm option" where
  "push_exception_continuationB exception instruction_size vm =
     (let opcode = ucast (vmem vm (Scode_pointerS vm)) :: long;
          vm1 = push (push_bit 2 instruction_size) vm;
          vm2 = push (push_bit 2 exception) vm1;
          vm3 = push (StemplateS vm2) vm2;
          vm4 = push (push_bit 2 (word_of_int (Scode_pointerS vm3 - template_code (vmem vm3) (StemplateS vm3)))) vm3;
          tem = Sexception_templateS vm4;
          vm5 = vm4\<lparr>StemplateS := tem, Scode_pointerS := template_code (vmem vm4) tem\<rparr>
      in map_option (\<lambda>nargs.
           let vm6 = push_continuationB (Scode_pointerS vm5) nargs vm5
           in push (push_bit 2 exception) (push (push_bit 2 opcode) vm6)) (arg_count vm5))"

text \<open>What every failing byte code does: the exception, then the arguments, first one first.\<close>

definition raise_exception :: "long \<Rightarrow> long \<Rightarrow> long list \<Rightarrow> vm \<Rightarrow> outcome option" where
  "raise_exception exception instruction_size args vm =
     map_option (\<lambda>vm1. Raise (of_nat (length args)) (push_all args vm1))
       (push_exception_continuationB exception instruction_size vm)"

subsection \<open>Moving to the heap\<close>

text \<open>
  An environment leaves its forwarding pointer in its header and the mark 54 in its first
  cell. The key and the reason the code passes on are used by nothing.
\<close>

definition copy_env :: "long \<Rightarrow> vm \<Rightarrow> long \<times> vm" where
  "copy_env env vm =
     (let a = ADDRESS_AFTER_HEADER env;
          header = load (vmem vm) (a + (- 4));
          (addr, h1) = allocate_space (header_type header) (4 + header_length header) 0 (vheap vm);
          m1 = store (mem h1) addr header;
          m2 = memcpy m1 (addr + 4) a (uint (header_length header));
          new = stob_at (addr + 4);
          m3 = store m2 a 54;
          m4 = store m3 (a + (- 4)) new
      in (new, vm\<lparr>vheap := h1\<lparr>mem := m4\<rparr>\<rparr>))"

text \<open>The environments behind it that are on the stack follow.\<close>

partial_function (option) copy_env_parents :: "long \<Rightarrow> vm \<Rightarrow> vm option" where
  "copy_env_parents env vm =
     (let p = load (vmem vm) (ADDRESS_AFTER_HEADER env) in
      if within_stackP vm p
      then let (new, vm1) = copy_env p vm
           in copy_env_parents new (poke (ADDRESS_AFTER_HEADER env) new vm1)
      else Some vm)"

declare copy_env_parents.simps [code]

text \<open>The frames that held it get the forwarded environment.\<close>

partial_function (option) forward_envs :: "long \<Rightarrow> vm \<Rightarrow> vm option" where
  "forward_envs cont vm =
     (let c = ADDRESS_AFTER_HEADER cont;
          env = load (vmem vm) (c + 12);
          header = load (vmem vm) (ADDRESS_AFTER_HEADER env + (- 4))
      in if STOBP env \<and> STOBP header
         then let vm1 = poke (c + 12) header vm
              in forward_envs (load (vmem vm1) c) vm1
         else Some vm)"

declare forward_envs.simps [code]

definition save_env_in_heap :: "long \<Rightarrow> long \<Rightarrow> vm \<Rightarrow> (long \<times> vm) option" where
  "save_env_in_heap env cont vm =
     (let (top, vm1) = copy_env env vm
      in Option.bind (copy_env_parents top vm1) (\<lambda>vm2.
           map_option (Pair top) (forward_envs cont vm2)))"

text \<open>
  The frames from the top one down to the bottom of the stack are copied, each linked from
  the copy before it; the last is linked to what lay below the bottom.
\<close>

definition copy_frame :: "long \<Rightarrow> long \<Rightarrow> vm \<Rightarrow> long \<times> vm" where
  "copy_frame cont previous vm =
     (let a = ADDRESS_AFTER_HEADER cont;
          header = load (vmem vm) (a + (- 4));
          (addr, h1) = allocate_space (header_type header) (4 + header_length header) 0 (vheap vm);
          m1 = store (mem h1) addr header;
          m2 = memcpy m1 (addr + 4) a (uint (header_length header));
          new = stob_at (addr + 4)
      in (new, vm\<lparr>vheap := h1\<lparr>mem := store m2 (ADDRESS_AFTER_HEADER previous) new\<rparr>\<rparr>))"

partial_function (option) preserve_frames :: "long \<Rightarrow> long \<Rightarrow> long \<Rightarrow> vm \<Rightarrow> vm option" where
  "preserve_frames end cont previous vm =
     (if cont = Sbottom_of_stackS vm then Some (poke (ADDRESS_AFTER_HEADER previous) end vm)
      else let p = load (vmem vm) (ADDRESS_AFTER_HEADER cont + 12)
           in Option.bind (if within_stackP vm p then map_option snd (save_env_in_heap p cont vm) else Some vm)
                (\<lambda>vm1. let (new, vm2) = copy_frame cont previous vm1
                       in preserve_frames end (load (vmem vm2) (ADDRESS_AFTER_HEADER new)) new vm2))"

declare preserve_frames.simps [code]

definition really_preserve_continuation :: "vm \<Rightarrow> (long \<times> vm) option" where
  "really_preserve_continuation vm =
     Option.bind (if within_stackP vm (SenvS vm)
                  then map_option (\<lambda>(v, vm1). vm1\<lparr>SenvS := v\<rparr>) (save_env_in_heap (SenvS vm) (ScontS vm) vm)
                  else Some vm)
       (\<lambda>vm1. let end = load (vmem vm1) (ADDRESS_AFTER_HEADER (Sbottom_of_stackS vm1))
              in map_option (\<lambda>vm2.
                   (load (vmem vm2) (ADDRESS_AFTER_HEADER (Sbottom_of_stackS vm2)),
                    vm2\<lparr>ScontS := Sbottom_of_stackS vm2\<rparr>))
                  (preserve_frames end (ScontS vm1) (Sbottom_of_stackS vm1) vm1))"

text \<open>Moving the arguments on top of the stack up (or down), highest first.\<close>

function move_args :: "addr \<Rightarrow> addr \<Rightarrow> addr \<Rightarrow> memory \<Rightarrow> addr \<times> memory" where
  "move_args base loc arg m =
     (if base < arg then move_args base (loc + (- 4)) (arg + (- 4)) (store m loc (load m arg))
      else (loc, m))"
  by pat_completeness auto
termination
  by (relation "measure (\<lambda>(base, _, arg, _). nat (arg - base))") simp_all

declare move_args.simps [simp del]

definition copy_stack_into_heap :: "vm \<Rightarrow> vm option" where
  "copy_stack_into_heap vm =
     Option.bind (arg_count vm) (\<lambda>count.
       let top = SstackS vm in
       map_option (\<lambda>vm1.
         let (loc, m) = move_args top (ADDRESS_AFTER_HEADER (ScontS vm1) + (- 8))
                          (top + sint (push_bit 2 count)) (vmem vm1)
         in (set_vmem m vm1)\<lparr>SstackS := loc\<rparr>)
        (if ScontS vm = 1 then Some vm else map_option snd (really_preserve_continuation vm)))"

subsection \<open>Back from the heap\<close>

definition copy_continuation_from_heapB :: "long \<Rightarrow> vm \<Rightarrow> long \<times> vm" where
  "copy_continuation_from_heapB cont vm =
     (let a = ADDRESS_AFTER_HEADER cont;
          b = ADDRESS_AFTER_HEADER (Sbottom_of_stackS vm);
          header = load (vmem vm) (a + (- 4));
          top = b + (- 8 - header_span header);
          new_cont = stob_at (top + 4);
          cells = sar 2 (3 + header_length header);
          m1 = memcpy (vmem vm) top (a + (- 4)) (sint (4 + push_bit 2 cells));
          m2 = store m1 b (load m1 (ADDRESS_AFTER_HEADER new_cont));
          m3 = store m2 (ADDRESS_AFTER_HEADER new_cont) (Sbottom_of_stackS vm)
      in (new_cont, (set_vmem m3 vm)\<lparr>SstackS := top + (- 4), ScontS := new_cont\<rparr>))"

end
