(* ===== verification/Vm_Collect.thy ===== *)
theory Vm_Collect
  imports Vm_Continuations Heap_Wf
begin

text \<open>
  Garbage collection as the virtual machine starts it (\<open>collect_saving_temp\<close> of
  \<open>src/c/scheme48vm.c\<close>): the registers, the arguments, environments and continuations on the
  stack and one more value are the roots; afterwards the finalizers that have to run are
  put first in their list, the channels nothing refers to any more are closed, and the
  interrupt for the end of a collection is signalled.
\<close>

subsection \<open>Surroundings\<close>

text \<open>
  What the operating system answers: \<open>ps_close_fd\<close> on a descriptor, with the event queues it
  updates, the text of an error code, and \<open>select\<close>, with which \<open>get_next_event\<close> polls. Foreign
  procedures get the address they are at, the number of arguments and the address of the last
  one, and may do anything to the machine.
\<close>

record host =
  close_fd :: "int \<Rightarrow> events \<Rightarrow> (int \<times> events) option"
  error_text :: "long \<Rightarrow> string"
  select_fds :: select_call
  foreign :: "long \<Rightarrow> long \<Rightarrow> addr \<Rightarrow> vm \<Rightarrow> (long \<times> vm) option"

definition vm_say :: "string \<Rightarrow> vm \<Rightarrow> vm" where
  "vm_say line vm = vm\<lparr>vheap := say line (vheap vm)\<rparr>"

subsection \<open>Channels\<close>

definition close_channelB :: "host \<Rightarrow> long \<Rightarrow> vm \<Rightarrow> (long \<times> vm) option" where
  "close_channelB os channel vm =
     (let a = ADDRESS_AFTER_HEADER channel;
          os_index = sint (sar 2 (load (vmem vm) (a + 8)))
      in map_option (\<lambda>(st, ev).
           let vm1 = vm\<lparr>vevents := ev, Svm_channelsS := (Svm_channelsS vm)(os_index := 1)\<rparr>
           in (word_of_int st, poke a 0 vm1))
          (close_fd os os_index (vevents vm)))"

text \<open>An identification of a channel, a fixnum or a string, as it is printed.\<close>

definition id_text :: "memory \<Rightarrow> long \<Rightarrow> string option" where
  "id_text m i =
     (if FIXNUMP i then Some (text_of (decimal_long (sar 2 i)))
      else map_option text_of (c_string m (ADDRESS_AFTER_HEADER i)))"

definition channel_close_error :: "host \<Rightarrow> long \<Rightarrow> long \<Rightarrow> long \<Rightarrow> vm \<Rightarrow> vm option" where
  "channel_close_error os st index i vm =
     (let vm1 = vm_say (''Error: '' @ error_text os st) vm
      in map_option (\<lambda>name. vm_say ('' while closing port '' @ name) vm1)
          (if stob_has_type STOBTYPE_STRING (vmem vm) i then id_text (vmem vm) i
           else Some (text_of (decimal_long (sar 2 index)))))"

definition close_lost_channel :: "host \<Rightarrow> long \<Rightarrow> vm \<Rightarrow> vm option" where
  "close_lost_channel os channel vm =
     (let a = ADDRESS_AFTER_HEADER channel;
          i = load (vmem vm) (a + 4);
          header = load (vmem vm) (ADDRESS_AFTER_HEADER i + (- 4));
          i1 = (if FIXNUMP i then i else if STOBP header then header else i)
      in Option.bind (close_channelB os channel vm) (\<lambda>(st, vm1).
         Option.bind (if st = word_of_int NO_ERRORS then Some vm1
                      else channel_close_error os st (load (vmem vm1) (a + 8)) i1 vm1) (\<lambda>vm2.
         map_option (\<lambda>name. vm_say (''Channel closed: '' @ name) vm2) (id_text (vmem vm2) i1))))"

text \<open>
  The table of channels after the roots have been traced: a copied channel is replaced by
  its copy, a closed one by false, one that is open and lost is closed.
\<close>

definition update_channel :: "host \<Rightarrow> int \<Rightarrow> vm \<Rightarrow> vm option" where
  "update_channel os i vm =
     (let channel = Svm_channelsS vm i;
          header = load (vmem vm) (ADDRESS_AFTER_HEADER channel + (- 4));
          put = (\<lambda>new vm. vm\<lparr>Svm_channelsS := (Svm_channelsS vm)(i := new)\<rparr>)
      in if channel = 1 then Some vm
         else if STOBP header then Some (put header vm)
         else if load (vmem vm) (ADDRESS_AFTER_HEADER channel) = 0 then Some (put 1 vm)
         else map_option (put 1) (close_lost_channel os channel vm))"

partial_function (option) update_channels :: "host \<Rightarrow> int \<Rightarrow> vm \<Rightarrow> vm option" where
  "update_channels os i vm =
     (if i = sint (Snumber_of_channelsS vm) then Some vm
      else Option.bind (update_channel os i vm) (\<lambda>vm1. update_channels os (1 + i) vm1))"

declare update_channels.simps [code]

subsection \<open>Roots\<close>

definition trace_registers :: "vm \<Rightarrow> vm" where
  "trace_registers vm =
     (case trace_values [StemplateS vm, SvalS vm, Scurrent_threadS vm, Ssession_dataS vm,
          Sexception_handlersS vm, Sexception_templateS vm, Sinterrupt_handlersS vm,
          Sinterrupt_templateS vm, Sinterrupted_templateS vm, Sfinalize_theseS vm, SenvS vm,
          Spending_channels_headS vm, Spending_channels_tailS vm] (vheap vm) of
        ([v1, v2, v3, v4, v5, v6, v7, v8, v9, v10, v11, v12, v13], h) \<Rightarrow>
          vm\<lparr>vheap := h, StemplateS := v1, SvalS := v2, Scurrent_threadS := v3, Ssession_dataS := v4,
             Sexception_handlersS := v5, Sexception_templateS := v6, Sinterrupt_handlersS := v7,
             Sinterrupt_templateS := v8, Sinterrupted_templateS := v9, Sfinalize_theseS := v10,
             SenvS := v11, Spending_channels_headS := v12, Spending_channels_tailS := v13\<rparr>
      | _ \<Rightarrow> vm)"

text \<open>The cells at the far end of the stack that have never been used hold a mark.\<close>

partial_function (option) first_used :: "memory \<Rightarrow> addr \<Rightarrow> addr option" where
  "first_used m a = (if load m a = 252645135 then first_used m (a + 4) else Some a)"

declare first_used.simps [code]

definition check_stack_use :: "vm \<Rightarrow> vm option" where
  "check_stack_use vm =
     (if \<not> Sstack_warningPS vm then Some vm
      else map_option (\<lambda>a.
        let unused = sar 2 (word_of_int (a - Sstack_beginS vm))
        in if unused <s 30
           then (vm_say (''[Alert: stack overconsumption ('' @ text_of (decimal_long unused) @
                   ''); please inform the Scheme 48 implementors]'') (vm_say '''' vm))\<lparr>Sstack_warningPS := False\<rparr>
           else vm) (first_used (vmem vm) (Sstack_beginS vm)))"

definition trace_contents :: "long \<Rightarrow> vm \<Rightarrow> vm" where
  "trace_contents stob vm = vm\<lparr>vheap := trace_stob_contentsB stob (vheap vm)\<rparr>"

text \<open>The environments on the stack, from the innermost out.\<close>

partial_function (option) trace_stack_envs :: "long \<Rightarrow> vm \<Rightarrow> vm option" where
  "trace_stack_envs env vm =
     (if within_stackP vm env
      then let vm1 = trace_contents env vm
           in trace_stack_envs (load (vmem vm1) (ADDRESS_AFTER_HEADER env)) vm1
      else Some vm)"

declare trace_stack_envs.simps [code]

text \<open>The continuations on the stack; an environment two of them in a row share is traced once.\<close>

partial_function (option) trace_stack_conts :: "long \<Rightarrow> long \<Rightarrow> vm \<Rightarrow> vm option" where
  "trace_stack_conts cont last_env vm =
     (let env = load (vmem vm) (ADDRESS_AFTER_HEADER cont + 12);
          vm1 = trace_contents cont vm
      in Option.bind (if env = last_env then Some vm1 else trace_stack_envs env vm1) (\<lambda>vm2.
           if cont = Sbottom_of_stackS vm2 then Some vm2
           else trace_stack_conts (load (vmem vm2) (ADDRESS_AFTER_HEADER cont)) env vm2))"

declare trace_stack_conts.simps [code]

definition trace_stack :: "vm \<Rightarrow> vm option" where
  "trace_stack vm =
     Option.bind (arg_count vm) (\<lambda>count.
       let vm1 = vm\<lparr>vheap := trace_locationsB (SstackS vm + 4)
                     (SstackS vm + (4 + sint (push_bit 2 count))) (vheap vm)\<rparr>
       in Option.bind
           (if within_stackP vm1 (SenvS vm1) then trace_stack_envs (SenvS vm1) vm1
            else let (v, h) = trace_value (SenvS vm1) (vheap vm1) in Some (vm1\<lparr>vheap := h, SenvS := v\<rparr>))
           (\<lambda>vm2. trace_stack_conts (ScontS vm2) 0 vm2))"

subsection \<open>Finalizers\<close>

text \<open>The last pair of a list gets a new tail.\<close>

partial_function (option) append_tail :: "long \<Rightarrow> long \<Rightarrow> vm \<Rightarrow> vm option" where
  "append_tail l l2 vm =
     (let a = ADDRESS_AFTER_HEADER l in
      if load (vmem vm) (a + 4) = SCHNULL then Some (poke (a + 4) l2 vm)
      else append_tail (load (vmem vm) (a + 4)) l2 vm)"

declare append_tail.simps [code]

definition add_sick_finalizers :: "long \<Rightarrow> vm \<Rightarrow> vm option" where
  "add_sick_finalizers sickly vm =
     (let l2 = Sfinalize_theseS vm in
      if sickly = SCHNULL then Some (vm\<lparr>Sfinalize_theseS := l2\<rparr>)
      else map_option (\<lambda>vm1. vm1\<lparr>Sfinalize_theseS := sickly\<rparr>) (append_tail sickly l2 vm))"

subsection \<open>Interrupts\<close>

text \<open>The flag that makes the machine look for interrupts, from the two sets of them.\<close>

definition set_interrupt_flag :: "vm \<Rightarrow> vm" where
  "set_interrupt_flag vm =
     (let ev = vevents vm
      in if Spending_interruptsS vm AND Senabled_interruptsS vm = 0
         then vm\<lparr>vevents := ev\<lparr>Spending_interruptPS := Spending_eventsPS ev\<rparr>\<rparr>
         else vm\<lparr>vevents := ev\<lparr>Spending_interruptPS := True\<rparr>\<rparr>)"

subsection \<open>The collection\<close>

definition collect_saving_temp :: "host \<Rightarrow> long \<Rightarrow> vm \<Rightarrow> (long \<times> vm) option" where
  "collect_saving_temp os value vm =
     (let pc = push_bit 2 (word_of_int (Scode_pointerS vm - template_code (vmem vm) (StemplateS vm))) :: long;
          vm1 = trace_registers (vm\<lparr>vheap := begin_collection (vheap vm)\<rparr>)
      in Option.bind (check_stack_use vm1) (\<lambda>vm2.
         Option.bind (trace_stack vm2) (\<lambda>vm3.
           let (value1, h4) = trace_value value (vheap vm3)
           in Option.bind (do_gc (Sfinalizer_alistS vm3) h4) (\<lambda>(okay, sickly, h5).
              Option.bind (add_sick_finalizers sickly (vm3\<lparr>vheap := h5, Sfinalizer_alistS := okay\<rparr>)) (\<lambda>vm6.
              map_option (\<lambda>vm7.
                (value1, set_interrupt_flag
                   (vm7\<lparr>Scode_pointerS := template_code (vmem vm7) (StemplateS vm7) + sint (sar 2 pc),
                        Spending_interruptsS := 4 OR Spending_interruptsS vm7\<rparr>)))
               (update_channels os 0 (vm6\<lparr>vheap := end_collection (vheap vm6)\<rparr>)))))))"

text \<open>
  Making room for so many cells: whether there is room, after a collection if there was none
  before; the value that is saved; the machine.
\<close>

definition ensure_space :: "host \<Rightarrow> long \<Rightarrow> long \<Rightarrow> vm \<Rightarrow> (bool \<times> long \<times> vm) option" where
  "ensure_space os cells temp vm =
     (if availableP (vheap vm) cells then Some (True, temp, vm)
      else map_option (\<lambda>(temp1, vm1). (availableP (vheap vm1) cells, temp1, vm1))
             (collect_saving_temp os temp vm))"

text \<open>Where the code does not go on without room: \<open>ps_error\<close> ends the process.\<close>

definition need_space :: "host \<Rightarrow> long \<Rightarrow> long \<Rightarrow> vm \<Rightarrow> (long \<times> vm) option" where
  "need_space os cells temp vm =
     Option.bind (ensure_space os cells temp vm) (\<lambda>(ok, temp1, vm1). if ok then Some (temp1, vm1) else None)"

end
