(* ===== verification/Vm_Data.thy ===== *)
theory Vm_Data
  imports Vm_Collect
begin

text \<open>
  The byte codes on stored objects (92 to 113 and some of the later ones of \<open>restart\<close> in
  \<open>src/c/scheme48vm.c\<close>): type tests, allocation, and reading and writing the cells of an
  object or the bytes of a string or code vector. Exception 5 is a wrong type of argument,
  7 an index out of range, 8 a heap that has no room; the arguments are pushed for the
  handler, the first one first.
\<close>

subsection \<open>Objects\<close>

definition stob_header :: "memory \<Rightarrow> long \<Rightarrow> long" where
  "stob_header m x = load m (ADDRESS_AFTER_HEADER x + (- 4))"

definition stob_of_type :: "memory \<Rightarrow> long \<Rightarrow> long \<Rightarrow> bool" where
  "stob_of_type m x type \<longleftrightarrow> STOBP x \<and> header_type (stob_header m x) = type"

definition immutableP :: "memory \<Rightarrow> long \<Rightarrow> bool" where
  "immutableP m x \<longleftrightarrow> 128 AND stob_header m x \<noteq> 0"

text \<open>The length in cells and in bytes, and the test of an index against it.\<close>

definition cell_count :: "memory \<Rightarrow> long \<Rightarrow> long" where
  "cell_count m x = sar 2 (3 + header_length (stob_header m x))"

definition byte_count :: "memory \<Rightarrow> long \<Rightarrow> long" where
  "byte_count m x = header_length (stob_header m x)"

definition in_range :: "long \<Rightarrow> long \<Rightarrow> bool" where
  "in_range i n \<longleftrightarrow> \<not> i <s 0 \<and> i <s n"

subsection \<open>Types and lengths\<close>

definition op_stored_object_has_type :: "vm \<Rightarrow> outcome option" where
  "op_stored_object_has_type vm =
     Some (goto_value 2 (if stob_of_type (vmem vm) (SvalS vm) (code_byte vm 1) then 5 else 1) vm)"

definition op_stored_object_length :: "vm \<Rightarrow> outcome option" where
  "op_stored_object_length vm =
     (let x = SvalS vm; type = code_byte vm 1 in
      if stob_of_type (vmem vm) x type
      then Some (goto_value 2 (cells_up (header_length (stob_header (vmem vm) x))) vm)
      else raise_exception 5 2 [x, push_bit 2 type] vm)"

subsection \<open>Cells at a fixed offset\<close>

definition op_stored_object_ref :: "vm \<Rightarrow> outcome option" where
  "op_stored_object_ref vm =
     (let x = SvalS vm; offset = code_byte vm 2; type = code_byte vm 1 in
      if stob_of_type (vmem vm) x type
      then Some (goto_value 3 (load (vmem vm) (ADDRESS_AFTER_HEADER x + sint (push_bit 2 offset))) vm)
      else raise_exception 5 3 [x, push_bit 2 type, push_bit 2 offset] vm)"

definition op_stored_object_set :: "vm \<Rightarrow> outcome option" where
  "op_stored_object_set vm =
     (let (arg2, vm1) = pop vm; x = SvalS vm1; offset = code_byte vm1 2; type = code_byte vm1 1 in
      if stob_of_type (vmem vm1) arg2 type \<and> STOBP arg2 \<and> \<not> immutableP (vmem vm1) arg2
      then Some (goto_value 3 13 (poke (ADDRESS_AFTER_HEADER arg2 + sint (push_bit 2 offset)) x vm1))
      else raise_exception 5 3 [arg2, push_bit 2 type, push_bit 2 offset, x] vm1)"

subsection \<open>Indexed cells\<close>

definition op_stored_object_indexed_ref :: "vm \<Rightarrow> outcome option" where
  "op_stored_object_indexed_ref vm =
     (let (arg2, vm1) = pop vm; x = SvalS vm1; type = code_byte vm1 1 in
      if FIXNUMP x \<and> stob_of_type (vmem vm1) arg2 type
      then if in_range (sar 2 x) (cell_count (vmem vm1) arg2)
           then Some (goto_value 2 (load (vmem vm1) (ADDRESS_AFTER_HEADER arg2 + sint ((- 4) AND x))) vm1)
           else raise_exception 7 2 [arg2, push_bit 2 type, x] vm1
      else raise_exception 5 2 [arg2, push_bit 2 type, x] vm1)"

definition op_stored_object_indexed_set :: "vm \<Rightarrow> outcome option" where
  "op_stored_object_indexed_set vm =
     (let (arg2, vm1) = pop vm; (arg3, vm2) = pop vm1; x = SvalS vm2; type = code_byte vm2 1 in
      if FIXNUMP arg2 \<and> stob_of_type (vmem vm2) arg3 type \<and> STOBP arg3 \<and> \<not> immutableP (vmem vm2) arg3
      then if in_range (sar 2 arg2) (cell_count (vmem vm2) arg3)
           then Some (goto_value 2 13 (poke (ADDRESS_AFTER_HEADER arg3 + sint ((- 4) AND arg2)) x vm2))
           else raise_exception 7 2 [arg3, push_bit 2 type, arg2, x] vm2
      else raise_exception 5 2 [arg3, push_bit 2 type, arg2, x] vm2)"

text \<open>Any object of descriptors, whether immutable or not.\<close>

definition op_untyped_indexed_set :: "vm \<Rightarrow> outcome option" where
  "op_untyped_indexed_set vm =
     (let (arg2, vm1) = pop vm; (arg3, vm2) = pop vm1; x = SvalS vm2; index = sar 2 arg2 in
      if FIXNUMP arg2
      then if STOBP arg3 \<and> header_type (stob_header (vmem vm2) arg3) <s 19
           then if in_range index (cell_count (vmem vm2) arg3)
                then Some (goto_value 1 13 (poke (ADDRESS_AFTER_HEADER arg3 + sint (push_bit 2 index)) x vm2))
                else raise_exception 7 1 [arg3, push_bit 2 index, x] vm2
           else raise_exception 5 1 [arg3, push_bit 2 index, x] vm2
      else raise_exception 5 1 [arg3, arg2, x] vm2)"

text \<open>Records, with the type that the record has to have.\<close>

definition op_checked_record_ref :: "vm \<Rightarrow> outcome option" where
  "op_checked_record_ref vm =
     (let (arg2, vm1) = pop vm; (arg3, vm2) = pop vm1; x = SvalS vm2; index = sar 2 x in
      if FIXNUMP x
      then if stob_of_type (vmem vm2) arg3 8 \<and> arg2 = load (vmem vm2) (ADDRESS_AFTER_HEADER arg3)
           then if in_range index (cell_count (vmem vm2) arg3)
                then Some (goto_value 1 (load (vmem vm2) (ADDRESS_AFTER_HEADER arg3 + sint (push_bit 2 index))) vm2)
                else raise_exception 7 1 [arg3, arg2, push_bit 2 index] vm2
           else raise_exception 5 1 [arg3, arg2, push_bit 2 index] vm2
      else raise_exception 5 1 [arg3, arg2, x] vm2)"

definition op_checked_record_set :: "vm \<Rightarrow> outcome option" where
  "op_checked_record_set vm =
     (let (arg2, vm1) = pop vm; (arg3, vm2) = pop vm1; (arg4, vm3) = pop vm2; x = SvalS vm3; index = sar 2 arg2 in
      if FIXNUMP arg2
      then if stob_of_type (vmem vm3) arg4 8 \<and> arg3 = load (vmem vm3) (ADDRESS_AFTER_HEADER arg4)
              \<and> \<not> immutableP (vmem vm3) arg4
           then if in_range index (cell_count (vmem vm3) arg4)
                then Some (goto_value 1 13 (poke (ADDRESS_AFTER_HEADER arg4 + sint (push_bit 2 index)) x vm3))
                else raise_exception 7 1 [arg4, arg3, push_bit 2 index, x] vm3
           else raise_exception 5 1 [arg4, arg3, push_bit 2 index, x] vm3
      else raise_exception 5 1 [arg4, arg3, arg2, x] vm3)"

subsection \<open>Allocation\<close>

text \<open>A new object: its type and its length in bytes go into the header.\<close>

definition make_stob :: "long \<Rightarrow> long \<Rightarrow> vm \<Rightarrow> long \<times> vm" where
  "make_stob type nbytes vm =
     (let (addr, h) = allocate_space type (4 + nbytes) 0 (vheap vm);
          m = Memory.store (mem h) addr (2 + push_bit 2 (push_bit 6 nbytes + type))
      in (stob_at (addr + 4), vm\<lparr>vheap := h\<lparr>mem := m\<rparr>\<rparr>))"

text \<open>The loops that fill it, from the last element down.\<close>

function fill_cells :: "addr \<Rightarrow> int \<Rightarrow> long \<Rightarrow> memory \<Rightarrow> memory" where
  "fill_cells a i x m = (if i < 0 then m else fill_cells a (- 1 + i) x (Memory.store m (a + 4 * i) x))"
  by pat_completeness auto
termination
  by (relation "measure (\<lambda>(_, i, _). nat (i + 1))") simp_all

function fill_bytes :: "addr \<Rightarrow> int \<Rightarrow> byte \<Rightarrow> memory \<Rightarrow> memory" where
  "fill_bytes a i b m = (if i < 0 then m else fill_bytes a (- 1 + i) b (m(a + i := b)))"
  by pat_completeness auto
termination
  by (relation "measure (\<lambda>(_, i, _). nat (i + 1))") simp_all

function fill_from_stack :: "addr \<Rightarrow> int \<Rightarrow> vm \<Rightarrow> vm" where
  "fill_from_stack a i vm =
     (if i < 0 then vm
      else let (x, vm1) = pop vm in fill_from_stack a (- 1 + i) (poke (a + 4 * i) x vm1))"
  by pat_completeness auto
termination
  by (relation "measure (\<lambda>(_, i, _). nat (i + 1))") simp_all

declare fill_cells.simps [simp del] fill_bytes.simps [simp del] fill_from_stack.simps [simp del]

text \<open>The last cell is the value, those before it are on the stack.\<close>

definition op_make_stored_object :: "host \<Rightarrow> vm \<Rightarrow> outcome option" where
  "op_make_stored_object os vm =
     (let count = code_byte vm 1
      in map_option (\<lambda>(_, vm1).
           let (new, vm2) = make_stob (code_byte vm1 2) (push_bit 2 count) vm1;
               a = ADDRESS_AFTER_HEADER new
           in if count <s 1 then goto_value 3 new vm2
              else let vm3 = poke (a + sint (- 4 + push_bit 2 count)) (SvalS vm2) vm2
                   in goto_value 3 new (fill_from_stack a (sint (- 2 + count)) vm3))
         (need_space os (4 + push_bit 2 count) 0 vm))"

definition fill_vector :: "long \<Rightarrow> long \<Rightarrow> long \<Rightarrow> vm \<Rightarrow> outcome option" where
  "fill_vector type count x vm =
     (let (new, vm1) = make_stob type (push_bit 2 count) vm
      in Some (goto_value 2 new
                (set_vmem (fill_cells (ADDRESS_AFTER_HEADER new) (sint (- 1 + count)) x (vmem vm1)) vm1)))"

definition op_make_vector_object :: "host \<Rightarrow> vm \<Rightarrow> outcome option" where
  "op_make_vector_object os vm =
     (let (arg2, vm1) = pop vm; x = SvalS vm1; type = code_byte vm1 1; count = sar 2 arg2; cells = 1 + count in
      if \<not> FIXNUMP arg2 then raise_exception 5 2 [push_bit 2 type, arg2, x] vm1
      else if count <s 0 \<or> 4194305 <s cells
      then raise_exception 5 2 [push_bit 2 type, push_bit 2 count, x] vm1
      else Option.bind (ensure_space os cells x vm1) (\<lambda>(ok, init, vm2).
             if ok then fill_vector type count init vm2
             else raise_exception 8 2 [push_bit 2 type, push_bit 2 count, init] vm2))"

definition op_make_code_vector :: "host \<Rightarrow> vm \<Rightarrow> outcome option" where
  "op_make_code_vector os vm =
     (let (arg2, vm1) = pop vm; count = sar 2 arg2; init = sar 2 (SvalS vm1);
          cells = 1 + sar 2 (3 + count) in
      if 3 AND (arg2 OR SvalS vm1) \<noteq> 0 then raise_exception 5 1 [arg2, SvalS vm1] vm1
      else if count <s 0 \<or> 4194305 <s cells then raise_exception 5 1 [push_bit 2 count, push_bit 2 init] vm1
      else Option.bind (ensure_space os cells 0 vm1) (\<lambda>(ok, _, vm2).
             if ok
             then let (addr, h) = allocate_space 20 (4 + count) 0 (vheap vm2);
                      m = Memory.store (mem h) addr (82 + push_bit 8 count);
                      new = stob_at (addr + 4)
                  in Some (goto_value 1 new (vm2\<lparr>vheap := h\<lparr>mem :=
                        fill_bytes (ADDRESS_AFTER_HEADER new) (sint (- 1 + count)) (ucast init) m\<rparr>\<rparr>))
             else raise_exception 8 1 [push_bit 2 count, push_bit 2 init] vm2))"

text \<open>A string ends with a zero byte that its length does not count.\<close>

definition op_make_string :: "host \<Rightarrow> vm \<Rightarrow> outcome option" where
  "op_make_string os vm =
     (let (arg2, vm1) = pop vm; count = sar 2 arg2; init = sar 8 (SvalS vm1);
          cells = 1 + sar 2 (4 + count) in
      if \<not> (FIXNUMP arg2 \<and> CHARP (SvalS vm1)) then raise_exception 5 1 [arg2, SvalS vm1] vm1
      else if count <s 0 \<or> 4194305 <s cells then raise_exception 5 1 [push_bit 2 count, 9 + push_bit 8 init] vm1
      else Option.bind (ensure_space os cells 0 vm1) (\<lambda>(ok, _, vm2).
             if ok
             then let (addr, h) = allocate_space 19 (4 + (1 + count)) 0 (vheap vm2);
                      m = Memory.store (mem h) addr (78 + push_bit 8 (1 + count));
                      new = stob_at (addr + 4);
                      a = ADDRESS_AFTER_HEADER new;
                      m1 = m(a + sint count := 0)
                  in Some (goto_value 1 new (vm2\<lparr>vheap := h\<lparr>mem :=
                        fill_bytes a (sint (- 1 + count)) (ucast init) m1\<rparr>\<rparr>))
             else raise_exception 8 1 [push_bit 2 count, 9 + push_bit 8 init] vm2))"

subsection \<open>Bytes\<close>

definition op_code_vector_length :: "vm \<Rightarrow> outcome option" where
  "op_code_vector_length vm =
     (if stob_of_type (vmem vm) (SvalS vm) 20
      then Some (goto_value 1 (push_bit 2 (byte_count (vmem vm) (SvalS vm))) vm)
      else raise_exception 5 1 [SvalS vm] vm)"

definition op_code_vector_ref :: "vm \<Rightarrow> outcome option" where
  "op_code_vector_ref vm =
     (let (arg2, vm1) = pop vm; index = sar 2 (SvalS vm1) in
      if stob_of_type (vmem vm1) arg2 20 \<and> FIXNUMP (SvalS vm1)
      then if in_range index (byte_count (vmem vm1) arg2)
           then Some (goto_value 1 (push_bit 2 (ucast (vmem vm1 (ADDRESS_AFTER_HEADER arg2 + sint index)))) vm1)
           else raise_exception 7 1 [arg2, push_bit 2 index] vm1
      else raise_exception 5 1 [arg2, SvalS vm1] vm1)"

definition op_code_vector_set :: "vm \<Rightarrow> outcome option" where
  "op_code_vector_set vm =
     (let (arg2, vm1) = pop vm; (arg3, vm2) = pop vm1; index = sar 2 arg2; byte = sar 2 (SvalS vm2) in
      if stob_of_type (vmem vm2) arg3 20 \<and> 3 AND (arg2 OR SvalS vm2) = 0
      then if STOBP arg3 \<and> \<not> immutableP (vmem vm2) arg3
           then if in_range index (byte_count (vmem vm2) arg3)
                then Some (goto_value 1 13 (poke_byte (ADDRESS_AFTER_HEADER arg3 + sint index) (ucast byte) vm2))
                else raise_exception 7 1 [arg3, push_bit 2 index, push_bit 2 byte] vm2
           else raise_exception 5 1 [arg3, push_bit 2 index, push_bit 2 byte] vm2
      else raise_exception 5 1 [arg3, arg2, SvalS vm2] vm2)"

definition op_string_length :: "vm \<Rightarrow> outcome option" where
  "op_string_length vm =
     (if stob_of_type (vmem vm) (SvalS vm) 19
      then Some (goto_value 1 (- 4 + push_bit 2 (byte_count (vmem vm) (SvalS vm))) vm)
      else raise_exception 5 1 [SvalS vm] vm)"

definition op_string_ref :: "vm \<Rightarrow> outcome option" where
  "op_string_ref vm =
     (let (arg2, vm1) = pop vm; index = sar 2 (SvalS vm1) in
      if stob_of_type (vmem vm1) arg2 19 \<and> FIXNUMP (SvalS vm1)
      then if in_range index (- 1 + byte_count (vmem vm1) arg2)
           then Some (goto_value 1 (9 + push_bit 8 (ucast (vmem vm1 (ADDRESS_AFTER_HEADER arg2 + sint index)))) vm1)
           else raise_exception 7 1 [arg2, push_bit 2 index] vm1
      else raise_exception 5 1 [arg2, SvalS vm1] vm1)"

definition op_string_set :: "vm \<Rightarrow> outcome option" where
  "op_string_set vm =
     (let (arg2, vm1) = pop vm; (arg3, vm2) = pop vm1; index = sar 2 arg2; char = sar 8 (SvalS vm2) in
      if stob_of_type (vmem vm2) arg3 19 \<and> FIXNUMP arg2 \<and> CHARP (SvalS vm2)
      then if STOBP arg3 \<and> \<not> immutableP (vmem vm2) arg3
           then if in_range index (- 1 + byte_count (vmem vm2) arg3)
                then Some (goto_value 1 13 (poke_byte (ADDRESS_AFTER_HEADER arg3 + sint index) (ucast char) vm2))
                else raise_exception 7 1 [arg3, push_bit 2 index, 9 + push_bit 8 char] vm2
           else raise_exception 5 1 [arg3, push_bit 2 index, 9 + push_bit 8 char] vm2
      else raise_exception 5 1 [arg3, arg2, SvalS vm2] vm2)"

text \<open>Two strings are equal when their lengths and all their bytes are.\<close>

definition op_string_equal :: "vm \<Rightarrow> outcome option" where
  "op_string_equal vm =
     (let (arg2, vm1) = pop vm; x = SvalS vm1; m = vmem vm1 in
      if stob_of_type m arg2 19 \<and> stob_of_type m x 19
      then let n = byte_count m arg2 in
           Some (goto_value 1
             (if n = byte_count m x \<and> load_bytes m (ADDRESS_AFTER_HEADER x) (unat n) =
                   load_bytes m (ADDRESS_AFTER_HEADER arg2) (unat n) then 5 else 1) vm1)
      else raise_exception 5 1 [arg2, x] vm1)"

definition op_string_hash :: "vm \<Rightarrow> outcome option" where
  "op_string_hash vm =
     (let x = SvalS vm; n = - 1 + byte_count (vmem vm) x in
      if stob_of_type (vmem vm) x 19
      then Some (goto_value 1 (push_bit 2
             (sum_list (map (\<lambda>b. ucast b) (load_bytes (vmem vm) (ADDRESS_AFTER_HEADER x) (nat (sint n)))))) vm)
      else raise_exception 5 1 [x] vm)"

subsection \<open>Locations and mutability\<close>

definition op_location_defined :: "vm \<Rightarrow> outcome option" where
  "op_location_defined vm =
     (let x = SvalS vm; v = load (vmem vm) (ADDRESS_AFTER_HEADER x + 8) in
      if stob_of_type (vmem vm) x 4
      then Some (goto_value 1 (if 255 AND v = 17 then if v = 529 then 5 else 1 else 5) vm)
      else raise_exception 5 1 [x] vm)"

definition op_set_location_defined :: "vm \<Rightarrow> outcome option" where
  "op_set_location_defined vm =
     (let (arg2, vm1) = pop vm; x = SvalS vm1; a = ADDRESS_AFTER_HEADER arg2 + 8 in
      if stob_of_type (vmem vm1) arg2 4 \<and> (x = 1 \<or> x = 5)
      then Some (goto_value 1 13
             (if x = 1 then poke a 273 vm1
              else if 255 AND load (vmem vm1) a = 17 then poke a 529 vm1 else vm1))
      else raise_exception 5 1 [arg2, x] vm1)"

definition op_immutable :: "vm \<Rightarrow> outcome option" where
  "op_immutable vm =
     (let x = SvalS vm in
      Some (goto_value 1 (if STOBP x then if immutableP (vmem vm) x then 5 else 1 else 5) vm))"

definition op_make_immutable :: "vm \<Rightarrow> outcome option" where
  "op_make_immutable vm =
     (let x = SvalS vm; a = ADDRESS_AFTER_HEADER x + (- 4) in
      Some (goto_value 1 x
        (if STOBP x \<and> \<not> immutableP (vmem vm) x then poke a (128 OR load (vmem vm) a) vm else vm)))"

end
