(* ===== verification/Vm_Lists.thy ===== *)
theory Vm_Lists
  imports Vm_Data
begin

text \<open>
  Lists in the virtual machine (\<open>src/c/scheme48vm.c\<close>): the check of an argument list, the
  search of an association list, and the routines that move arguments between the stack and
  lists.
\<close>

subsection \<open>Pairs\<close>

definition pairP :: "memory \<Rightarrow> long \<Rightarrow> bool" where
  "pairP m x \<longleftrightarrow> stob_of_type m x 0"
definition car :: "memory \<Rightarrow> long \<Rightarrow> long" where
  "car m x = load m (ADDRESS_AFTER_HEADER x)"
definition cdr :: "memory \<Rightarrow> long \<Rightarrow> long" where
  "cdr m x = load m (ADDRESS_AFTER_HEADER x + 4)"

text \<open>\<open>ALLOCATE_SPACE(0, 12)\<close> and the two stores.\<close>

definition cons :: "long \<Rightarrow> long \<Rightarrow> vm \<Rightarrow> long \<times> vm" where
  "cons a d vm =
     (let (addr, h) = allocate_space 0 12 0 (vheap vm);
          x = stob_at (addr + 4);
          m1 = Memory.store (mem h) addr 2050;
          m2 = Memory.store m1 (ADDRESS_AFTER_HEADER x) a;
          m3 = Memory.store m2 (ADDRESS_AFTER_HEADER x + 4) d
      in (x, vm\<lparr>vheap := h\<lparr>mem := m3\<rparr>\<rparr>))"

subsection \<open>Walking a list\<close>

text \<open>
  A second pointer follows at half the speed; when the first one meets it the list is
  circular. The result is whether the list is proper, and its length.
\<close>

partial_function (option) argument_list_from ::
    "memory \<Rightarrow> long \<Rightarrow> long \<Rightarrow> long \<Rightarrow> bool \<Rightarrow> (bool \<times> long) option" where
  "argument_list_from m fast n slow move_slow =
     (if fast = SCHNULL then Some (True, n)
      else if pairP m fast
      then if move_slow
           then if fast = slow then Some (False, 0)
                else argument_list_from m (cdr m fast) (1 + n) (cdr m slow) False
           else argument_list_from m (cdr m fast) (1 + n) slow True
      else Some (False, 0))"

declare argument_list_from.simps [code]

definition okay_argument_list :: "memory \<Rightarrow> long \<Rightarrow> (bool \<times> long) option" where
  "okay_argument_list m list = argument_list_from m list 0 list False"

text \<open>\<open>None\<close> as the inner result is the exception of \<open>assq\<close>: a list that is improper or circular, or an element that is no pair.\<close>

partial_function (option) assq_from :: "memory \<Rightarrow> long \<Rightarrow> long \<Rightarrow> long \<Rightarrow> bool \<Rightarrow> long option option" where
  "assq_from m thing list slow move_slow =
     (if list = SCHNULL then Some (Some 1)
      else if pairP m list \<and> pairP m (car m list)
      then if car m (car m list) = thing then Some (Some (car m list))
           else if cdr m list = slow then Some None
           else if move_slow then assq_from m thing (cdr m list) (cdr m slow) False
           else assq_from m thing (cdr m list) slow True
      else Some None)"

declare assq_from.simps [code]

definition op_assq :: "vm \<Rightarrow> outcome option" where
  "op_assq vm =
     (let (arg2, vm1) = pop vm; x = SvalS vm1
      in Option.bind (assq_from (vmem vm1) arg2 x x True) (\<lambda>r. case r of
           Some v \<Rightarrow> Some (goto_value 1 v vm1)
         | None \<Rightarrow> raise_exception 5 1 [arg2, x] vm1))"

subsection \<open>Stack to list\<close>

text \<open>The arguments are popped, the last one first, in front of the list \<open>start\<close>; a count that is negative is never reached.\<close>

partial_function (option) pop_args_from :: "long \<Rightarrow> long \<Rightarrow> vm \<Rightarrow> (long \<times> vm) option" where
  "pop_args_from args count vm =
     (if count = 0 then Some (args, vm)
      else let (a, vm1) = pop vm; (x, vm2) = cons a args vm1
           in pop_args_from x (- 1 + count) vm2)"

declare pop_args_from.simps [code]

definition pop_args_GlistS :: "host \<Rightarrow> long \<Rightarrow> long \<Rightarrow> vm \<Rightarrow> (long \<times> vm) option" where
  "pop_args_GlistS os start count vm =
     Option.bind (need_space os (3 * count) start vm) (\<lambda>(start1, vm1). pop_args_from start1 count vm1)"

subsection \<open>Copying a list\<close>

partial_function (option) copy_list_from :: "long \<Rightarrow> long \<Rightarrow> vm \<Rightarrow> vm option" where
  "copy_list_from l prev vm =
     (if l = SCHNULL then Some vm
      else let (x, vm1) = cons (car (vmem vm) l) SCHNULL vm;
               vm2 = poke (ADDRESS_AFTER_HEADER prev + 4) x vm1
           in copy_list_from (cdr (vmem vm2) l) x vm2)"

declare copy_list_from.simps [code]

definition copy_listS :: "host \<Rightarrow> long \<Rightarrow> long \<Rightarrow> vm \<Rightarrow> (long \<times> vm) option" where
  "copy_listS os list count vm =
     (if count = 0 then Some (SCHNULL, vm)
      else Option.bind (need_space os (3 * count) list vm) (\<lambda>(list1, vm1).
             let (x, vm2) = cons (car (vmem vm1) list1) SCHNULL vm1
             in map_option (Pair x) (copy_list_from (cdr (vmem vm2) list1) x vm2)))"

subsection \<open>List to stack\<close>

text \<open>How many cells of the stack are free, of which 64 are kept for the machine itself.\<close>

definition stack_room :: "vm \<Rightarrow> long \<Rightarrow> bool" where
  "stack_room vm count \<longleftrightarrow>
     count <s 64 + sar 2 (word_of_int (SstackS vm - Sstack_limitS vm))"

function push_elements :: "int \<Rightarrow> long \<Rightarrow> vm \<Rightarrow> long \<times> vm" where
  "push_elements i l vm =
     (if 0 < i then let vm1 = push (car (vmem vm) l) vm in push_elements (- 1 + i) (cdr (vmem vm1) l) vm1
      else (l, vm))"
  by pat_completeness auto
termination
  by (relation "measure (\<lambda>(i, _). nat i)") simp_all

declare push_elements.simps [simp del]

text \<open>
  When there is no room the stack is moved to the heap; when that does not help, and when the
  heap has no room, the process ends.
\<close>

definition make_stack_room :: "host \<Rightarrow> (vm \<Rightarrow> bool) \<Rightarrow> vm \<Rightarrow> vm option" where
  "make_stack_room os ok vm =
     (if ok vm then Some vm
      else Option.bind (need_space os (1 + sar 2 (word_of_int (Sstack_endS vm - SstackS vm))) 0 vm)
             (\<lambda>(_, vm1). Option.bind (copy_stack_into_heap vm1) (\<lambda>vm2. if ok vm2 then Some vm2 else None)))"

text \<open>The list is kept on the stack meanwhile. The result is the rest of the list.\<close>

definition push_list :: "host \<Rightarrow> long \<Rightarrow> long \<Rightarrow> vm \<Rightarrow> (long \<times> vm) option" where
  "push_list os list count vm =
     map_option (\<lambda>vm1. let (list1, vm2) = pop vm1 in push_elements (sint count) list1 vm2)
       (make_stack_room os (\<lambda>vm1. stack_room vm1 count) (push list vm))"

text \<open>The rest argument of a procedure that takes any number of arguments, on the stack.\<close>

definition rest_list_setup :: "host \<Rightarrow> long \<Rightarrow> long \<Rightarrow> long \<Rightarrow> long \<Rightarrow> vm \<Rightarrow> vm option" where
  "rest_list_setup os wants_stack_args stack_arg_count list_args list_arg_count vm =
     map_option (\<lambda>(x, vm1). push x vm1)
      (if stack_arg_count = wants_stack_args then copy_listS os list_args list_arg_count vm
       else if stack_arg_count <s wants_stack_args
       then let count = wants_stack_args - stack_arg_count
            in Option.bind (push_list os list_args count vm) (\<lambda>(v, vm1).
                 copy_listS os v (list_arg_count - count) vm1)
       else Option.bind (copy_listS os list_args list_arg_count vm) (\<lambda>(v, vm1).
              pop_args_GlistS os v (stack_arg_count - wants_stack_args) vm1))"

end
