(* ===== verification/Vm_Interrupts.thy ===== *)
theory Vm_Interrupts
  imports Vm_Lists
begin

text \<open>
  Events and interrupts in the virtual machine (\<open>src/c/scheme48vm.c\<close>): the events of
  \<open>event.c\<close> become bits in the set of pending interrupts, a completed operation also puts its
  channel in a queue; an interrupt that is enabled is handled at the next call, with its own
  arguments.
\<close>

subsection \<open>The queue of channels\<close>

text \<open>A channel: its status, name, index, the next one in the queue, and the result of the operation.\<close>

definition channel_next :: "memory \<Rightarrow> long \<Rightarrow> long" where
  "channel_next m channel = load m (ADDRESS_AFTER_HEADER channel + 12)"

definition set_channel_next :: "long \<Rightarrow> long \<Rightarrow> vm \<Rightarrow> vm" where
  "set_channel_next channel v vm = poke (ADDRESS_AFTER_HEADER channel + 12) v vm"

text \<open>A channel that has a next one is taken to be in the queue already.\<close>

definition enqueue_channel :: "int \<Rightarrow> long \<Rightarrow> vm \<Rightarrow> vm" where
  "enqueue_channel index st vm =
     (let channel = Svm_channelsS vm index;
          vm1 = poke (ADDRESS_AFTER_HEADER channel + 16) (push_bit 2 st) vm
      in if channel_next (vmem vm1) channel \<noteq> 1 then vm1
         else if Spending_channels_headS vm1 = 1
         then vm1\<lparr>Spending_channels_headS := channel, Spending_channels_tailS := channel\<rparr>
         else (set_channel_next (Spending_channels_tailS vm1) channel vm1)\<lparr>Spending_channels_tailS := channel\<rparr>)"

definition dequeue_channel :: "vm \<Rightarrow> long \<times> vm" where
  "dequeue_channel vm =
     (let channel = Spending_channels_headS vm;
          n = channel_next (vmem vm) channel;
          vm1 = set_channel_next channel 1 (vm\<lparr>Spending_channels_headS := n\<rparr>)
      in (channel, if n = 1 then vm1\<lparr>Spending_channels_tailS := 1\<rparr> else vm1))"

subsection \<open>Events\<close>

text \<open>The interrupt an event stands for, and what else it does. Completed operations always have the status 0.\<close>

definition note_event_type :: "host \<Rightarrow> event_enum \<Rightarrow> vm \<Rightarrow> long \<times> vm" where
  "note_event_type os type vm =
     (case type of
        ALARM_EVENT \<Rightarrow>
          (1, if Sinterrupted_templateS vm = 1 then vm\<lparr>Sinterrupted_templateS := StemplateS vm\<rparr> else vm)
      | KEYBOARD_INTERRUPT_EVENT \<Rightarrow> (2, vm)
      | IO_COMPLETION_EVENT index \<Rightarrow> (8, enqueue_channel index 0 vm)
      | NO_EVENT \<Rightarrow> (0, vm)
      | ERROR_EVENT st \<Rightarrow>
          (0, vm_say (error_text os (word_of_int st)) (vm_say ''OS error while getting event'' vm)))"

definition clear_events :: "vm \<Rightarrow> vm" where
  "clear_events vm = vm\<lparr>vevents := (vevents vm)\<lparr>Spending_eventsPS := False\<rparr>\<rparr>"

text \<open>All events are taken in, until none is left; the result is whether an interrupt is to be handled.\<close>

partial_function (option) check_events :: "host \<Rightarrow> vm \<Rightarrow> (bool \<times> vm) option" where
  "check_events os vm =
     Option.bind (get_next_event (select_fds os) (vevents vm)) (\<lambda>(type, ev).
       let (bits, vm1) = note_event_type os type (vm\<lparr>vevents := ev\<rparr>);
           vm2 = vm1\<lparr>Spending_interruptsS := bits OR Spending_interruptsS vm1\<rparr>
       in if type \<noteq> NO_EVENT then check_events os vm2
          else let vm3 = set_interrupt_flag vm2
               in if Spending_interruptPS (vevents vm3)
                  then if Spending_eventsPS (vevents vm3) then check_events os (clear_events vm3)
                       else Some (True, vm3)
                  else Some (False, vm3))"

declare check_events.simps [code]

text \<open>What a procedure does on its entry, with the flag the signal handlers may set.\<close>

definition poll_interrupts :: "host \<Rightarrow> vm \<Rightarrow> (bool \<times> vm) option" where
  "poll_interrupts os vm =
     (if Spending_interruptPS (vevents vm)
      then if Spending_eventsPS (vevents vm) then check_events os (clear_events vm) else Some (True, vm)
      else Some (False, vm))"

definition interrupt_or_dispatch :: "host \<Rightarrow> long \<Rightarrow> vm \<Rightarrow> outcome option" where
  "interrupt_or_dispatch os nargs vm =
     map_option (\<lambda>(interrupted, vm1). if interrupted then Interrupt nargs vm1 else Dispatch vm1)
       (poll_interrupts os vm)"

subsection \<open>Handling an interrupt\<close>

text \<open>The pending interrupt of the highest priority is the one of the lowest bit.\<close>

partial_function (option) lowest_bit :: "long \<Rightarrow> long \<Rightarrow> long \<Rightarrow> (long \<times> long) option" where
  "lowest_bit n i m = (if n AND m = 0 then lowest_bit n (1 + i) (push_bit 1 m) else Some (i, m))"

declare lowest_bit.simps [code]

text \<open>The queue of channels keeps its interrupt pending until it is empty.\<close>

definition next_channel :: "vm \<Rightarrow> long \<times> vm" where
  "next_channel vm =
     (let (channel, vm1) = dequeue_channel vm
      in (channel, if Spending_channels_headS vm1 = 1 then vm1
                   else set_interrupt_flag (vm1\<lparr>Spending_interruptsS := 8 OR Spending_interruptsS vm1\<rparr>)))"

definition push_interrupt_args :: "long \<Rightarrow> vm \<Rightarrow> long \<times> vm" where
  "push_interrupt_args i vm =
     (let mask = (\<lambda>vm. push_bit 2 (Senabled_interruptsS vm)) in
      if i = 0 then
        let vm1 = (push (Sinterrupted_templateS vm) vm)\<lparr>Sinterrupted_templateS := 1\<rparr>
        in (2, push (mask vm1) vm1)
      else if i = 2 then
        let vm1 = push (Sfinalize_theseS vm) vm
        in (2, (push (mask vm1) vm1)\<lparr>Sfinalize_theseS := 25\<rparr>)
      else if i = 3 then
        let (channel, vm1) = next_channel vm;
            vm2 = push channel vm1;
            vm3 = push (load (vmem vm2) (ADDRESS_AFTER_HEADER channel + 16)) vm2
        in (3, push (mask vm3) vm3)
      else (1, push (mask vm) vm))"

definition closureP :: "memory \<Rightarrow> long \<Rightarrow> bool" where
  "closureP m x \<longleftrightarrow> stob_of_type m x 3"

text \<open>
  The value, the template, the code pointer and the enabled interrupts go on the stack, below a
  continuation that returns from the interrupt.
\<close>

definition saved_for_interrupt :: "long \<Rightarrow> vm \<Rightarrow> vm" where
  "saved_for_interrupt nargs vm =
     (let pc = push_bit 2 (word_of_int (Scode_pointerS vm - template_code (vmem vm) (StemplateS vm)));
          vm1 = push_all [SvalS vm, StemplateS vm, pc, push_bit 2 (Senabled_interruptsS vm)] vm;
          tem = Sinterrupt_templateS vm1; code = template_code (vmem vm1) tem
      in push_continuationB code (4 + nargs) (vm1\<lparr>StemplateS := tem, Scode_pointerS := code\<rparr>))"

text \<open>
  The handler of the interrupt is called with all interrupts disabled. A table of handlers that
  is no vector, and a handler that is no closure, end the process.
\<close>

definition handle_interrupt :: "long \<Rightarrow> vm \<Rightarrow> outcome option" where
  "handle_interrupt nargs vm =
     (let vm1 = saved_for_interrupt nargs vm
      in Option.bind (lowest_bit (Spending_interruptsS vm1 AND Senabled_interruptsS vm1) 0 1) (\<lambda>(i, m).
           let (argc, vm2) = push_interrupt_args i
                 (vm1\<lparr>Spending_interruptsS := Spending_interruptsS vm1 AND NOT m\<rparr>);
               vm3 = set_interrupt_flag (vm2\<lparr>Senabled_interruptsS := 0\<rparr>);
               proc = load (vmem vm3) (ADDRESS_AFTER_HEADER (Sinterrupt_handlersS vm3) + sint (push_bit 2 i))
           in if stob_of_type (vmem vm2) (Sinterrupt_handlersS vm2) 2 \<and> closureP (vmem vm3) proc
              then Some (Apply argc (vm3\<lparr>SvalS := proc, StemplateS := proc, Slosing_opcodeS := 0 - i\<rparr>))
              else None))"

subsection \<open>Handling an exception\<close>

text \<open>
  The handler is looked up by the opcode, which lies below the arguments. Without one
  \<open>lose\<close> prints the templates of the continuations and ends the process.
\<close>

definition handle_exception :: "long \<Rightarrow> vm \<Rightarrow> outcome option" where
  "handle_exception nargs vm =
     (let opcode = sar 2 (load (vmem vm) (SstackS vm + (8 + sint (push_bit 2 nargs))));
          proc = load (vmem vm) (ADDRESS_AFTER_HEADER (Sexception_handlersS vm) + sint (push_bit 2 opcode))
      in if stob_of_type (vmem vm) (Sexception_handlersS vm) 2 \<and> closureP (vmem vm) proc
         then Some (Apply (2 + nargs) (vm\<lparr>SvalS := proc, StemplateS := proc, Slosing_opcodeS := opcode\<rparr>))
         else None)"

end
