(* ===== verification/Vm_Calls.thy ===== *)
theory Vm_Calls
  imports Vm_Interrupts
begin

text \<open>
  Procedure calls (\<open>src/c/scheme48vm.c\<close>, from \<open>L16469\<close>, \<open>L18972\<close>, \<open>L17564\<close> and \<open>L21104\<close> on). The
  code of a closure starts with its protocol: how many arguments it takes, whether it takes
  more in a list, whether it needs more room on the stack than most. The caller matches the
  arguments it has, on the stack or in a list, with it.
\<close>

subsection \<open>Protocols\<close>

definition byte_at :: "memory \<Rightarrow> long \<Rightarrow> long \<Rightarrow> long" where
  "byte_at m x i = ucast (m (ADDRESS_AFTER_HEADER x + sint i))"

definition two_bytes_at :: "memory \<Rightarrow> long \<Rightarrow> long \<Rightarrow> long" where
  "two_bytes_at m x i = push_bit 8 (byte_at m x i) + byte_at m x (1 + i)"

text \<open>The code of the closure in \<open>SvalS\<close>.\<close>

definition val_code :: "vm \<Rightarrow> long" where
  "val_code vm = load (vmem vm) (ADDRESS_AFTER_HEADER (load (vmem vm) (ADDRESS_AFTER_HEADER (SvalS vm))))"

text \<open>
  The big-stack protocol 66 leads to the real one, which stands before the last two bytes of the
  code; these are the room needed.
\<close>

partial_function (option) real_protocol :: "memory \<Rightarrow> long \<Rightarrow> long \<Rightarrow> long \<Rightarrow> (long \<times> long) option" where
  "real_protocol m code protocol space =
     (if protocol = 66
      then let len = header_length (stob_header m code)
           in real_protocol m code (byte_at m code (- 3 + len)) (two_bytes_at m code (- 2 + len))
      else Some (protocol, space))"

declare real_protocol.simps [code]

subsection \<open>Entering a procedure\<close>

definition enter_closure :: "host \<Rightarrow> long \<Rightarrow> long \<Rightarrow> long \<Rightarrow> vm \<Rightarrow> outcome option" where
  "enter_closure os skip nargs space vm =
     (let template = load (vmem vm) (ADDRESS_AFTER_HEADER (SvalS vm));
          vm1 = vm\<lparr>StemplateS := template, Scode_pointerS := template_code (vmem vm) template + sint skip,
                   SenvS := load (vmem vm) (ADDRESS_AFTER_HEADER (SvalS vm) + 4)\<rparr>
      in Option.bind (make_stack_room os (\<lambda>vm. stack_room vm space) vm1) (interrupt_or_dispatch os nargs))"

text \<open>A procedure that looks at its arguments itself gets a list of the rest, and both counts.\<close>

definition enter_nary :: "host \<Rightarrow> long \<Rightarrow> long \<Rightarrow> long \<Rightarrow> vm \<Rightarrow> outcome option" where
  "enter_nary os skip nargs space vm =
     enter_closure os skip (3 + nargs) space (push_all [25, push_bit 2 nargs, push_bit 2 nargs] vm)"

text \<open>
  Protocols: up to 63, so many arguments; 64, a number in two bytes; 65, at least a number in two
  bytes; 67, at least a number in one byte; 68, an offset into the code for each of no, one, two
  or more arguments. An unknown protocol ends the process.
\<close>

definition apply_closure :: "host \<Rightarrow> long \<Rightarrow> vm \<Rightarrow> outcome option" where
  "apply_closure os nargs vm =
     (let code = val_code vm; m = vmem vm; bad = Some (Bad_call 4 nargs 25 0 vm)
      in Option.bind (real_protocol m code (byte_at m code 1) 64) (\<lambda>(protocol, space).
         if protocol = 68 then
           if nargs <s 3
           then let skip = byte_at m code (2 + nargs) in if skip = 0 then bad else enter_closure os skip nargs space vm
           else let skip = byte_at m code 5 in if skip = 0 then bad else enter_nary os skip nargs space vm
         else if protocol = 67 then
           if nargs <s byte_at m code 2 then bad else enter_nary os 3 nargs space vm
         else if protocol = 65 then
           let wants = two_bytes_at m code 2 in
           if nargs <s wants then bad
           else Option.bind (rest_list_setup os wants nargs 25 0 vm) (enter_closure os 4 (1 + wants) space)
         else if 63 <s protocol then
           if protocol = 64 then if two_bytes_at m code 2 = nargs then enter_closure os 4 nargs space vm else bad
           else None
         else if protocol = nargs then enter_closure os 2 nargs space vm else bad))"

subsection \<open>Arguments in a list\<close>

definition enter_nary_list :: "host \<Rightarrow> long \<Rightarrow> long \<Rightarrow> long \<Rightarrow> long \<Rightarrow> long \<Rightarrow> vm \<Rightarrow> outcome option" where
  "enter_nary_list os skip nstack list nlist space vm =
     (let all_args = nstack + nlist;
          final = (if all_args <s 3 then all_args else if 2 <s nstack then nstack else 2)
      in Option.bind (rest_list_setup os (if nstack <s final then final else nstack) nstack list nlist vm)
           (\<lambda>vm1. enter_closure os skip (3 + final) space (push_all [push_bit 2 final, push_bit 2 all_args] vm1)))"

definition enter_with_list :: "host \<Rightarrow> long \<Rightarrow> long \<Rightarrow> long \<Rightarrow> long \<Rightarrow> long \<Rightarrow> vm \<Rightarrow> outcome option" where
  "enter_with_list os skip all_args list nlist space vm =
     Option.bind (push_list os list nlist vm) (\<lambda>(_, vm1). enter_closure os skip all_args space vm1)"

definition apply_closure_to_list :: "host \<Rightarrow> long \<Rightarrow> long \<Rightarrow> long \<Rightarrow> vm \<Rightarrow> outcome option" where
  "apply_closure_to_list os nstack list nlist vm =
     (let code = val_code vm; m = vmem vm; all_args = nstack + nlist;
          bad = Some (Bad_call 4 nstack list nlist vm)
      in Option.bind (real_protocol m code (byte_at m code 1) 64) (\<lambda>(protocol, space).
         if protocol = 68 then
           if all_args <s 3
           then let skip = byte_at m code (2 + all_args) in
                if skip = 0 then bad else enter_with_list os skip all_args list nlist space vm
           else let skip = byte_at m code 5 in
                if skip = 0 then bad else enter_nary_list os skip nstack list nlist space vm
         else if protocol = 67 then
           if all_args <s byte_at m code 2 then bad else enter_nary_list os 3 nstack list nlist space vm
         else if 63 <s protocol then
           if protocol = 65 then
             let wants = two_bytes_at m code 2 in
             if all_args <s wants then bad
             else Option.bind (rest_list_setup os wants nstack list nlist vm) (enter_closure os 4 (1 + wants) space)
           else if protocol = 64 then
             if two_bytes_at m code 2 = all_args then enter_with_list os 4 all_args list nlist space vm else bad
           else None
         else if protocol = all_args then enter_with_list os 2 all_args list nlist space vm else bad))"

definition apply_to_list :: "host \<Rightarrow> long \<Rightarrow> long \<Rightarrow> long \<Rightarrow> vm \<Rightarrow> outcome option" where
  "apply_to_list os nstack list nlist vm =
     (if nlist = 0
      then Some (if closureP (vmem vm) (SvalS vm) then Apply nstack vm else Bad_call 3 nstack 25 0 vm)
      else if closureP (vmem vm) (SvalS vm) then apply_closure_to_list os nstack list nlist vm
      else Some (Bad_call 3 nstack list nlist vm))"

subsection \<open>Calls that cannot be made\<close>

text \<open>
  The arguments are put in a list and passed to the handler with the procedure. When the
  procedure is the handler of an exception or interrupt itself the process ends.
\<close>

definition bad_call :: "host \<Rightarrow> long \<Rightarrow> long \<Rightarrow> long \<Rightarrow> long \<Rightarrow> vm \<Rightarrow> outcome option" where
  "bad_call os exception nargs list nlist vm =
     (if StemplateS vm = SvalS vm then None
      else Option.bind (copy_listS os list nlist vm) (\<lambda>(v, vm1).
           Option.bind (pop_args_GlistS os v nargs vm1) (\<lambda>(args, vm2).
             raise_exception exception 0 [SvalS vm2, args] vm2)))"

definition call_val :: "long \<Rightarrow> vm \<Rightarrow> outcome option" where
  "call_val nargs vm =
     Some (if closureP (vmem vm) (SvalS vm) then Apply nargs vm else Bad_call 3 nargs 25 0 vm)"

subsection \<open>Returning values\<close>

definition continuationP :: "memory \<Rightarrow> long \<Rightarrow> bool" where
  "continuationP m x \<longleftrightarrow> stob_of_type m x 9"

text \<open>The instruction a continuation returns to.\<close>

definition continuation_opcode :: "memory \<Rightarrow> long \<Rightarrow> long" where
  "continuation_opcode m cont =
     (let a = ADDRESS_AFTER_HEADER cont
      in ucast (m (template_code m (load m (a + 8)) + sint (sar 2 (load m (a + 4))))))"

definition drop_continuation :: "vm \<Rightarrow> vm" where
  "drop_continuation vm =
     (let n = load (vmem vm) (ADDRESS_AFTER_HEADER (ScontS vm))
      in if ScontS vm = Sbottom_of_stackS vm
         then poke (ADDRESS_AFTER_HEADER (ScontS vm)) (load (vmem vm) (ADDRESS_AFTER_HEADER n)) vm
         else vm\<lparr>ScontS := n\<rparr>)"

text \<open>
  One value returns like any value. Any other number goes to a continuation that ignores it
  (opcode 34), to the consumer of \<open>call-with-values\<close> (opcode 30), or is an exception.
\<close>

definition return_values :: "host \<Rightarrow> long \<Rightarrow> long \<Rightarrow> long \<Rightarrow> vm \<Rightarrow> outcome option" where
  "return_values os nstack list nlist vm =
     (if nstack = 1
      then let (x, vm1) = pop vm in Some (Dispatch (pop_continuationB (vm1\<lparr>SvalS := x\<rparr>)))
      else let cont = (if ScontS vm = Sbottom_of_stackS vm
                       then load (vmem vm) (ADDRESS_AFTER_HEADER (Sbottom_of_stackS vm)) else ScontS vm)
           in if continuationP (vmem vm) cont \<and> continuation_opcode (vmem vm) cont = 34
              then Some (Dispatch (pop_continuationB vm))
              else if continuationP (vmem vm) cont \<and> continuation_opcode (vmem vm) cont = 30
              then let vm1 = drop_continuation vm
                   in Some (Apply_list nstack list nlist
                        (vm1\<lparr>SvalS := load (vmem vm1) (ADDRESS_AFTER_HEADER cont + 16)\<rparr>))
              else Option.bind (pop_args_GlistS os list nstack vm)
                     (\<lambda>(args, vm1). raise_exception 4 0 [1, args] vm1))"

end
