(* ===== verification/Vm_Control.thy ===== *)
theory Vm_Control
  imports Vm_Calls
begin

text \<open>
  The byte codes 0 to 42 of \<open>restart\<close> (\<open>src/c/scheme48vm.c\<close>): variables and environments,
  closures, the stack, continuations, calls, returns and jumps.
\<close>

subsection \<open>Variables\<close>

definition literal :: "vm \<Rightarrow> long \<Rightarrow> long" where
  "literal vm i = load (vmem vm) (ADDRESS_AFTER_HEADER (StemplateS vm) + sint (push_bit 2 i))"

definition env_ref :: "memory \<Rightarrow> long \<Rightarrow> long \<Rightarrow> long" where
  "env_ref m env i = load m (ADDRESS_AFTER_HEADER env + sint (push_bit 2 i))"

definition env_parent :: "memory \<Rightarrow> long \<Rightarrow> long" where
  "env_parent m env = load m (ADDRESS_AFTER_HEADER env)"

partial_function (option) env_back :: "memory \<Rightarrow> long \<Rightarrow> long \<Rightarrow> long option" where
  "env_back m env back = (if back = 0 then Some env else env_back m (env_parent m env) (- 1 + back))"

declare env_back.simps [code]

text \<open>The value of a local variable; 529 marks one that has none yet. The size is the instruction's.\<close>

definition finish_local :: "long \<Rightarrow> long \<Rightarrow> long \<Rightarrow> vm \<Rightarrow> outcome option" where
  "finish_local env over n vm =
     (let vm1 = vm\<lparr>SvalS := env_ref (vmem vm) env over\<rparr>
      in if SvalS vm1 = 529 then raise_exception 0 n [] vm1 else Some (next_op (sint n) vm1))"

definition op_protocol :: "vm \<Rightarrow> outcome option" where
  "op_protocol vm = raise_exception 15 1 [] vm"

text \<open>The arguments on the stack become an environment there: its parent and its header are pushed.\<close>

definition op_make_env :: "vm \<Rightarrow> outcome option" where
  "op_make_env vm =
     (let vm1 = push (1034 + push_bit 10 (code_two_bytes vm 1)) (push (SenvS vm) vm)
      in Some (next_op 3 (vm1\<lparr>SenvS := stob_at (SstackS vm1 + 8)\<rparr>)))"

definition op_literal :: "vm \<Rightarrow> outcome option" where
  "op_literal vm = Some (goto_value 3 (literal vm (code_two_bytes vm 1)) vm)"
definition op_small_literal :: "vm \<Rightarrow> outcome option" where
  "op_small_literal vm = Some (goto_value 3 (literal vm (code_byte vm 1)) vm)"

definition op_local :: "vm \<Rightarrow> outcome option" where
  "op_local vm = Option.bind (env_back (vmem vm) (SenvS vm) (code_byte vm 1))
     (\<lambda>env. finish_local env (code_byte vm 2) 3 vm)"
definition op_local0 :: "vm \<Rightarrow> outcome option" where
  "op_local0 vm = finish_local (SenvS vm) (code_byte vm 1) 2 vm"
definition op_local1 :: "vm \<Rightarrow> outcome option" where
  "op_local1 vm = finish_local (env_parent (vmem vm) (SenvS vm)) (code_byte vm 1) 2 vm"
definition op_local2 :: "vm \<Rightarrow> outcome option" where
  "op_local2 vm = finish_local (env_parent (vmem vm) (env_parent (vmem vm) (SenvS vm))) (code_byte vm 1) 2 vm"
definition op_big_local :: "vm \<Rightarrow> outcome option" where
  "op_big_local vm = Option.bind (env_back (vmem vm) (SenvS vm) (code_byte vm 1))
     (\<lambda>env. finish_local env (code_two_bytes vm 2) 4 vm)"

definition op_set_local :: "vm \<Rightarrow> outcome option" where
  "op_set_local vm = map_option (\<lambda>env.
     goto_value 4 13 (poke (ADDRESS_AFTER_HEADER env + sint (push_bit 2 (code_two_bytes vm 2))) (SvalS vm) vm))
     (env_back (vmem vm) (SenvS vm) (code_byte vm 1))"

text \<open>
  A location without a value holds an immediate of the tag 17: 529 when it is unassigned, 273 when
  it is unbound. Both are the same exception.
\<close>

definition op_global :: "vm \<Rightarrow> outcome option" where
  "op_global vm =
     (let location = literal vm (code_two_bytes vm 1);
          vm1 = vm\<lparr>SvalS := load (vmem vm) (ADDRESS_AFTER_HEADER location + 8)\<rparr>
      in if 255 AND SvalS vm1 = 17 then raise_exception 1 3 [location] vm1 else Some (next_op 3 vm1))"

definition op_set_global :: "vm \<Rightarrow> outcome option" where
  "op_set_global vm =
     (let location = literal vm (code_two_bytes vm 1); a = ADDRESS_AFTER_HEADER location + 8
      in if load (vmem vm) a = 273 then raise_exception 1 3 [location, SvalS vm] vm
         else Some (goto_value 3 13 (poke a (SvalS vm) vm)))"

subsection \<open>Closures and environments\<close>

text \<open>
  The byte that tells whether the environment is the current one is the fourth after the
  opcode. An environment on the stack moves to the heap first; its space is asked for by the
  size of the stack, in bytes.
\<close>

definition preserve_current_env :: "host \<Rightarrow> vm \<Rightarrow> (long \<times> vm) option" where
  "preserve_current_env os vm =
     Option.bind (need_space os (if within_stackP vm (SenvS vm)
                                 then word_of_int (Sstack_endS vm - Sstack_beginS vm) else 0) 0 vm)
       (\<lambda>(_, vm1).
          if within_stackP vm1 (SenvS vm1)
          then map_option (\<lambda>(env, vm2). (env, vm2\<lparr>SenvS := env\<rparr>))
                 (save_env_in_heap (SenvS vm1) (ScontS vm1) vm1)
          else Some (SenvS vm1, vm1))"

definition op_closure :: "host \<Rightarrow> vm \<Rightarrow> outcome option" where
  "op_closure os vm =
     Option.bind (if code_byte vm 4 = 0 then preserve_current_env os vm else Some (SvalS vm, vm)) (\<lambda>(env, vm1).
     map_option (\<lambda>(env1, vm2).
       let a = literal vm2 (code_two_bytes vm2 1);
           (addr, h) = allocate_space 3 12 0 (vheap vm2);
           x = stob_at (addr + 4);
           m1 = Memory.store (mem h) addr 2062;
           m2 = Memory.store m1 (ADDRESS_AFTER_HEADER x) a;
           m3 = Memory.store m2 (ADDRESS_AFTER_HEADER x + 4) env1
       in goto_value 4 x (vm2\<lparr>vheap := h\<lparr>mem := m3\<rparr>\<rparr>)) (need_space os 3 env vm1))"

text \<open>
  A flat environment: the variables are given level by level, with the distance of each level
  from the one before, how many variables it gives, and their places in it. The result is the
  memory and the offset after the last place.
\<close>

partial_function (option) copy_level ::
    "vm \<Rightarrow> long \<Rightarrow> long \<Rightarrow> long \<Rightarrow> long \<Rightarrow> int \<Rightarrow> memory \<Rightarrow> (long \<times> int \<times> memory) option" where
  "copy_level vm new_env env count i off m =
     (if count = 0 then Some (i, off, m)
      else copy_level vm new_env env (- 1 + count) (1 + i) (1 + off)
             (Memory.store m (ADDRESS_AFTER_HEADER new_env + sint (push_bit 2 i))
                (env_ref m env (ucast (m (Scode_pointerS vm + 1 + off))))))"

declare copy_level.simps [code]

partial_function (option) copy_levels ::
    "vm \<Rightarrow> long \<Rightarrow> long \<Rightarrow> long \<Rightarrow> int \<Rightarrow> long \<Rightarrow> memory \<Rightarrow> (int \<times> memory) option" where
  "copy_levels vm new_env count i off env m =
     (if i = count then Some (off, m)
      else Option.bind (env_back m env (ucast (m (Scode_pointerS vm + 1 + off)))) (\<lambda>env1.
           Option.bind (copy_level vm new_env env1 (ucast (m (Scode_pointerS vm + 2 + off))) i (2 + off) m)
             (\<lambda>(i1, off1, m1). copy_levels vm new_env count i1 off1 env1 m1)))"

declare copy_levels.simps [code]

definition op_make_flat_env :: "host \<Rightarrow> vm \<Rightarrow> outcome option" where
  "op_make_flat_env os vm =
     (let count = code_byte vm 2
      in Option.bind (need_space os (1 + count) 0 vm) (\<lambda>(_, vm1).
         let (new_env, vm2) = make_stob 2 (push_bit 2 count) vm1;
             use_val = code_byte vm2 1 \<noteq> 0;
             m = (if use_val then Memory.store (vmem vm2) (ADDRESS_AFTER_HEADER new_env) (SvalS vm2) else vmem vm2)
         in map_option (\<lambda>(off, m1). goto_value (1 + off) new_env (set_vmem m1 vm2))
              (copy_levels vm2 new_env count (if use_val then 1 else 0) 2 (SenvS vm2) m)))"

subsection \<open>The stack\<close>

definition op_push :: "vm \<Rightarrow> outcome option" where
  "op_push vm = Some (next_op 1 (push (SvalS vm) vm))"

definition op_local0_push :: "vm \<Rightarrow> outcome option" where
  "op_local0_push vm =
     (let vm1 = vm\<lparr>SvalS := env_ref (vmem vm) (SenvS vm) (code_byte vm 1)\<rparr>
      in if SvalS vm1 = 529 then raise_exception 0 3 [] vm1
         else Some (next_op 3 (push (SvalS vm1) vm1)))"

definition op_push_local0 :: "vm \<Rightarrow> outcome option" where
  "op_push_local0 vm =
     (let vm1 = push (SvalS vm) vm in finish_local (SenvS vm1) (code_byte vm1 2) 3 vm1)"

definition op_pop :: "vm \<Rightarrow> outcome option" where
  "op_pop vm = (let (x, vm1) = pop vm in Some (goto_value 1 x vm1))"

definition stack_cell :: "vm \<Rightarrow> long \<Rightarrow> addr" where
  "stack_cell vm i = SstackS vm + (4 + sint (push_bit 2 i))"

definition op_stack_ref :: "vm \<Rightarrow> outcome option" where
  "op_stack_ref vm = Some (goto_value 2 (load (vmem vm) (stack_cell vm (code_byte vm 1))) vm)"
definition op_stack_set :: "vm \<Rightarrow> outcome option" where
  "op_stack_set vm = Some (next_op 2 (poke (stack_cell vm (code_byte vm 1)) (SvalS vm) vm))"

subsection \<open>Continuations\<close>

definition op_make_cont :: "vm \<Rightarrow> outcome option" where
  "op_make_cont vm =
     Some (next_op 4 (push_continuationB (Scode_pointerS vm + sint (code_two_bytes vm 1)) (code_byte vm 3) vm))"
definition op_make_big_cont :: "vm \<Rightarrow> outcome option" where
  "op_make_big_cont vm =
     Some (next_op 5 (push_continuationB (Scode_pointerS vm + sint (code_two_bytes vm 1)) (code_two_bytes vm 3) vm))"

definition op_current_cont :: "host \<Rightarrow> vm \<Rightarrow> outcome option" where
  "op_current_cont os vm =
     Option.bind (need_space os (1 + sar 2 (word_of_int (Sstack_endS vm - SstackS vm))) 0 vm) (\<lambda>(_, vm1).
       if ScontS vm1 = 1 then Some (goto_value 1 1 vm1)
       else map_option (\<lambda>(v, vm2). goto_value 1 v vm2) (really_preserve_continuation vm1))"

text \<open>The stack is emptied and \<open>cont\<close> is what its bottom continues with.\<close>

definition reset_stack :: "long \<Rightarrow> vm \<Rightarrow> vm" where
  "reset_stack cont vm =
     (let a = ADDRESS_AFTER_HEADER (Sbottom_of_stackS vm)
      in (poke a cont vm)\<lparr>SstackS := a + (- 8), ScontS := Sbottom_of_stackS vm\<rparr>)"

text \<open>
  The next continuation comes from the heap. False is the end: a fixnum is then the result of the
  machine, anything else an exception, as is a value that is no continuation.
\<close>

definition op_get_cont_from_heap :: "vm \<Rightarrow> outcome option" where
  "op_get_cont_from_heap vm =
     (let cont = load (vmem vm) (ADDRESS_AFTER_HEADER (Sbottom_of_stackS vm))
      in if continuationP (vmem vm) cont then Some (next_op 1 (snd (copy_continuation_from_heapB cont vm)))
         else if cont = 1 \<and> FIXNUMP (SvalS vm) then Some (Leave 0 (vm\<lparr>SvalS := sar 2 (SvalS vm)\<rparr>))
         else raise_exception 5 1 [SvalS vm, cont] (reset_stack 1 vm))"

definition op_with_continuation :: "vm \<Rightarrow> outcome option" where
  "op_with_continuation vm =
     (let (cont, vm1) = pop vm
      in call_val 0 (if continuationP (vmem vm1) cont then snd (copy_continuation_from_heapB cont vm1)
                     else reset_stack cont vm1))"

subsection \<open>Calls\<close>

text \<open>The usual call of a procedure with a fixed number of arguments does not look further.\<close>

definition op_call :: "host \<Rightarrow> vm \<Rightarrow> outcome option" where
  "op_call os vm =
     (let nargs = code_byte vm 1;
          template = load (vmem vm) (ADDRESS_AFTER_HEADER (SvalS vm));
          code = load (vmem vm) (ADDRESS_AFTER_HEADER template)
      in if closureP (vmem vm) (SvalS vm)
         then if nargs = byte_at (vmem vm) code 1
              then Option.bind (make_stack_room os (\<lambda>vm. \<not> SstackS vm < Sstack_limitS vm)
                     (vm\<lparr>StemplateS := template, SenvS := load (vmem vm) (ADDRESS_AFTER_HEADER (SvalS vm) + 4),
                         Scode_pointerS := ADDRESS_AFTER_HEADER code + 2\<rparr>)) (interrupt_or_dispatch os nargs)
              else Some (Apply nargs vm)
         else Some (Bad_call 3 nargs 25 0 vm))"

definition op_big_call :: "vm \<Rightarrow> outcome option" where
  "op_big_call vm = call_val (code_two_bytes vm 1) vm"

definition op_move_args_and_call :: "vm \<Rightarrow> outcome option" where
  "op_move_args_and_call vm =
     (let nargs = code_byte vm 1; top = SstackS vm;
          (loc, m) = move_args top (ADDRESS_AFTER_HEADER (ScontS vm) + (- 8)) (top + sint (push_bit 2 nargs)) (vmem vm)
      in call_val nargs ((set_vmem m vm)\<lparr>SstackS := loc\<rparr>))"

definition op_apply :: "host \<Rightarrow> vm \<Rightarrow> outcome option" where
  "op_apply os vm =
     (let (list, vm1) = pop vm; nargs = code_two_bytes vm1 1
      in Option.bind (okay_argument_list (vmem vm1) list) (\<lambda>(okay, count).
           if okay then Some (Apply_list nargs list count vm1)
           else Option.bind (pop_args_GlistS os 25 (1 + nargs) (push list vm1)) (\<lambda>(args, vm2).
                  raise_exception 5 0 [SvalS vm2, args] vm2)))"

text \<open>The cdr before the last of a list that has two elements at least.\<close>

partial_function (option) penultimate_cdr :: "memory \<Rightarrow> long \<Rightarrow> long \<Rightarrow> long option" where
  "penultimate_cdr m list follower =
     (if list = SCHNULL then Some follower else penultimate_cdr m (cdr m list) (cdr m follower))"

declare penultimate_cdr.simps [code]

text \<open>
  The arguments of Scheme's \<open>apply\<close>: the last one is a list, on the stack or at the end of the
  list of the rest. The procedure is kept in a variable of the code alone while the arguments of
  an improper list are collected.
\<close>

definition finish_closed_apply :: "host \<Rightarrow> long \<Rightarrow> long \<Rightarrow> long \<Rightarrow> vm \<Rightarrow> outcome option" where
  "finish_closed_apply os proc list nstack vm =
     Option.bind (okay_argument_list (vmem vm) list) (\<lambda>(okay, count).
       if okay then Some (Apply_list nstack list count (vm\<lparr>SvalS := proc\<rparr>))
       else Option.bind (pop_args_GlistS os 25 (1 + nstack) (push list vm)) (\<lambda>(args, vm1).
              raise_exception 5 0 [proc, args] (vm1\<lparr>SstackS := SstackS vm1 + 4\<rparr>)))"

definition op_closed_apply :: "host \<Rightarrow> vm \<Rightarrow> outcome option" where
  "op_closed_apply os vm =
     (let (_, vm1) = pop vm; (count, vm2) = pop vm1; nstack = sar 2 count;
          proc = load (vmem vm2) (stack_cell vm2 nstack);
          (rest, vm3) = pop (poke (stack_cell vm2 nstack) 1 vm2)
      in if rest = SCHNULL then let (list, vm4) = pop vm3 in finish_closed_apply os proc list (- 2 + nstack) vm4
         else if cdr (vmem vm3) rest = SCHNULL
         then finish_closed_apply os proc (car (vmem vm3) rest) (- 1 + nstack) vm3
         else Option.bind (penultimate_cdr (vmem vm3) (cdr (vmem vm3) (cdr (vmem vm3) rest)) rest) (\<lambda>p.
                let list = car (vmem vm3) (cdr (vmem vm3) p)
                in finish_closed_apply os proc rest (- 1 + nstack) (poke (ADDRESS_AFTER_HEADER p + 4) list vm3)))"

definition op_call_with_values :: "vm \<Rightarrow> outcome option" where
  "op_call_with_values vm =
     (let (consumer, vm1) = pop vm in call_val 1 ((push (SvalS vm1) vm1)\<lparr>SvalS := consumer\<rparr>))"

subsection \<open>Returns\<close>

definition op_return :: "vm \<Rightarrow> outcome option" where
  "op_return vm = Some (Dispatch (pop_continuationB vm))"

definition op_values :: "host \<Rightarrow> vm \<Rightarrow> outcome option" where
  "op_values os vm = return_values os (code_two_bytes vm 1) 25 0 vm"

definition op_closed_values :: "host \<Rightarrow> vm \<Rightarrow> outcome option" where
  "op_closed_values os vm =
     (let (count, vm1) = pop vm; (stack_count, vm2) = pop vm1; nstack = sar 2 stack_count; (rest, vm3) = pop vm2
      in return_values os nstack rest (sar 2 count - nstack) vm3)"

definition op_ignore_values :: "vm \<Rightarrow> outcome option" where
  "op_ignore_values vm = Some (next_op 1 vm)"

subsection \<open>Jumps\<close>

definition op_goto_template :: "vm \<Rightarrow> outcome option" where
  "op_goto_template vm =
     (let tem = literal vm (code_two_bytes vm 1)
      in Some (Dispatch (vm\<lparr>StemplateS := tem, Scode_pointerS := template_code (vmem vm) tem\<rparr>)))"

text \<open>
  A template is called instead of a procedure, without arguments. The number of arguments for an
  interrupt is the third byte after the code pointer, which is in the new template by then.
\<close>

definition enter_template :: "host \<Rightarrow> vm \<Rightarrow> outcome option" where
  "enter_template os vm =
     (let tem = literal vm (code_two_bytes vm 1);
          vm1 = vm\<lparr>StemplateS := tem, Scode_pointerS := template_code (vmem vm) tem + 2\<rparr>
      in Option.bind (poll_interrupts os vm1) (\<lambda>(interrupted, vm2).
           Some (if interrupted then Interrupt (code_byte vm2 3) vm2 else Dispatch vm2)))"

definition op_call_template :: "host \<Rightarrow> vm \<Rightarrow> outcome option" where
  "op_call_template os vm =
     (let tem = literal vm (code_two_bytes vm 1);
          code = load (vmem vm) (ADDRESS_AFTER_HEADER tem);
          len = header_length (stob_header (vmem vm) code)
      in if byte_at (vmem vm) code 1 = 0
         then Option.bind (make_stack_room os (\<lambda>vm. \<not> SstackS vm < Sstack_limitS vm) vm) (enter_template os)
         else if byte_at (vmem vm) code 1 = 66 \<and> byte_at (vmem vm) code (- 3 + len) = 0
         then let space = two_bytes_at (vmem vm) code (- 2 + len)
              in Option.bind (make_stack_room os (\<lambda>vm. stack_room vm space) vm) (enter_template os)
         else map_option (\<lambda>vm1. Raise 1 (push (literal vm1 (code_two_bytes vm1 1)) vm1))
                (push_exception_continuationB 5 4 vm))"

definition op_jump_if_false :: "vm \<Rightarrow> outcome option" where
  "op_jump_if_false vm = Some (next_op (if SvalS vm = 1 then sint (code_two_bytes vm 1) else 3) vm)"

definition op_jump :: "vm \<Rightarrow> outcome option" where
  "op_jump vm = Some (next_op (sint (code_two_bytes vm 1)) vm)"

definition op_computed_goto :: "vm \<Rightarrow> outcome option" where
  "op_computed_goto vm =
     (let highest = code_byte vm 1; val = sar 2 (SvalS vm)
      in if FIXNUMP (SvalS vm)
         then Some (next_op (if val <s 0 \<or> \<not> val <s highest then sint (2 + push_bit 1 highest)
                             else sint (code_two_bytes vm (sint (2 + push_bit 1 val)))) vm)
         else raise_exception 5 0 [SvalS vm] vm)"

subsection \<open>Operators with any number of arguments\<close>

text \<open>
  The closed versions of the binary operators: the number of arguments on the stack is on top, the
  list of the others below it.
\<close>

definition op_binary_reduce1 :: "vm \<Rightarrow> outcome option" where
  "op_binary_reduce1 vm =
     (let s = SstackS vm; nstack = sar 2 (load (vmem vm) (s + 4))
      in if nstack = 0
         then let arg0 = load (vmem vm) (s + 12); rest = load (vmem vm) (s + 8); vm1 = push arg0 vm
              in Some (goto_value 1 (car (vmem vm1) rest) vm1)
         else let arg1 = load (vmem vm) (s + (4 + sint (push_bit 2 nstack)));
                  arg0 = load (vmem vm) (s + (8 + sint (push_bit 2 nstack)));
                  vm1 = poke (s + (8 + sint (push_bit 2 nstack))) 1 vm;
                  vm2 = poke (s + 4) (- 4 + push_bit 2 nstack) vm1
              in Some (goto_value 1 arg1 (push arg0 vm2)))"

text \<open>The result goes back to the arguments as long as there are more of them; then the operator is done again.\<close>

definition op_binary_reduce2 :: "vm \<Rightarrow> outcome option" where
  "op_binary_reduce2 vm =
     (let s = SstackS vm; nstack = sar 2 (load (vmem vm) (s + 4)); rest = load (vmem vm) (s + 8)
      in if nstack = 0
         then if cdr (vmem vm) rest = SCHNULL then Some (next_op 1 vm)
              else Some (next_op (- 2) (poke (s + 12) (SvalS vm) (poke (s + 8) (cdr (vmem vm) rest) vm)))
         else if nstack = 1
         then if rest = SCHNULL then Some (next_op 1 vm)
              else Some (next_op (- 2) (poke (s + 12) (SvalS vm) (poke (s + 4) 0 vm)))
         else Some (next_op (- 2) (poke (s + (8 + sint (push_bit 2 nstack))) (SvalS vm) vm)))"

definition op_binary_comparison_reduce2 :: "vm \<Rightarrow> outcome option" where
  "op_binary_comparison_reduce2 vm =
     (let s = SstackS vm; nstack = sar 2 (load (vmem vm) (s + 4)); rest = load (vmem vm) (s + 8)
      in if SvalS vm = 1 then Some (next_op 1 vm)
         else if nstack = 0
         then if cdr (vmem vm) rest = SCHNULL then Some (next_op 1 vm)
              else let vm1 = poke (s + 8) (cdr (vmem vm) rest) vm
                   in Some (next_op (- 2) (poke (s + 12) (car (vmem vm1) rest) vm1))
         else if nstack = 1
         then if rest = SCHNULL then Some (next_op 1 vm) else Some (next_op (- 2) (poke (s + 4) 0 vm))
         else Some (next_op (- 2) vm))"

end
