(* ===== verification/Vm_Arith.thy ===== *)
theory Vm_Arith
  imports Vm_Continuations Longs
begin

text \<open>
  The byte codes on numbers and characters (43 to 91 of \<open>restart\<close> in
  \<open>src/c/scheme48vm.c\<close>). The machine itself computes with fixnums only: anything else, and a
  result that is no fixnum, raises an exception whose handler does the rest. Exception 5 is a
  wrong type of argument, 6 an overflow; the arguments are pushed for the handler.
\<close>

subsection \<open>Shared endings\<close>

definition return_number :: "long \<Rightarrow> vm \<Rightarrow> outcome option" where
  "return_number n vm = Some (goto_value 1 (push_bit 2 n) vm)"

definition return_boolean :: "bool \<Rightarrow> vm \<Rightarrow> outcome option" where
  "return_boolean b vm = Some (goto_value 1 (if b then 5 else 1) vm)"

text \<open>Two arguments, the first on the stack, the second in \<open>SvalS\<close>, both fixnums.\<close>

definition with_fixnums :: "(long \<Rightarrow> vm \<Rightarrow> outcome option) \<Rightarrow> vm \<Rightarrow> outcome option" where
  "with_fixnums f vm =
     (let (arg2, vm1) = pop vm
      in if 3 AND (arg2 OR SvalS vm1) = 0 then f arg2 vm1
         else raise_exception 5 1 [arg2, SvalS vm1] vm1)"

definition with_fixnum :: "(vm \<Rightarrow> outcome option) \<Rightarrow> vm \<Rightarrow> outcome option" where
  "with_fixnum f vm = (if FIXNUMP (SvalS vm) then f vm else raise_exception 5 1 [SvalS vm] vm)"

definition return_checked :: "long \<Rightarrow> long \<Rightarrow> vm \<Rightarrow> outcome option" where
  "return_checked z arg2 vm =
     (if 536870911 <s z then raise_exception 6 1 [arg2, SvalS vm] vm
      else if z <s - 536870912 then raise_exception 6 1 [arg2, SvalS vm] vm
      else return_number z vm)"

subsection \<open>Predicates\<close>

definition op_eq :: "vm \<Rightarrow> outcome option" where
  "op_eq vm = (let (arg2, vm1) = pop vm in return_boolean (arg2 = SvalS vm1) vm1)"

definition op_number :: "vm \<Rightarrow> outcome option" where
  "op_number vm =
     (let x = SvalS vm; m = vmem vm in
      return_boolean (FIXNUMP x \<or> stob_has_type STOBTYPE_BIGNUM m x \<or> stob_has_type STOBTYPE_RATNUM m x
        \<or> stob_has_type STOBTYPE_DOUBLE m x \<or> stob_has_type STOBTYPE_EXTENDED_NUMBER m x) vm)"

text \<open>An extended number is left to the handler.\<close>

definition op_integer :: "vm \<Rightarrow> outcome option" where
  "op_integer vm =
     (let x = SvalS vm; m = vmem vm in
      if FIXNUMP x \<or> stob_has_type STOBTYPE_BIGNUM m x then return_boolean True vm
      else if stob_has_type STOBTYPE_EXTENDED_NUMBER m x then raise_exception 5 1 [x] vm
      else return_boolean False vm)"

definition op_real_kind :: "vm \<Rightarrow> outcome option" where
  "op_real_kind vm =
     (let x = SvalS vm; m = vmem vm in
      if FIXNUMP x \<or> stob_has_type STOBTYPE_BIGNUM m x \<or> stob_has_type STOBTYPE_RATNUM m x
         \<or> stob_has_type STOBTYPE_DOUBLE m x then return_boolean True vm
      else if stob_has_type STOBTYPE_EXTENDED_NUMBER m x then raise_exception 5 1 [x] vm
      else return_boolean False vm)"

text \<open>The three byte codes have the same code.\<close>

definition op_rational :: "vm \<Rightarrow> outcome option" where "op_rational vm = op_real_kind vm"
definition op_real :: "vm \<Rightarrow> outcome option" where "op_real vm = op_real_kind vm"
definition op_complex :: "vm \<Rightarrow> outcome option" where "op_complex vm = op_real_kind vm"

definition op_exact :: "vm \<Rightarrow> outcome option" where
  "op_exact vm = with_fixnum (return_boolean True) vm"

subsection \<open>Sums, products, quotients\<close>

definition op_add :: "vm \<Rightarrow> outcome option" where
  "op_add = with_fixnums (\<lambda>arg2 vm. return_checked (sar 2 arg2 + sar 2 (SvalS vm)) arg2 vm)"

definition op_subtract :: "vm \<Rightarrow> outcome option" where
  "op_subtract = with_fixnums (\<lambda>arg2 vm. return_checked (sar 2 arg2 - sar 2 (SvalS vm)) arg2 vm)"

definition long_abs :: "long \<Rightarrow> long" where
  "long_abs a = (if a <s 0 then 0 - a else a)"

text \<open>The magnitudes are multiplied by halves of 16 bits: the high halves, the low product, the middle one, and the sum.\<close>

definition multiply_halves :: "long \<Rightarrow> long \<Rightarrow> long \<times> long \<times> long \<times> long \<times> long" where
  "multiply_halves a b =
     (let lo_a = 65535 AND a; lo_b = 65535 AND b;
          hi_a = 65535 AND sar 16 a; hi_b = 65535 AND sar 16 b;
          lo_c = lo_a * lo_b;
          mid_c = lo_a * hi_b + lo_b * hi_a
      in (hi_a, hi_b, lo_c, mid_c, lo_c + push_bit 16 mid_c))"

definition multiply_result :: "bool \<Rightarrow> long \<Rightarrow> long \<Rightarrow> vm \<Rightarrow> outcome option" where
  "multiply_result positive c arg2 vm =
     (if positive
      then if 536870911 <s c then raise_exception 6 1 [arg2, SvalS vm] vm else return_number c vm
      else if 536870912 <s c then raise_exception 6 1 [arg2, SvalS vm] vm else return_number (0 - c) vm)"

definition multiply_checked :: "long \<Rightarrow> long \<Rightarrow> long \<Rightarrow> vm \<Rightarrow> outcome option" where
  "multiply_checked a b arg2 vm =
     (let (hi_a, hi_b, lo_c, mid_c, c) = multiply_halves (long_abs a) (long_abs b)
      in if 0 <s hi_a \<and> 0 <s hi_b then raise_exception 6 1 [arg2, SvalS vm] vm
         else if 536870911 <s lo_c then raise_exception 6 1 [arg2, SvalS vm] vm
         else if lo_c <s 0 then raise_exception 6 1 [arg2, SvalS vm] vm
         else if 8192 <s mid_c then raise_exception 6 1 [arg2, SvalS vm] vm
         else multiply_result (a <s 0 \<longleftrightarrow> b <s 0) c arg2 vm)"

definition op_multiply :: "vm \<Rightarrow> outcome option" where
  "op_multiply = with_fixnums (\<lambda>arg2 vm. multiply_checked (sar 2 arg2) (sar 2 (SvalS vm)) arg2 vm)"

text \<open>\<open>None\<close> is a quotient that is no fixnum.\<close>

definition quotient_carefully :: "long \<Rightarrow> long \<Rightarrow> long option" where
  "quotient_carefully a b =
     (let c = long_sdiv (long_abs a) (long_abs b)
      in if a <s 0 \<longleftrightarrow> b <s 0 then if 536870911 <s c then None else Some c
         else Some (0 - c))"

definition remainder_carefully :: "long \<Rightarrow> long \<Rightarrow> long" where
  "remainder_carefully a b =
     (let c = long_smod (long_abs a) (long_abs b) in if a <s 0 then 0 - c else c)"

definition op_quotient :: "vm \<Rightarrow> outcome option" where
  "op_quotient = with_fixnums (\<lambda>arg2 vm.
     let x = SvalS vm in
     if x = 0 then raise_exception 6 1 [arg2, x] vm
     else case quotient_carefully (sar 2 arg2) (sar 2 x) of
            None \<Rightarrow> raise_exception 6 1 [arg2, x] vm
          | Some c \<Rightarrow> return_number c vm)"

definition op_remainder :: "vm \<Rightarrow> outcome option" where
  "op_remainder = with_fixnums (\<lambda>arg2 vm.
     let x = SvalS vm in
     if x = 0 then raise_exception 6 1 [arg2, x] vm
     else return_number (remainder_carefully (sar 2 arg2) (sar 2 x)) vm)"

text \<open>Division gives a quotient only when nothing remains. The code tests \<open>y\<close> against zero again after the quotient.\<close>

definition divide_exactly :: "long \<Rightarrow> long \<Rightarrow> vm \<Rightarrow> outcome option" where
  "divide_exactly q arg2 vm =
     (let y = SvalS vm in
      if y = 0 then raise_exception 6 1 [arg2, y] vm
      else if push_bit 2 (remainder_carefully (sar 2 arg2) (sar 2 y)) = 0 then Some (goto_value 1 q vm)
      else raise_exception 6 1 [arg2, y] vm)"

definition op_divide :: "vm \<Rightarrow> outcome option" where
  "op_divide = with_fixnums (\<lambda>arg2 vm.
     let y = SvalS vm in
     if y = 0 then raise_exception 6 1 [arg2, y] vm
     else case quotient_carefully (sar 2 arg2) (sar 2 y) of
            None \<Rightarrow> raise_exception 6 1 [arg2, y] vm
          | Some c \<Rightarrow> divide_exactly (push_bit 2 c) arg2 vm)"

subsection \<open>Comparisons\<close>

definition compare_fixnums :: "(long \<Rightarrow> long \<Rightarrow> bool) \<Rightarrow> vm \<Rightarrow> outcome option" where
  "compare_fixnums p = with_fixnums (\<lambda>arg2 vm. return_boolean (p arg2 (SvalS vm)) vm)"

definition op_equal :: "vm \<Rightarrow> outcome option" where
  "op_equal = compare_fixnums (\<lambda>arg2 x. arg2 = x)"
definition op_less :: "vm \<Rightarrow> outcome option" where
  "op_less = compare_fixnums (\<lambda>arg2 x. arg2 <s x)"
definition op_greater :: "vm \<Rightarrow> outcome option" where
  "op_greater = compare_fixnums (\<lambda>arg2 x. x <s arg2)"
definition op_less_equal :: "vm \<Rightarrow> outcome option" where
  "op_less_equal = compare_fixnums (\<lambda>arg2 x. \<not> x <s arg2)"
definition op_greater_equal :: "vm \<Rightarrow> outcome option" where
  "op_greater_equal = compare_fixnums (\<lambda>arg2 x. \<not> arg2 <s x)"

subsection \<open>Functions of one number\<close>

text \<open>Inexact arithmetic is left to the handler: exception 6 for a fixnum, 5 for anything else.\<close>

definition op_inexact :: "vm \<Rightarrow> outcome option" where
  "op_inexact = with_fixnum (\<lambda>vm. raise_exception 6 1 [SvalS vm] vm)"
definition op_transcendental :: "vm \<Rightarrow> outcome option" where
  "op_transcendental = with_fixnum (\<lambda>vm. raise_exception 6 1 [SvalS vm] vm)"
definition op_binary_inexact :: "vm \<Rightarrow> outcome option" where
  "op_binary_inexact = with_fixnums (\<lambda>arg2 vm. raise_exception 6 1 [arg2, SvalS vm] vm)"

definition op_floor :: "vm \<Rightarrow> outcome option" where
  "op_floor = with_fixnum (\<lambda>vm. Some (goto_value 1 (SvalS vm) vm))"
definition op_numerator :: "vm \<Rightarrow> outcome option" where
  "op_numerator = with_fixnum (\<lambda>vm. Some (goto_value 1 (SvalS vm) vm))"
definition op_denominator :: "vm \<Rightarrow> outcome option" where
  "op_denominator = with_fixnum (\<lambda>vm. Some (goto_value 1 4 vm))"
definition op_real_part :: "vm \<Rightarrow> outcome option" where
  "op_real_part = with_fixnum (\<lambda>vm. Some (goto_value 1 (SvalS vm) vm))"
definition op_imag_part :: "vm \<Rightarrow> outcome option" where
  "op_imag_part = with_fixnum (\<lambda>vm. Some (goto_value 1 0 vm))"
definition op_angle :: "vm \<Rightarrow> outcome option" where
  "op_angle = with_fixnum (\<lambda>vm. if SvalS vm <s 0 then raise_exception 6 1 [SvalS vm] vm
     else Some (goto_value 1 0 vm))"

text \<open>The magnitude is taken of the descriptor, not of the number it stands for.\<close>

definition op_magnitude :: "vm \<Rightarrow> outcome option" where
  "op_magnitude = with_fixnum (\<lambda>vm.
     let r = long_abs (SvalS vm) in
     if 536870911 <s r then raise_exception 6 1 [SvalS vm] vm else return_number r vm)"

subsection \<open>Bits\<close>

definition op_bitwise_not :: "vm \<Rightarrow> outcome option" where
  "op_bitwise_not = with_fixnum (\<lambda>vm. return_number (NOT (sar 2 (SvalS vm))) vm)"
definition op_bitwise_and :: "vm \<Rightarrow> outcome option" where
  "op_bitwise_and = with_fixnums (\<lambda>arg2 vm. return_number (sar 2 arg2 AND sar 2 (SvalS vm)) vm)"
definition op_bitwise_ior :: "vm \<Rightarrow> outcome option" where
  "op_bitwise_ior = with_fixnums (\<lambda>arg2 vm. return_number (sar 2 arg2 OR sar 2 (SvalS vm)) vm)"
definition op_bitwise_xor :: "vm \<Rightarrow> outcome option" where
  "op_bitwise_xor = with_fixnums (\<lambda>arg2 vm. return_number (sar 2 arg2 XOR sar 2 (SvalS vm)) vm)"

text \<open>The macros of \<open>src/c/prescheme.h\<close>; C leaves a shift by 32 or more undefined.\<close>

definition PS_SHIFT_RIGHT :: "long \<Rightarrow> long \<Rightarrow> long" where
  "PS_SHIFT_RIGHT x y = (if 32 \<le>s y then if x <s 0 then - 1 else 0 else sar (unat y) x)"
definition PS_SHIFT_LEFT :: "long \<Rightarrow> long \<Rightarrow> long" where
  "PS_SHIFT_LEFT x y = (if 32 \<le>s y then 0 else push_bit (unat y) x)"

definition op_arithmetic_shift :: "vm \<Rightarrow> outcome option" where
  "op_arithmetic_shift = with_fixnums (\<lambda>arg2 vm.
     let x = SvalS vm; value = sar 2 arg2; count = sar 2 x in
     if count <s 0 then return_number (PS_SHIFT_RIGHT value (0 - count)) vm
     else let result = sar 2 (push_bit 2 (PS_SHIFT_LEFT value count))
          in if value = PS_SHIFT_RIGHT result count
             then if value <s 0
                  then if result <s 0 then return_number result vm else raise_exception 6 1 [arg2, x] vm
                  else if result <s 0 then raise_exception 6 1 [arg2, x] vm else return_number result vm
             else raise_exception 6 1 [arg2, x] vm)"

subsection \<open>Characters and the end-of-file object\<close>

definition op_char :: "vm \<Rightarrow> outcome option" where
  "op_char vm = return_boolean (CHARP (SvalS vm)) vm"

definition compare_chars :: "(long \<Rightarrow> long \<Rightarrow> bool) \<Rightarrow> vm \<Rightarrow> outcome option" where
  "compare_chars p vm =
     (let (arg2, vm1) = pop vm
      in if CHARP arg2 \<and> CHARP (SvalS vm1) then return_boolean (p arg2 (SvalS vm1)) vm1
         else raise_exception 5 1 [arg2, SvalS vm1] vm1)"

definition op_char_equal :: "vm \<Rightarrow> outcome option" where
  "op_char_equal = compare_chars (\<lambda>arg2 x. arg2 = x)"
definition op_char_less :: "vm \<Rightarrow> outcome option" where
  "op_char_less = compare_chars (\<lambda>arg2 x. arg2 <s x)"

definition op_char_to_ascii :: "vm \<Rightarrow> outcome option" where
  "op_char_to_ascii vm =
     (if CHARP (SvalS vm) then return_number (sar 8 (SvalS vm)) vm
      else raise_exception 5 1 [SvalS vm] vm)"

definition op_ascii_to_char :: "vm \<Rightarrow> outcome option" where
  "op_ascii_to_char = with_fixnum (\<lambda>vm.
     let x = sar 2 (SvalS vm) in
     if 255 <s x then raise_exception 5 1 [push_bit 2 x] vm
     else if x <s 0 then raise_exception 5 1 [push_bit 2 x] vm
     else Some (goto_value 1 (9 + push_bit 8 x) vm))"

definition op_eof_object_p :: "vm \<Rightarrow> outcome option" where
  "op_eof_object_p vm = return_boolean (SvalS vm = 21) vm"

end
