(* ===== verification/Vm_Misc.thy ===== *)
theory Vm_Misc
  imports Vm_Control Vm_Arith Fd_Io
begin

text \<open>
  Other byte codes of \<open>restart\<close> (\<open>src/c/scheme48vm.c\<close>): constants, the registers of the machine,
  interrupts and time, collection and searches of the heap, foreign procedures, proxies,
  symbols and copying of bytes.
\<close>

subsection \<open>Constants and registers\<close>

definition op_unassigned :: "vm \<Rightarrow> outcome option" where
  "op_unassigned vm = Some (goto_value 1 529 vm)"
definition op_unspecific :: "vm \<Rightarrow> outcome option" where
  "op_unspecific vm = Some (goto_value 1 13 vm)"
definition op_trap :: "vm \<Rightarrow> outcome option" where
  "op_trap vm = raise_exception 16 1 [SvalS vm] vm"
definition op_false :: "vm \<Rightarrow> outcome option" where
  "op_false vm = Some (goto_value 1 1 vm)"
definition op_eof_object :: "vm \<Rightarrow> outcome option" where
  "op_eof_object vm = Some (goto_value 1 21 vm)"

definition op_current_thread :: "vm \<Rightarrow> outcome option" where
  "op_current_thread vm = Some (goto_value 1 (Scurrent_threadS vm) vm)"
definition op_set_current_thread :: "vm \<Rightarrow> outcome option" where
  "op_set_current_thread vm = Some (goto_value 1 13 (vm\<lparr>Scurrent_threadS := SvalS vm\<rparr>))"
definition op_session_data :: "vm \<Rightarrow> outcome option" where
  "op_session_data vm = Some (goto_value 1 (Ssession_dataS vm) vm)"
definition op_set_session_data :: "vm \<Rightarrow> outcome option" where
  "op_set_session_data vm = Some (goto_value 1 13 (vm\<lparr>Ssession_dataS := SvalS vm\<rparr>))"

text \<open>The tables of handlers must be vectors with an element for every opcode, and for every interrupt.\<close>

definition op_set_exception_handlers :: "vm \<Rightarrow> outcome option" where
  "op_set_exception_handlers vm =
     (let x = SvalS vm in
      if stob_of_type (vmem vm) x 2 \<and> \<not> cell_count (vmem vm) x <s 163
      then Some (goto_value 1 (Sexception_handlersS vm) (vm\<lparr>Sexception_handlersS := x\<rparr>))
      else raise_exception 5 1 [x] vm)"

definition op_set_interrupt_handlers :: "vm \<Rightarrow> outcome option" where
  "op_set_interrupt_handlers vm =
     (let x = SvalS vm in
      if stob_of_type (vmem vm) x 2 \<and> \<not> cell_count (vmem vm) x <s 4
      then Some (goto_value 1 (Sinterrupt_handlersS vm) (vm\<lparr>Sinterrupt_handlersS := x\<rparr>))
      else raise_exception 5 1 [x] vm)"

subsection \<open>Returns from handlers\<close>

text \<open>An exception returns after the instruction that raised it, an interrupt where it was.\<close>

definition op_return_from_exception :: "vm \<Rightarrow> outcome option" where
  "op_return_from_exception vm =
     (let (pc, vm1) = pop vm; (template, vm2) = pop vm1; (_, vm3) = pop vm2; (n, vm4) = pop vm3
      in Some (Dispatch (vm4\<lparr>StemplateS := template, Scode_pointerS :=
           template_code (vmem vm4) template + sint (sar 2 (push_bit 2 (sar 2 pc + sar 2 n)))\<rparr>)))"

definition op_set_enabled_interrupts :: "vm \<Rightarrow> outcome option" where
  "op_set_enabled_interrupts vm =
     Some (goto_value 1 (push_bit 2 (Senabled_interruptsS vm))
       (set_interrupt_flag (vm\<lparr>Senabled_interruptsS := sar 2 (SvalS vm)\<rparr>)))"

definition op_return_from_interrupt :: "vm \<Rightarrow> outcome option" where
  "op_return_from_interrupt vm =
     (let (mask, vm1) = pop vm;
          (pc, vm2) = pop (set_interrupt_flag (vm1\<lparr>Senabled_interruptsS := sar 2 mask\<rparr>));
          (tem, vm3) = pop vm2; (v, vm4) = pop vm3
      in Some (Dispatch (vm4\<lparr>StemplateS := tem, SvalS := v,
           Scode_pointerS := template_code (vmem vm4) tem + sint (sar 2 pc)\<rparr>)))"

subsection \<open>Alarms, waiting and time\<close>

definition op_schedule_interrupt :: "vm \<Rightarrow> outcome option" where
  "op_schedule_interrupt vm =
     (if FIXNUMP (SvalS vm)
      then let vm1 = set_interrupt_flag (vm\<lparr>Spending_interruptsS := (- 2) AND Spending_interruptsS vm\<rparr>);
               (old, ev) = schedule_alarm_interrupt (sar 2 (SvalS vm)) (vevents vm1)
           in Some (goto_value 1 (push_bit 2 old) (vm1\<lparr>vevents := ev\<rparr>))
      else raise_exception 5 1 [SvalS vm] vm)"

text \<open>
  The machine waits only when no interrupt is to be handled and none is pending, enabled or not.
  The answer of \<open>setitimer\<close> and the clocks are the system's.
\<close>

definition op_wait :: "bool \<times> bool \<Rightarrow> host \<Rightarrow> vm \<Rightarrow> outcome option" where
  "op_wait setitimer_ok os vm =
     (let (arg2, vm1) = pop vm; x = SvalS vm1
      in if FIXNUMP arg2 \<and> (x = 1 \<or> x = 5)
         then Option.bind (poll_interrupts os vm1) (\<lambda>(interrupted, vm2).
           if interrupted \<or> Spending_interruptsS vm2 \<noteq> 0 then Some (goto_value 1 13 vm2)
           else Option.bind (wait_for_event setitimer_ok (select_fds os) (sar 2 arg2) (x \<noteq> 1) (vevents vm2)) (\<lambda>r.
             case r of Inl _ \<Rightarrow> None
             | Inr (_, ev) \<Rightarrow> Some (goto_value 1 13 (vm2\<lparr>vevents := ev\<rparr>))))
         else raise_exception 5 1 [arg2, x] vm1)"

definition return_time :: "long \<Rightarrow> long \<times> long \<Rightarrow> vm \<Rightarrow> outcome option" where
  "return_time option time vm =
     (case time of (seconds, mseconds) \<Rightarrow>
        if 536869 <s seconds
        then raise_exception 6 1 [push_bit 2 option, push_bit 2 seconds, push_bit 2 mseconds] vm
        else Some (goto_value 1 (push_bit 2 (1000 * seconds + mseconds)) vm))"

definition op_time :: "long \<times> long \<Rightarrow> long \<times> long \<Rightarrow> vm \<Rightarrow> outcome option" where
  "op_time run real vm =
     (let (arg2, vm1) = pop vm; x = SvalS vm1; option = sar 2 arg2
      in if FIXNUMP arg2
         then if option = 2 then Some (goto_value 1 (push_bit 2 (CHEAP_TIME (vevents vm1))) vm1)
              else if option = 0 then return_time option run vm1
              else if option = 1 then return_time option real vm1
              else raise_exception 18 1 [push_bit 2 option, x] vm1
         else raise_exception 5 1 [arg2, x] vm1)"

subsection \<open>Collection and searches\<close>

definition op_collect :: "host \<Rightarrow> vm \<Rightarrow> outcome option" where
  "op_collect os vm =
     map_option (\<lambda>(_, vm1). next_op 1 vm1) (collect_saving_temp os 0 (vm\<lparr>SvalS := 13\<rparr>))"

definition op_add_finalizer :: "host \<Rightarrow> vm \<Rightarrow> outcome option" where
  "op_add_finalizer os vm =
     Option.bind (need_space os 6 0 vm) (\<lambda>(_, vm1).
       let (thing, vm2) = pop vm1; proc = SvalS vm2
       in if STOBP thing \<and> closureP (vmem vm2) proc
          then let (entry, vm3) = cons thing proc vm2; (alist, vm4) = cons entry (Sfinalizer_alistS vm3) vm3
               in Some (goto_value 1 13 (vm4\<lparr>Sfinalizer_alistS := alist\<rparr>))
          else raise_exception 5 1 [thing, proc] vm2)"

text \<open>
  The order of the bytes of the machine: a vector of four cells, its first cell written as a whole
  and then read byte by byte, the first byte last.
\<close>

definition byte_order_map :: long where
  "byte_order_map = fold (\<lambda>i map. map OR PS_SHIFT_LEFT i (push_bit 3 i)) [0, 1, 2, 3] 0"

definition make_byte_order :: "vm \<Rightarrow> long \<times> vm" where
  "make_byte_order vm =
     (let (addr, h) = allocate_space 2 20 0 (vheap vm);
          x = stob_at (addr + 4);
          a = ADDRESS_AFTER_HEADER x;
          m1 = Memory.store (Memory.store (mem h) addr 4106) a byte_order_map;
          m2 = fold (\<lambda>i m. Memory.store m (a + 4 * i) (push_bit 2 (ucast (m (a + i))))) [1, 2, 3] m1;
          m3 = Memory.store m2 a (push_bit 2 (ucast (m2 a)));
          hd = load m3 (a + (- 4))
      in (x, vm\<lparr>vheap := h\<lparr>mem := if 128 AND hd = 0 then Memory.store m3 (a + (- 4)) (128 OR hd) else m3\<rparr>\<rparr>))"

definition op_memory_status :: "host \<Rightarrow> vm \<Rightarrow> outcome option" where
  "op_memory_status os vm =
     (let (arg2, vm1) = pop vm; x = SvalS vm1; key = sar 2 arg2; h = vheap vm1
      in if \<not> FIXNUMP arg2 then raise_exception 5 1 [arg2, x] vm1
         else if key = 5 then Some (goto_value 1 ((- 4) AND x) vm1)
         else if key = 0 then Some (goto_value 1 (push_bit 2 (available h)) vm1)
         else if key = 1 then Some (goto_value 1 (cells_up (heap_size h)) vm1)
         else if key = 2 then Some (goto_value 1 (push_bit 2 (word_of_int (Sstack_endS vm1 - Sstack_beginS vm1))) vm1)
         else if key = 3 then Some (goto_value 1 (push_bit 2 (gc_count h)) vm1)
         else if key = 4 then raise_exception 15 1 [push_bit 2 key, x] vm1
         else if key = 6
         then map_option (\<lambda>(_, vm2). let (v, vm3) = make_byte_order vm2 in goto_value 1 v vm3) (need_space os 5 0 vm1)
         else raise_exception 18 1 [push_bit 2 key, x] vm1)"

text \<open>A search that found no room is tried again once, after a collection. 1 is its failure.\<close>

definition search_heap ::
    "host \<Rightarrow> (long \<Rightarrow> heap \<Rightarrow> long \<times> heap) \<Rightarrow> long \<Rightarrow> vm \<Rightarrow> (long option \<times> long \<times> vm) option" where
  "search_heap os search temp vm =
     (let (v, h) = search temp (vheap vm); vm1 = vm\<lparr>vheap := h\<rparr>
      in if v \<noteq> 1 then Some (Some v, temp, vm1)
         else map_option (\<lambda>(temp1, vm2).
                let (v, h) = search temp1 (vheap vm2); vm3 = vm2\<lparr>vheap := h\<rparr>
                in (if v = 1 then None else Some v, temp1, vm3)) (collect_saving_temp os temp vm1))"

definition op_find_all :: "host \<Rightarrow> vm \<Rightarrow> outcome option" where
  "op_find_all os vm =
     (let type = sar 2 (SvalS vm)
      in if FIXNUMP (SvalS vm)
         then Option.bind (search_heap os (\<lambda>_. find_all type) 0 vm) (\<lambda>(v, _, vm1). case v of
                Some vector \<Rightarrow> Some (goto_value 1 vector vm1)
              | None \<Rightarrow> raise_exception 8 1 [push_bit 2 type] vm1)
         else raise_exception 5 1 [SvalS vm] vm)"

definition op_find_all_records :: "host \<Rightarrow> vm \<Rightarrow> outcome option" where
  "op_find_all_records os vm =
     Option.bind (search_heap os find_all_records (SvalS vm) vm) (\<lambda>(v, type, vm1). case v of
        Some vector \<Rightarrow> Some (goto_value 1 vector vm1)
      | None \<Rightarrow> raise_exception 8 1 [type] vm1)"

subsection \<open>Symbols\<close>

text \<open>The sum of the characters of a string, without the zero at its end.\<close>

definition string_sum :: "memory \<Rightarrow> long \<Rightarrow> long" where
  "string_sum m s = sum_list (map (\<lambda>b. ucast b)
     (load_bytes m (ADDRESS_AFTER_HEADER s) (nat (sint (- 1 + byte_count m s)))))"

definition bucket_address :: "memory \<Rightarrow> long \<Rightarrow> long \<Rightarrow> addr" where
  "bucket_address m table s =
     ADDRESS_AFTER_HEADER table + sint (push_bit 2 (string_sum m s AND (- 1 + cell_count m table)))"

definition same_string :: "memory \<Rightarrow> long \<Rightarrow> long \<Rightarrow> bool" where
  "same_string m s t \<longleftrightarrow> byte_count m s = byte_count m t \<and>
     load_bytes m (ADDRESS_AFTER_HEADER t) (unat (byte_count m s)) =
     load_bytes m (ADDRESS_AFTER_HEADER s) (unat (byte_count m s))"

text \<open>The symbol of that name in a bucket, or the end of it.\<close>

partial_function (option) find_symbol :: "memory \<Rightarrow> long \<Rightarrow> long \<Rightarrow> long option option" where
  "find_symbol m s bucket =
     (if bucket = SCHNULL then Some None
      else if same_string m s (cdr m (car m bucket)) then Some (Some (car m bucket))
      else find_symbol m s (cdr m bucket))"

declare find_symbol.simps [code]

definition op_intern :: "host \<Rightarrow> vm \<Rightarrow> outcome option" where
  "op_intern os vm =
     Option.bind (need_space os 6 0 vm) (\<lambda>(_, vm0).
       let (s, vm1) = pop vm0; table = SvalS vm1; m = vmem vm1;
           a = bucket_address m table s; bucket = load m a
       in if stob_of_type m s 19 \<and> stob_of_type m table 2
          then map_option (\<lambda>found. case found of
                 Some symbol \<Rightarrow> goto_value 1 symbol vm1
               | None \<Rightarrow>
                   let (addr, h) = allocate_space 1 12 0 (vheap vm1);
                       x = stob_at (addr + 4);
                       m1 = Memory.store (mem h) addr 2054;
                       m2 = Memory.store m1 (ADDRESS_AFTER_HEADER x) 1;
                       m3 = Memory.store m2 (ADDRESS_AFTER_HEADER x + 4) s;
                       (p, vm2) = cons x bucket (vm1\<lparr>vheap := h\<lparr>mem := m3\<rparr>\<rparr>)
                   in goto_value 1 x (poke a p vm2)) (find_symbol m s bucket)
          else raise_exception 5 1 [s, table] vm1)"

partial_function (option) memq_bucket :: "memory \<Rightarrow> long \<Rightarrow> long \<Rightarrow> bool option" where
  "memq_bucket m x bucket =
     (if bucket = SCHNULL then Some False
      else if x = car m bucket then Some True
      else memq_bucket m x (cdr m bucket))"

declare memq_bucket.simps [code]

definition add_symbol :: "long \<Rightarrow> long \<Rightarrow> vm \<Rightarrow> vm option" where
  "add_symbol table symbol vm =
     (let m = vmem vm; a = bucket_address m table (cdr m symbol); bucket = load m a
      in map_option (\<lambda>found. if found then vm
                       else let (p, vm1) = cons symbol bucket vm in poke a p vm1) (memq_bucket m symbol bucket))"

partial_function (option) clear_buckets :: "long \<Rightarrow> long \<Rightarrow> vm \<Rightarrow> vm option" where
  "clear_buckets table i vm =
     (if i = cell_count (vmem vm) table then Some vm
      else clear_buckets table (1 + i) (poke (ADDRESS_AFTER_HEADER table + sint (push_bit 2 i)) 25 vm))"

declare clear_buckets.simps [code]

text \<open>
  Without room for another pair the table is emptied, but for the first cell, which holds the
  symbols during the collection, and filled from the start.
\<close>

partial_function (option) add_symbols :: "host \<Rightarrow> long \<Rightarrow> long \<Rightarrow> long \<Rightarrow> bool \<Rightarrow> vm \<Rightarrow> outcome option" where
  "add_symbols os i table symbols first_try vm =
     (if i = cell_count (vmem vm) symbols then Some (goto_value 1 13 vm)
      else if availableP (vheap vm) 3
      then Option.bind (add_symbol table (load (vmem vm) (ADDRESS_AFTER_HEADER symbols + sint (push_bit 2 i))) vm)
             (\<lambda>vm1. add_symbols os (1 + i) table symbols first_try vm1)
      else if first_try
      then Option.bind (clear_buckets table 1 vm) (\<lambda>vm1.
           Option.bind (collect_saving_temp os table (poke (ADDRESS_AFTER_HEADER table) symbols vm1)) (\<lambda>(table1, vm2).
             let a = ADDRESS_AFTER_HEADER table1
             in add_symbols os 0 table1 (load (vmem vm2) a) False (poke a 25 vm2)))
      else raise_exception 8 1 [table] vm)"

declare add_symbols.simps [code]

definition op_find_all_symbols :: "host \<Rightarrow> vm \<Rightarrow> outcome option" where
  "op_find_all_symbols os vm =
     (if stob_of_type (vmem vm) (SvalS vm) 2
      then Option.bind (search_heap os (\<lambda>_. find_all 1) (SvalS vm) vm) (\<lambda>(v, table, vm1). case v of
             Some symbols \<Rightarrow> add_symbols os 0 table symbols True vm1
           | None \<Rightarrow> raise_exception 8 1 [table] vm1)
      else raise_exception 5 1 [SvalS vm] vm)"

subsection \<open>Strings and bytes\<close>

text \<open>The characters of a list, from its last place in the string to the first; the list is taken to be long enough.\<close>

function store_chars :: "addr \<Rightarrow> int \<Rightarrow> long \<Rightarrow> memory \<Rightarrow> memory" where
  "store_chars a i l m =
     (if i < 0 then m
      else let m1 = m(a + i := ucast (sar 8 (car m l))) in store_chars a (- 1 + i) (cdr m1 l) m1)"
  by pat_completeness auto
termination
  by (relation "measure (\<lambda>(_, i, _). nat (i + 1))") simp_all

declare store_chars.simps [simp del]

definition op_reverse_list_to_string :: "host \<Rightarrow> vm \<Rightarrow> outcome option" where
  "op_reverse_list_to_string os vm =
     Option.bind (need_space os (1 + sar 2 (4 + sar 2 (SvalS vm))) 0 vm) (\<lambda>(_, vm0).
       let (l, vm1) = pop vm0; n = sar 2 (SvalS vm1)
       in if \<not> FIXNUMP (SvalS vm1) then raise_exception 5 1 [l, SvalS vm1] vm1
          else if pairP (vmem vm1) l \<or> l = SCHNULL
          then let (addr, h) = allocate_space 19 (4 + (1 + n)) 0 (vheap vm1);
                   m1 = Memory.store (mem h) addr (78 + push_bit 8 (1 + n));
                   s = stob_at (addr + 4); a = ADDRESS_AFTER_HEADER s;
                   m2 = m1(a + sint n := 0)
               in Some (goto_value 1 s (vm1\<lparr>vheap := h\<lparr>mem := store_chars a (sint (- 1 + n)) l m2\<rparr>\<rparr>))
          else raise_exception 5 1 [l, push_bit 2 n] vm1)"

definition bytes_length :: "memory \<Rightarrow> long \<Rightarrow> long" where
  "bytes_length m x = (if stob_of_type m x 19 then - 1 + byte_count m x else byte_count m x)"

definition bytesP :: "memory \<Rightarrow> long \<Rightarrow> bool" where
  "bytesP m x \<longleftrightarrow> stob_of_type m x 19 \<or> stob_of_type m x 20"

text \<open>The type of the object copied from is tested twice, that of the object copied to not at all.\<close>

definition op_copy_bytes :: "vm \<Rightarrow> outcome option" where
  "op_copy_bytes vm =
     (let (to_index, vm1) = pop vm; (target, vm2) = pop vm1; (from_index, vm3) = pop vm2; (source, vm4) = pop vm3;
          i = sar 2 from_index; j = sar 2 to_index; n = sar 2 (SvalS vm4); m = vmem vm4
      in if 3 AND (from_index OR to_index OR SvalS vm4) \<noteq> 0
         then raise_exception 5 1 [source, from_index, target, to_index, SvalS vm4] vm4
         else if bytesP m source \<and> bytesP m source \<and> \<not> i <s 0 \<and> \<not> j <s 0 \<and> \<not> n <s 0
            \<and> \<not> bytes_length m source <s i + n \<and> \<not> bytes_length m target <s j + n
         then Some (goto_value 1 13 (set_vmem (memcpy m (ADDRESS_AFTER_HEADER target + sint j)
                (ADDRESS_AFTER_HEADER source + sint i) (uint n)) vm4))
         else raise_exception 5 1 [source, push_bit 2 i, target, push_bit 2 j, push_bit 2 n] vm4)"

text \<open>The object has cells for the arguments on the stack and in the list, of which the former are popped, the last first.\<close>

partial_function (option) store_list :: "long \<Rightarrow> long \<Rightarrow> long \<Rightarrow> vm \<Rightarrow> vm option" where
  "store_list new i l vm =
     (if l = SCHNULL then Some vm
      else let vm1 = poke (ADDRESS_AFTER_HEADER new + sint (push_bit 2 i)) (car (vmem vm) l) vm
           in store_list new (1 + i) (cdr (vmem vm1) l) vm1)"

declare store_list.simps [code]

definition op_closed_make_stored_object :: "host \<Rightarrow> vm \<Rightarrow> outcome option" where
  "op_closed_make_stored_object os vm =
     (let (count, vm1) = pop vm; len = push_bit 2 (sar 2 count)
      in Option.bind (need_space os (4 + len) 0 vm1) (\<lambda>(_, vm2).
         let (new, vm3) = make_stob (code_byte vm2 1) len vm2;
             (stack_count, vm4) = pop vm3; nstack = sar 2 stack_count; (rest, vm5) = pop vm4
         in map_option (goto_value 2 new)
              (store_list new nstack rest
                (fill_from_stack (ADDRESS_AFTER_HEADER new) (sint (- 1 + nstack)) vm5))))"

subsection \<open>Foreign procedures\<close>

text \<open>\<open>lookup_external_name\<close> gets the addresses of the name and of the place for the procedure's address.\<close>

definition op_external_lookup :: "(addr \<Rightarrow> addr \<Rightarrow> memory \<Rightarrow> bool \<times> memory) \<Rightarrow> vm \<Rightarrow> outcome option" where
  "op_external_lookup lookup vm =
     (let x = SvalS vm; m = vmem vm; a = ADDRESS_AFTER_HEADER x; value = load m (a + 4); name = load m a
      in if \<not> stob_of_type m x 13 then raise_exception 5 1 [x] vm
         else if stob_of_type m name 19 \<and> stob_of_type m value 20
         then let (found, m1) = lookup (ADDRESS_AFTER_HEADER name) (ADDRESS_AFTER_HEADER value) m
              in if found then Some (goto_value 1 13 (set_vmem m1 vm)) else raise_exception 19 1 [x] (set_vmem m1 vm)
         else raise_exception 19 1 [x] vm)"

partial_function (option) push_rest :: "long \<Rightarrow> vm \<Rightarrow> vm option" where
  "push_rest l vm =
     (if l = SCHNULL then Some vm
      else let vm1 = push (car (vmem vm) l) vm in push_rest (cdr (vmem vm1) l) vm1)"

declare push_rest.simps [code]

text \<open>All arguments go on the stack, the procedure below them.\<close>

definition op_external_call :: "vm \<Rightarrow> outcome option" where
  "op_external_call vm =
     (let (count, vm1) = pop vm; nargs = sar 2 count; (_, vm2) = pop vm1; (rest, vm3) = pop vm2
      in Option.bind (push_rest rest vm3) (\<lambda>vm4.
         let proc = load (vmem vm4) (SstackS vm4 + sint (push_bit 2 nargs))
         in if stob_of_type (vmem vm4) proc 13
            then Some (Leave 1 (vm4\<lparr>Sexternal_call_nargsS := - 1 + nargs, SvalS := proc,
                                    Scode_pointerS := Scode_pointerS vm4 + 1\<rparr>))
            else raise_exception 5 1 [proc] vm4))"

text \<open>The call itself, at the end of \<open>restart\<close>, and the way back into the machine.\<close>

definition leave :: "host \<Rightarrow> long \<Rightarrow> vm \<Rightarrow> outcome option" where
  "leave os option vm =
     (if option = 1
      then let code = load (vmem vm) (ADDRESS_AFTER_HEADER (load (vmem vm) (ADDRESS_AFTER_HEADER (SvalS vm) + 4)))
           in map_option (\<lambda>(v, vm1). Dispatch (vm1\<lparr>SvalS := v,
                  SstackS := SstackS vm1 + sint (0 - push_bit 2 (- 1 - Sexternal_call_nargsS vm1))\<rparr>))
                (foreign os code (Sexternal_call_nargsS vm) (SstackS vm + 4) vm)
      else None)"

text \<open>The result of \<open>extended_vm\<close> is 0, or tells which exception.\<close>

definition op_vm_extension :: "(long \<Rightarrow> long \<Rightarrow> vm \<Rightarrow> (long \<times> vm) option) \<Rightarrow> vm \<Rightarrow> outcome option" where
  "op_vm_extension extended_vm vm =
     (let (arg2, vm1) = pop vm; x = SvalS vm1; key = sar 2 arg2
      in if FIXNUMP arg2
         then Option.bind (extended_vm key x vm1) (\<lambda>(st, vm2).
                if st = 0 then Some (goto_value 1 (Sextension_valueS vm2) vm2)
                else raise_exception (if st = 1 then 20 else 21) 1 [push_bit 2 key, x] vm2)
         else raise_exception 5 1 [arg2, x] vm1)"

definition op_vm_return :: "vm \<Rightarrow> outcome option" where
  "op_vm_return vm =
     (let (arg2, vm1) = pop vm
      in if FIXNUMP arg2 then Some (Leave 0 vm1) else raise_exception 5 1 [arg2, SvalS vm1] vm1)"

subsection \<open>Channels and proxies\<close>

text \<open>A channel is taken out of the queue of those whose operation has completed.\<close>

partial_function (option) unlink_channel :: "long \<Rightarrow> long \<Rightarrow> long \<Rightarrow> vm \<Rightarrow> vm option option" where
  "unlink_channel channel ch prev vm =
     (if ch = 1 then Some None
      else if ch = channel
      then let vm1 = (if ch = Spending_channels_tailS vm then vm\<lparr>Spending_channels_tailS := prev\<rparr> else vm)
           in Some (Some (set_channel_next ch 1 (set_channel_next prev (channel_next (vmem vm1) ch) vm1)))
      else unlink_channel channel (channel_next (vmem vm) ch) ch vm)"

declare unlink_channel.simps [code]

text \<open>A channel that is not in the queue has its operation aborted.\<close>

definition op_channel_abort :: "vm \<Rightarrow> outcome option" where
  "op_channel_abort vm =
     (let channel = SvalS vm; head = Spending_channels_headS vm; a = ADDRESS_AFTER_HEADER channel;
          abort = map_option (\<lambda>(n, ev). goto_value 1 (push_bit 2 (word_of_int n)) (vm\<lparr>vevents := ev\<rparr>))
                    (ps_abort_fd_op (sint (sar 2 (load (vmem vm) (a + 8)))) (vevents vm))
      in if \<not> stob_of_type (vmem vm) channel 5 then raise_exception 5 1 [channel] vm
         else if head = 1 then abort
         else if channel = head
         then let vm1 = snd (dequeue_channel vm) in Some (goto_value 1 (load (vmem vm1) (a + 16)) vm1)
         else Option.bind (unlink_channel channel (channel_next (vmem vm) head) head vm) (\<lambda>r. case r of
                None \<Rightarrow> abort
              | Some vm1 \<Rightarrow> Some (goto_value 1 (load (vmem vm1) (a + 16)) vm1)))"

definition op_proxy_has_local_value :: "vm \<Rightarrow> outcome option" where
  "op_proxy_has_local_value vm =
     (let x = SvalS vm in
      if stob_of_type (vmem vm) x 15
      then Some (goto_value 1 (if load (vmem vm) (ADDRESS_AFTER_HEADER x + 8) = 529 then 1 else 5) vm)
      else raise_exception 5 1 [x] vm)"

definition op_proxy_local_ref :: "vm \<Rightarrow> outcome option" where
  "op_proxy_local_ref vm =
     (let x = SvalS vm; value = load (vmem vm) (ADDRESS_AFTER_HEADER x + 8) in
      if stob_of_type (vmem vm) x 15
      then if value = 529 then raise_exception 23 1 [x] vm else Some (goto_value 1 value vm)
      else raise_exception 5 1 [x] vm)"

end
