(* ===== verification/Vm_Channels.thy ===== *)
theory Vm_Channels
  imports Vm_Misc
begin

text \<open>
  Input and output in the virtual machine (\<open>src/c/scheme48vm.c\<close>): channels are descriptors of
  the system with a stored object each, ports have a buffer the machine reads and writes a
  character at a time, and an image of the heap goes to a file.
\<close>

subsection \<open>Surroundings\<close>

text \<open>
  The procedures of \<open>fd-io.c\<close> and \<open>io.c\<close>: \<open>ps_open_fd\<close> gives a descriptor and a status,
  \<open>ps_read_fd\<close> and \<open>ps_write_fd\<close> get the descriptor, the address and the number of bytes and may
  register a pending operation; \<open>malloc\<close> tells whether there is room for a table of channels;
  \<open>ps_open_output_file\<close> gives a stream and a status, \<open>ps_close\<close> a status.
\<close>

record io =
  open_fd :: "byte list \<Rightarrow> bool \<Rightarrow> long \<times> long"
  read_fd :: "int \<Rightarrow> addr \<Rightarrow> long \<Rightarrow> bool \<Rightarrow> memory \<Rightarrow> events \<Rightarrow> (read_result \<times> memory \<times> events) option"
  write_fd :: "int \<Rightarrow> addr \<Rightarrow> long \<Rightarrow> memory \<Rightarrow> events \<Rightarrow> ((int \<times> bool \<times> int) \<times> events) option"
  malloc_table :: "long \<Rightarrow> bool"
  open_output :: "byte list \<Rightarrow> ostream \<times> int"
  close_output :: "ostream \<Rightarrow> int"

definition ENOENT :: int where "ENOENT = 2"

subsection \<open>Strings of C\<close>

text \<open>A string as a stored object, with the zero at its end.\<close>

definition enter_string :: "byte list \<Rightarrow> vm \<Rightarrow> long \<times> vm" where
  "enter_string text vm =
     (let len = 1 + word_of_nat (length text);
          (addr, h) = allocate_space 19 (4 + len) 0 (vheap vm);
          m1 = Memory.store (mem h) addr (78 + push_bit 8 len);
          s = stob_at (addr + 4);
          m2 = store_bytes m1 (ADDRESS_AFTER_HEADER s) (text @ [0])
      in (s, vm\<lparr>vheap := h\<lparr>mem := m2\<rparr>\<rparr>))"

definition chars :: "string \<Rightarrow> byte list" where
  "chars text = map of_char text"

subsection \<open>Errors of the system\<close>

text \<open>The text of an error code as a string of at most 256 characters.\<close>

definition get_error_string :: "host \<Rightarrow> long \<Rightarrow> vm \<Rightarrow> long \<times> vm" where
  "get_error_string os st vm = enter_string (chars (take 256 (error_text os st))) vm"

definition raise_os_error :: "host \<Rightarrow> long \<Rightarrow> long list \<Rightarrow> long \<Rightarrow> vm \<Rightarrow> outcome option" where
  "raise_os_error os exception args st vm =
     map_option (\<lambda>vm1. let (s, vm2) = get_error_string os st (push_all args vm1)
                       in Raise (of_nat (length args) + 1) (push s vm2))
       (push_exception_continuationB exception 1 vm)"

subsection \<open>Opening and closing\<close>

definition channelP :: "memory \<Rightarrow> long \<Rightarrow> bool" where
  "channelP m x \<longleftrightarrow> stob_of_type m x 5"

text \<open>
  The table of channels grows by eight at least when the index is beyond it. The result is the
  channel, or the exception: 9 without memory, 11 when the index is in use.
\<close>

definition make_registered_channel :: "io \<Rightarrow> long \<Rightarrow> long \<Rightarrow> long \<Rightarrow> vm \<Rightarrow> (long + long) \<times> vm" where
  "make_registered_channel io mode name index vm =
     (let count = Snumber_of_channelsS vm;
          new_count = (if 1 + index <s 8 + count then 8 + count else 1 + index);
          grown = vm\<lparr>Snumber_of_channelsS := new_count,
                     Svm_channelsS := (\<lambda>i. if sint count \<le> i \<and> i < sint new_count then 1 else Svm_channelsS vm i)\<rparr>
      in if \<not> index <s count \<and> \<not> malloc_table io new_count then (Inl 9, vm)
         else let vm1 = (if index <s count then vm else grown)
              in if Svm_channelsS vm1 (sint index) = 1
                 then let (addr, h) = allocate_space 5 24 0 (vheap vm1);
                          m = store_cells (mem h) addr [5142, push_bit 2 mode, name, push_bit 2 index, 1, 1];
                          x = stob_at (addr + 4)
                      in (Inr x, vm1\<lparr>vheap := h\<lparr>mem := m\<rparr>,
                                     Svm_channelsS := (Svm_channelsS vm1)(sint index := x)\<rparr>)
                 else (Inl 11, vm1))"

text \<open>A descriptor that was opened here is closed again when it gets no channel.\<close>

definition open_index :: "host \<Rightarrow> io \<Rightarrow> long \<Rightarrow> long \<Rightarrow> long \<Rightarrow> vm \<Rightarrow> outcome option" where
  "open_index os io mode name index vm =
     (case make_registered_channel io mode name index vm of
        (Inr x, vm1) \<Rightarrow> Some (goto_value 1 x vm1)
      | (Inl reason, vm1) \<Rightarrow>
          if stob_of_type (vmem vm1) name 19
          then Option.bind (close_fd os (sint index) (vevents vm1)) (\<lambda>(st, ev).
               Option.bind (if st = NO_ERRORS then Some (vm1\<lparr>vevents := ev\<rparr>)
                            else channel_close_error os (word_of_int st) index name (vm1\<lparr>vevents := ev\<rparr>))
                 (raise_exception reason 1 [name, push_bit 2 mode]))
          else raise_exception reason 1 [name, push_bit 2 mode] vm1)"

text \<open>Modes 1 and 3 are for input, 2 and 4 for output. The channel is named by a descriptor or a file name.\<close>

definition op_open_channel :: "host \<Rightarrow> io \<Rightarrow> vm \<Rightarrow> outcome option" where
  "op_open_channel os io vm =
     Option.bind (need_space os 72 0 vm) (\<lambda>(_, vm0).
       let (name, vm1) = pop vm0; mode = sar 2 (SvalS vm1)
       in if \<not> FIXNUMP (SvalS vm1) then raise_exception 5 1 [name, SvalS vm1] vm1
          else if mode \<noteq> 1 \<and> mode \<noteq> 2 \<and> mode \<noteq> 3 \<and> mode \<noteq> 4
          then raise_exception 5 1 [name, push_bit 2 mode] vm1
          else if FIXNUMP name
          then if sar 2 name <s 0 then raise_exception 5 1 [name, push_bit 2 mode] vm1
               else open_index os io mode name (sar 2 name) vm1
          else if stob_of_type (vmem vm1) name 19
          then Option.bind (c_string (vmem vm1) (ADDRESS_AFTER_HEADER name)) (\<lambda>filename.
                 case open_fd io filename (mode = 1 \<or> mode = 3) of (index, st) \<Rightarrow>
                   if st = word_of_int NO_ERRORS then open_index os io mode name index vm1
                   else if st = word_of_int ENOENT then raise_exception 10 1 [name, push_bit 2 mode] vm1
                   else raise_os_error os 22 [name, push_bit 2 mode] st vm1)
          else raise_exception 5 1 [name, push_bit 2 mode] vm1)"

definition op_close_channel :: "host \<Rightarrow> vm \<Rightarrow> outcome option" where
  "op_close_channel os vm =
     Option.bind (need_space os 66 0 vm) (\<lambda>(_, vm1).
       let x = SvalS vm1
       in if channelP (vmem vm1) x \<and> load (vmem vm1) (ADDRESS_AFTER_HEADER x) \<noteq> 0
          then Option.bind (close_channelB os x vm1) (\<lambda>(st, vm2).
                 if st = word_of_int NO_ERRORS then Some (goto_value 1 13 vm2)
                 else raise_os_error os 22 [x] st vm2)
          else raise_exception 5 1 [x] vm1)"

subsection \<open>Reading and writing\<close>

text \<open>A pending operation is an exception whose handler runs with all interrupts disabled.\<close>

definition disable_interrupts :: "vm \<Rightarrow> vm" where
  "disable_interrupts vm =
     vm\<lparr>vevents := (vevents vm)\<lparr>Spending_interruptPS := False\<rparr>, Senabled_interruptsS := 0\<rparr>"

definition op_channel_maybe_read :: "host \<Rightarrow> io \<Rightarrow> vm \<Rightarrow> outcome option" where
  "op_channel_maybe_read os io vm =
     Option.bind (need_space os 66 0 vm) (\<lambda>(_, vm0).
       let (wait, vm1) = pop vm0; (count, vm2) = pop vm1; (start, vm3) = pop vm2; (thing, vm4) = pop vm3;
           x = SvalS vm4; m = vmem vm4; a = ADDRESS_AFTER_HEADER x; i = sar 2 start; n = sar 2 count;
           waitp = (wait \<noteq> 1);
           args = [thing, push_bit 2 i, push_bit 2 n, if waitp then 5 else 1, x]
       in if 3 AND (start OR count) \<noteq> 0 \<or> wait \<noteq> 1 \<and> wait \<noteq> 5 \<or> \<not> channelP m x
          then raise_exception 5 1 [thing, start, count, wait, x] vm4
          else if load m a \<noteq> 4 \<or> \<not> STOBP thing \<or> immutableP m thing \<or> \<not> bytesP m thing
          then raise_exception 5 1 args vm4
          else if bytes_length m thing <s i + n then raise_exception 7 1 args vm4
          else Option.bind (read_fd io (sint (sar 2 (load m (a + 8)))) (ADDRESS_AFTER_HEADER thing + sint i) n waitp m (vevents vm4))
            (\<lambda>(r, m1, ev).
              let vm5 = (set_vmem m1 vm4)\<lparr>vevents := ev\<rparr>
              in if rd_status r \<noteq> NO_ERRORS then raise_os_error os 22 args (word_of_int (rd_status r)) vm5
                 else if eofp r then Some (goto_value 1 21 vm5)
                 else if pending r then raise_exception 13 1 args (disable_interrupts vm5)
                 else Some (goto_value 1 (push_bit 2 (word_of_int (got r))) vm5)))"

definition op_channel_maybe_write :: "host \<Rightarrow> io \<Rightarrow> vm \<Rightarrow> outcome option" where
  "op_channel_maybe_write os io vm =
     Option.bind (need_space os 66 0 vm) (\<lambda>(_, vm0).
       let (count, vm1) = pop vm0; (start, vm2) = pop vm1; (thing, vm3) = pop vm2;
           x = SvalS vm3; m = vmem vm3; a = ADDRESS_AFTER_HEADER x; i = sar 2 start; n = sar 2 count;
           args = [thing, push_bit 2 i, push_bit 2 n, x]
       in if 3 AND (start OR count) \<noteq> 0 \<or> \<not> channelP m x
          then raise_exception 5 1 [thing, start, count, x] vm3
          else if load m a \<noteq> 8 \<or> \<not> bytesP m thing then raise_exception 5 1 args vm3
          else if bytes_length m thing <s i + n then raise_exception 7 1 args vm3
          else Option.bind (write_fd io (sint (sar 2 (load m (a + 8)))) (ADDRESS_AFTER_HEADER thing + sint i) n m (vevents vm3))
            (\<lambda>((sent, later, st), ev).
              let vm4 = vm3\<lparr>vevents := ev\<rparr>
              in if st \<noteq> NO_ERRORS then raise_os_error os 22 args (word_of_int st) vm4
                 else if later then raise_exception 13 1 args (disable_interrupts vm4)
                 else Some (goto_value 1 (push_bit 2 (word_of_int sent)) vm4)))"

subsection \<open>Ports\<close>

text \<open>The port that is current for a marker in the dynamic environment of the thread; a string says what is wrong with it.\<close>

partial_function (option) find_port :: "memory \<Rightarrow> long \<Rightarrow> long \<Rightarrow> (string + long) option" where
  "find_port m marker env =
     (if pairP m env \<and> pairP m (car m env)
      then if marker = car m (car m env) then Some (Inr (cdr m (car m env)))
           else find_port m marker (cdr m env)
      else Some (Inl (if env = SCHNULL then ''null'' else ''not pair'')))"

declare find_port.simps [code]

definition get_current_port :: "long \<Rightarrow> vm \<Rightarrow> (long \<times> vm) option" where
  "get_current_port marker vm =
     (let thread = Scurrent_threadS vm; m = vmem vm
      in if stob_of_type m thread 8 \<and> 1 <s cell_count m thread
         then map_option (\<lambda>r. case r of Inr port \<Rightarrow> (port, vm) | Inl text \<Rightarrow> enter_string (chars text) vm)
                (find_port m marker (load m (ADDRESS_AFTER_HEADER thread + 4)))
         else Some (enter_string (chars ''bad record'') vm))"

text \<open>The cells of a port: its state, whether it is locked, its buffer, the next place and the end of what is there.\<close>

definition portP :: "memory \<Rightarrow> long \<Rightarrow> long \<Rightarrow> bool" where
  "portP m port flag \<longleftrightarrow> stob_of_type m port 6 \<and> flag AND sar 2 (load m (ADDRESS_AFTER_HEADER port + 4)) \<noteq> 0"

definition port_cell :: "memory \<Rightarrow> long \<Rightarrow> int \<Rightarrow> long" where
  "port_cell m port i = load m (ADDRESS_AFTER_HEADER port + i)"

definition read_port :: "bool \<Rightarrow> long \<Rightarrow> vm \<Rightarrow> outcome option" where
  "read_port advance port vm =
     (let m = vmem vm; i = sar 2 (port_cell m port 24);
          vm1 = (if advance then poke (ADDRESS_AFTER_HEADER port + 24) (4 + push_bit 2 i) vm else vm);
          char = vmem vm1 (ADDRESS_AFTER_HEADER (port_cell m port 20) + sint i)
      in if \<not> portP m port 4 then raise_exception 5 2 [port] vm
         else if port_cell m port 12 = 5 \<or> i = sar 2 (port_cell m port 28) then raise_exception 14 2 [port] vm
         else Some (goto_value 2 (9 + push_bit 8 (ucast char)) vm1))"

definition op_port_char :: "bool \<Rightarrow> vm \<Rightarrow> outcome option" where
  "op_port_char advance vm =
     (if code_byte vm 1 = 0 then read_port advance (SvalS vm) vm
      else Option.bind (get_current_port 0 vm) (\<lambda>(port, vm1). read_port advance port vm1))"

definition op_read_char :: "vm \<Rightarrow> outcome option" where "op_read_char vm = op_port_char True vm"
definition op_peek_char :: "vm \<Rightarrow> outcome option" where "op_peek_char vm = op_port_char False vm"

definition write_port :: "long \<Rightarrow> long \<Rightarrow> vm \<Rightarrow> outcome option" where
  "write_port char port vm =
     (let m = vmem vm; i = sar 2 (port_cell m port 24);
          vm1 = poke (ADDRESS_AFTER_HEADER port + 24) (4 + push_bit 2 i) vm;
          b = ADDRESS_AFTER_HEADER (port_cell (vmem vm1) port 20)
      in if \<not> CHARP char \<or> \<not> portP m port 8 then raise_exception 5 2 [char, port] vm
         else if port_cell m port 12 = 5 \<or> i = byte_count m (port_cell m port 20)
         then raise_exception 14 2 [char, port] vm
         else Some (goto_value 2 13 (poke_byte (b + sint i) (ucast (sar 8 char)) vm1)))"

definition op_write_char :: "vm \<Rightarrow> outcome option" where
  "op_write_char vm =
     (if code_byte vm 1 = 0 then let (char, vm1) = pop vm in write_port char (SvalS vm1) vm1
      else Option.bind (get_current_port 4 vm) (\<lambda>(port, vm1). write_port (SvalS vm1) port vm1))"

subsection \<open>Images\<close>

text \<open>Without static areas the heap is written; the first error is the one reported, and the file is closed.\<close>

definition write_heap_image :: "io \<Rightarrow> byte list \<Rightarrow> byte list \<Rightarrow> long \<Rightarrow> vm \<Rightarrow> ((long \<times> int) option \<times> vm) option" where
  "write_heap_image io filename comment resume_proc vm =
     (case open_output io filename of (port, st) \<Rightarrow>
        if st \<noteq> NO_ERRORS then Some (Some (10, st), vm)
        else let (st1, port1) = ps_write_string comment port;
                 close_after_error = (\<lambda>st port vm. (Some (22, st),
                   if close_output io port = NO_ERRORS then vm else vm_say ''Unable to close image file'' vm))
             in if st1 \<noteq> NO_ERRORS then Some (close_after_error st1 port1 vm)
                else map_option (\<lambda>(st2, port2, h).
                  let vm1 = vm\<lparr>vheap := h\<rparr>
                  in if st2 \<noteq> NO_ERRORS then close_after_error st2 port2 vm1
                     else (if close_output io port2 = NO_ERRORS then None else Some (22, close_output io port2), vm1))
                  (write_image (mark_traced_channels_closedB (Svm_channelsS vm) (sint (Snumber_of_channelsS vm)))
                     resume_proc port1 (vheap vm)))"

definition op_write_image :: "host \<Rightarrow> io \<Rightarrow> vm \<Rightarrow> outcome option" where
  "op_write_image os io vm =
     Option.bind (need_space os 66 0 vm) (\<lambda>(_, vm0).
       let (resume_proc, vm1) = pop vm0; (name, vm2) = pop vm1; x = SvalS vm2; m = vmem vm2;
           args = [name, resume_proc, x]
       in if \<not> (stob_of_type m name 19 \<and> stob_of_type m x 19) then raise_exception 5 1 args vm2
          else if \<not> image_writing_okayP (vheap vm2) then raise_exception 15 1 args vm2
          else Option.bind (c_string m (ADDRESS_AFTER_HEADER name)) (\<lambda>filename.
               Option.bind (c_string m (ADDRESS_AFTER_HEADER x)) (\<lambda>comment.
               Option.bind (write_heap_image io filename comment resume_proc vm2) (\<lambda>(problem, vm3).
                 case problem of None \<Rightarrow> Some (goto_value 1 13 vm3)
                 | Some (reason, st) \<Rightarrow> raise_os_error os reason args (word_of_int st) vm3))))"

subsection \<open>Messages\<close>

text \<open>What \<open>message\<close> prints of a value, the parts of a list in a row.\<close>

definition record_type_name :: "memory \<Rightarrow> long \<Rightarrow> long option" where
  "record_type_name m x =
     (let type = load m (ADDRESS_AFTER_HEADER x); name = load m (ADDRESS_AFTER_HEADER type + 8)
      in if stob_of_type m x 8 \<and> 0 <s cell_count m x \<and> stob_of_type m type 8 \<and> 2 <s cell_count m type
            \<and> stob_of_type m name 1
         then Some (load m (ADDRESS_AFTER_HEADER name + 4)) else None)"

definition message_text :: "memory \<Rightarrow> long \<Rightarrow> string option" where
  "message_text m x =
     (let string_at = (\<lambda>s. map_option text_of (c_string m (ADDRESS_AFTER_HEADER s)))
      in if FIXNUMP x then Some (text_of (decimal_long (sar 2 x)))
         else if CHARP x then Some ([CHR ''#'', CHR 0x5C, char_of (unat (ucast (sar 8 x) :: byte))])
         else case record_type_name m x of
           Some s \<Rightarrow> map_option (\<lambda>t. ''#{'' @ t @ ''}'') (string_at s)
         | None \<Rightarrow>
             if stob_of_type m x 19 then string_at x
             else if stob_of_type m x 1 then string_at (load m (ADDRESS_AFTER_HEADER x + 4))
             else if x = 1 then Some ''#f'' else if x = 5 then Some ''#t''
             else if x = 25 then Some ''()'' else if pairP m x then Some ''(...)''
             else if stob_of_type m x 2 then Some ''#(...)''
             else if stob_of_type m x 3 then Some ''#{procedure}'' else Some ''???'')"

partial_function (option) message_line :: "memory \<Rightarrow> long \<Rightarrow> string option" where
  "message_line m stuff =
     (if pairP m stuff
      then Option.bind (message_text m (car m stuff)) (\<lambda>t.
           Option.bind (message_line m (cdr m stuff)) (\<lambda>line. Some (t @ line)))
      else Some '''')"

declare message_line.simps [code]

definition op_message :: "vm \<Rightarrow> outcome option" where
  "op_message vm =
     map_option (\<lambda>line. goto_value 1 13 (vm_say line vm)) (message_line (vmem vm) (SvalS vm))"

end
