(* ===== verification/Vm_Start.thy ===== *)
theory Vm_Start
  imports Vm_Channels
begin

text \<open>
  The start of the virtual machine (\<open>src/c/scheme48vm.c\<close>): the space it asks for, its stack and
  the templates of its own, and the call of the startup procedure with the arguments of the
  command line and the three standard channels.
\<close>

definition required_init_space :: "byte list list \<Rightarrow> long" where
  "required_init_space args =
     53 + fold (\<lambda>arg s. 1 + (s + sar 2 (4 + word_of_nat (length arg)))) args 0"

subsection \<open>The stack and the templates\<close>

text \<open>A template with a code of two bytes: the code, no identification, false.\<close>

definition make_template_containing_ops :: "byte \<Rightarrow> byte \<Rightarrow> vm \<Rightarrow> long \<times> vm" where
  "make_template_containing_ops op1 op2 vm =
     (let (addr1, h1) = allocate_space 20 6 0 (vheap vm);
          m1 = Memory.store (mem h1) addr1 594;
          (addr2, h2) = allocate_space 11 20 0 (h1\<lparr>mem := m1\<rparr>);
          m2 = Memory.store (mem h2) addr2 4142;
          temp = stob_at (addr2 + 4); code = stob_at (addr1 + 4);
          a = ADDRESS_AFTER_HEADER temp; c = ADDRESS_AFTER_HEADER code;
          m3 = Memory.store (Memory.store (Memory.store m2 a code) (a + 8) 0) (a + 12) 1;
          m4 = m3(c := op1, c + 1 := op2)
      in (temp, vm\<lparr>vheap := h2\<lparr>mem := m4\<rparr>\<rparr>))"

text \<open>The whole stack is filled with the mark the collector looks for.\<close>

definition mark_stack :: "addr \<Rightarrow> addr \<Rightarrow> memory \<Rightarrow> memory" where
  "mark_stack from_addr to_addr m =
     store_cells m from_addr (replicate (nat ((to_addr - from_addr) div 4)) 252645135)"

text \<open>
  A stack that is too small is replaced, when \<open>malloc\<close> has a place. At its bottom is a
  continuation that gets the next one from the heap; the other two templates return from
  interrupts and exceptions.
\<close>

definition initialize_vm :: "addr option \<Rightarrow> addr \<Rightarrow> long \<Rightarrow> vm \<Rightarrow> vm option" where
  "initialize_vm malloc stack_begin stack_size vm =
     map_option (\<lambda>(start, size).
       let finish = start + sint (push_bit 2 size);
           vm1 = vm\<lparr>Sstack_beginS := start, Sstack_endS := finish, Sstack_limitS := start + 500,
                    SstackS := finish + (- 4), ScontS := 1, SenvS := 17\<rparr>;
           vm2 = set_vmem (mark_stack start finish (vmem vm1)) vm1;
           (template, vm3) = make_template_containing_ops 23 31 vm2;
           s = SstackS vm3 + (- 20); cont = stob_at (s + 8); a = ADDRESS_AFTER_HEADER cont;
           m1 = Memory.store (vmem vm3) (s + 4) 4134;
           m2 = Memory.store (Memory.store (Memory.store (Memory.store m1 (a + 4) 0)
                  (a + 8) template) (a + 12) (SenvS vm3)) a (ScontS vm3);
           vm4 = (set_vmem m2 vm3)\<lparr>SstackS := s, ScontS := cont, Sbottom_of_stackS := cont\<rparr>;
           (v1, vm5) = make_template_containing_ops 34 141 vm4;
           (v2, vm6) = make_template_containing_ops 138 124 (vm5\<lparr>Sinterrupt_templateS := v1\<rparr>)
       in vm6\<lparr>Sexception_templateS := v2\<rparr>)
     (if stack_size <s 8125 then map_option (\<lambda>a. (a, 8125)) malloc else Some (stack_begin, stack_size))"

subsection \<open>The startup procedure\<close>

text \<open>The descriptors of the standard streams.\<close>

record streams =
  stdin_fd :: long
  stdout_fd :: long
  stderr_fd :: long

definition long_max :: "long \<Rightarrow> long \<Rightarrow> long" where
  "long_max a b = (if b <s a then a else b)"

definition enter_args :: "long \<Rightarrow> byte list list \<Rightarrow> vm \<Rightarrow> vm" where
  "enter_args vector args vm =
     snd (fold (\<lambda>arg (i, vm). let (s, vm1) = enter_string arg vm
                             in (i + 1, poke (ADDRESS_AFTER_HEADER vector + 4 * i) s vm1)) args (0, vm))"

definition startup_registers :: "vm \<Rightarrow> vm" where
  "startup_registers vm =
     (let a = ADDRESS_AFTER_HEADER (Sbottom_of_stackS vm); tem = Sinterrupt_templateS vm
      in (poke a 1 vm)\<lparr>SstackS := a + (- 8), ScontS := Sbottom_of_stackS vm, SenvS := 13,
           StemplateS := tem, Scode_pointerS := template_code (Memory.store (vmem vm) a 1) tem, SvalS := 13,
           Scurrent_threadS := 25, Ssession_dataS := 25, Sexception_handlersS := 25,
           Sinterrupt_handlersS := 25, Senabled_interruptsS := 0, Sfinalizer_alistS := 25,
           Sfinalize_theseS := 25, Spending_interruptsS := 0,
           vevents := (vevents vm)\<lparr>Spending_interruptPS := False\<rparr>, Sinterrupted_templateS := 1\<rparr>)"

definition initialize_channels :: "streams \<Rightarrow> vm \<Rightarrow> vm" where
  "initialize_channels std vm =
     (let v = long_max (stdin_fd std) (long_max (stdout_fd std) (stderr_fd std));
          n = (if Snumber_of_channelsS vm <s 1 + v then 1 + v else Snumber_of_channelsS vm)
      in vm\<lparr>Snumber_of_channelsS := n, Svm_channelsS := (\<lambda>_. 1),
            Spending_channels_headS := 1, Spending_channels_tailS := 1\<rparr>)"

definition make_channel :: "long \<Rightarrow> string \<Rightarrow> long \<Rightarrow> vm \<Rightarrow> long \<times> vm" where
  "make_channel mode name index vm =
     (let (s, vm1) = enter_string (chars name) vm;
          (addr, h) = allocate_space 5 24 0 (vheap vm1);
          m = store_cells (mem h) addr [5142, mode, s, push_bit 2 index, 1, 1];
          x = stob_at (addr + 4)
      in (x, vm1\<lparr>vheap := h\<lparr>mem := m\<rparr>, Svm_channelsS := (Svm_channelsS vm1)(sint index := x)\<rparr>))"

text \<open>
  The arguments of the startup procedure are the vector and the three channels; the code that
  calls it with four arguments is made here.
\<close>

definition call_startup_procedure :: "streams \<Rightarrow> bool \<Rightarrow> long \<Rightarrow> byte list list \<Rightarrow> vm \<Rightarrow> vm option" where
  "call_startup_procedure std malloc_ok proc args vm =
     (let len = push_bit 2 (word_of_nat (length args));
          (addr, h) = allocate_space 2 (4 + len) 0 (vheap vm);
          vm1 = vm\<lparr>vheap := h\<lparr>mem := Memory.store (mem h) addr (10 + push_bit 8 len)\<rparr>\<rparr>;
          vector = stob_at (addr + 4);
          vm2 = push vector (startup_registers (enter_args vector args vm1));
          vm3 = initialize_channels std vm2;
          (inp, vm4) = make_channel 4 ''standard input'' (stdin_fd std) vm3;
          (err, vm5) = make_channel 8 ''standard error'' (stderr_fd std) vm4;
          (out, vm6) = make_channel 8 ''standard output'' (stdout_fd std) vm5;
          vm7 = push_all [inp, out, err] vm6;
          (addr1, h1) = allocate_space 20 6 0 (vheap vm7);
          m1 = Memory.store (mem h1) addr1 594;
          c = ADDRESS_AFTER_HEADER (stob_at (addr1 + 4));
          m2 = m1(c := 24, c + 1 := 4)
      in if malloc_ok
         then Some (vm7\<lparr>vheap := h1\<lparr>mem := m2\<rparr>, Scode_pointerS := c, SvalS := proc\<rparr>)
         else None)"

end
