(* ===== verification/Vm_Transmit.thy ===== *)
theory Vm_Transmit
  imports Vm_Lists
begin

text \<open>
  Objects as messages for another address space (\<open>src/c/scheme48vm.c\<close>: \<open>real_next_id\<close>,
  \<open>encode_object\<close>, \<open>extend_decode_vector\<close> and \<open>encode\<close>; byte code 149). The message is built in the
  free part of the heap, as in a copying collection; the other half holds lists, of the objects
  whose headers have been overwritten, of those that got a new identification for which the
  decode vector has no room, and of the proxies that have no counts left.

  A pointer in a message has a kind in the six bits after its tag: 0 for an object in the
  message, with its offset; 1 for an object known by its identification; 2 and 3 for the offset
  of two or three cells, which hold the identification of an owner, that of the object there,
  and the count sent with a proxy.
\<close>

subsection \<open>Identifications\<close>

text \<open>
  An address space has two vectors, of the objects and of the proxies it knows by number; cell 0 of
  each is the next number, from a list of the free cells that goes on behind the vector's end.
\<close>

definition remember_new_id :: "long \<Rightarrow> vm \<Rightarrow> vm" where
  "remember_new_id thing vm =
     (let room = Sother_hpS vm;
          vm1 = (poke (room + 4) (word_of_int (Snew_id_hotelS vm)) vm)\<lparr>Sother_hpS := room + 8\<rparr>
      in (poke room thing vm1)\<lparr>Snew_id_hotelS := room\<rparr>)"

definition real_next_id :: "long \<Rightarrow> long \<Rightarrow> vm \<Rightarrow> long \<times> vm" where
  "real_next_id thing decode_vector vm =
     (let a = ADDRESS_AFTER_HEADER decode_vector;
          next_available = load (vmem vm) a;
          extracted = sar 2 next_available;
          b = a + sint (push_bit 2 extracted)
      in (next_available,
          if extracted <s cell_count (vmem vm) decode_vector
          then poke a (load (vmem vm) b) (poke b thing vm)
          else poke a (4 + push_bit 2 extracted) (remember_new_id thing vm)))"

text \<open>The identification in the cell of an object, a new one from one of the vectors if there is none.\<close>

definition get_uid :: "long \<Rightarrow> int \<Rightarrow> int \<Rightarrow> vm \<Rightarrow> long \<times> vm" where
  "get_uid thing cell vector vm =
     (let a = ADDRESS_AFTER_HEADER thing + cell; uid = load (vmem vm) a
      in if uid = 1
         then let (uid1, vm1) = real_next_id thing
                    (load (vmem vm) (ADDRESS_AFTER_HEADER (Sour_address_spaceS vm) + vector)) vm
              in (uid1, poke a uid1 vm1)
         else (uid, vm))"

subsection \<open>Encoding one object\<close>

definition store_next :: "long \<Rightarrow> vm \<Rightarrow> vm" where
  "store_next d vm = (poke (Stransmit_hpS vm) d vm)\<lparr>Stransmit_hpS := Stransmit_hpS vm + 4\<rparr>"

definition message_offset :: "vm \<Rightarrow> long" where
  "message_offset vm = push_bit 8 (word_of_int (Stransmit_hpS vm - SstartS vm))"

definition encoding_lost :: "vm \<Rightarrow> long \<times> vm" where
  "encoding_lost vm = (0, vm\<lparr>Stransmit_hpS := Smax_hpS vm\<rparr>)"

definition encode_uid :: "long \<Rightarrow> int \<Rightarrow> vm \<Rightarrow> long \<times> vm" where
  "encode_uid thing cell vm =
     (let (p, vm1) = get_uid thing cell 4 vm in (7 + push_bit 6 ((- 4) AND p), vm1))"

text \<open>The identification of a template or location is a pair when another address space owns it.\<close>

definition encode_two_part_uid :: "long \<Rightarrow> int \<Rightarrow> vm \<Rightarrow> long \<times> vm" where
  "encode_two_part_uid thing cell vm =
     (let (uid, vm1) = get_uid thing cell 4 vm
      in if Stransmit_hpS vm1 + 8 < Smax_hpS vm1
         then (11 + message_offset vm1,
               if pairP (vmem vm1) uid
               then let vm2 = store_next (car (vmem vm1) uid) vm1 in store_next (cdr (vmem vm2) uid) vm2
               else store_next uid (store_next 4 vm1))
         else encoding_lost vm1)"

text \<open>
  A proxy is sent with half of its counts, 4096 at most; one that has only one left is
  remembered. Those of the shared address space, number 2, are not counted.
\<close>

definition remember_losing_proxy :: "long \<Rightarrow> vm \<Rightarrow> vm" where
  "remember_losing_proxy pdata vm =
     (let room = Sother_hpS vm;
          vm1 = (poke (room + 4) (word_of_int (Slosing_proxy_hotelS vm)) vm)\<lparr>Sother_hpS := room + 8\<rparr>
      in (poke room pdata vm1)\<lparr>Slosing_proxy_hotelS := room\<rparr>)"

definition debit_proxy_count :: "long \<Rightarrow> vm \<Rightarrow> long \<times> vm" where
  "debit_proxy_count pdata vm =
     (let a = ADDRESS_AFTER_HEADER pdata; owner = load (vmem vm) (a + 4)
      in if owner \<noteq> 1 \<and> load (vmem vm) (ADDRESS_AFTER_HEADER owner) = 8 then (0, vm)
         else let count = sar 2 (load (vmem vm) (a + 12));
                  (send, vm1) = (if 1 <s count
                                 then (if count <s 8192 then drop_bit 1 count else 4096, vm)
                                 else (1, remember_losing_proxy pdata vm))
              in (push_bit 2 send, poke (a + 12) (push_bit 2 (count - send)) vm1))"

definition encode_proxy :: "long \<Rightarrow> vm \<Rightarrow> long \<times> vm" where
  "encode_proxy thing vm =
     (if Stransmit_hpS vm + 12 < Smax_hpS vm
      then let pdata = load (vmem vm) (ADDRESS_AFTER_HEADER thing);
               owner = load (vmem vm) (ADDRESS_AFTER_HEADER pdata + 4);
               vm1 = store_next (if owner = 1 then 4 else load (vmem vm) (ADDRESS_AFTER_HEADER owner)) vm;
               (uid, vm2) = get_uid pdata 0 8 vm1;
               (count, vm3) = debit_proxy_count pdata (store_next uid vm2)
           in (15 + message_offset vm, store_next count vm3)
      else encoding_lost vm)"

text \<open>
  Any other object is copied to the message, its new place left in its header. The header goes on
  the list for the end.
\<close>

definition remember_heartbreak :: "long \<Rightarrow> long \<Rightarrow> vm \<Rightarrow> vm" where
  "remember_heartbreak thing h vm =
     (let room = Sother_hpS vm;
          vm1 = (poke (room + 8) (word_of_int (Sheartbreak_hotelS vm)) vm)\<lparr>Sother_hpS := room + 12\<rparr>
      in (poke (room + 4) h (poke room thing vm1))\<lparr>Sheartbreak_hotelS := room\<rparr>)"

lemma Stransmit_store_next [simp]: "Stransmit_hpS (store_next d vm) = Stransmit_hpS vm + 4"
  by (simp add: store_next_def)

function copy_out :: "addr \<Rightarrow> addr \<Rightarrow> vm \<Rightarrow> vm" where
  "copy_out p new_hp vm =
     (if Stransmit_hpS vm < new_hp then copy_out (p + 4) new_hp (store_next (load (vmem vm) p) vm) else vm)"
  by pat_completeness auto
termination
  by (relation "measure (\<lambda>(_, new_hp, vm). nat (new_hp - Stransmit_hpS vm))") simp_all

declare copy_out.simps [simp del]

definition encode_full_object :: "long \<Rightarrow> long \<Rightarrow> vm \<Rightarrow> long \<times> vm" where
  "encode_full_object h thing vm =
     (if Stransmit_hpS vm + header_span h < Smax_hpS vm
      then let new = 3 + message_offset vm;
               vm1 = remember_heartbreak thing h (poke (ADDRESS_AFTER_HEADER thing + (- 4)) new (store_next h vm))
           in (new, copy_out (ADDRESS_AFTER_HEADER thing) (Stransmit_hpS vm1 + header_span h) vm1)
      else encoding_lost vm)"

definition encode_object :: "long \<Rightarrow> vm \<Rightarrow> long \<times> vm" where
  "encode_object thing vm =
     (let h = stob_header (vmem vm) thing; type = header_type h
      in if STOBP h then (h, vm)
         else if type = 1 then encode_uid thing 0 vm
         else if type = 13 then encode_uid thing 8 vm
         else if type = 16 then encode_uid thing 0 vm
         else if type = 11 then encode_two_part_uid thing 8 vm
         else if type = 4 then encode_two_part_uid thing 0 vm
         else if type = 14 then encode_proxy thing vm
         else encode_full_object h thing vm)"

subsection \<open>Encoding what the message holds\<close>

function encode_locations :: "addr \<Rightarrow> addr \<Rightarrow> vm \<Rightarrow> vm" where
  "encode_locations p stop_at vm =
     (if p < stop_at
      then let thing = load (vmem vm) p
           in if HEADERP thing \<and> \<not> header_type thing < 19
              then encode_locations (p + (4 + header_span thing)) stop_at vm
              else if STOBP thing
              then case encode_object thing vm of (x, vm1) \<Rightarrow> encode_locations (p + 4) stop_at (poke p x vm1)
              else encode_locations (p + 4) stop_at vm
      else vm)"
  by pat_completeness auto
termination
  by (relation "measure (\<lambda>(p, stop_at, _). nat (stop_at - p))") (simp_all add: nat_less_iff add_increasing2)

declare encode_locations.simps [simp del]

partial_function (option) do_encoding :: "addr \<Rightarrow> vm \<Rightarrow> (bool \<times> vm) option" where
  "do_encoding start vm =
     (let stop_at = Stransmit_hpS vm; vm1 = encode_locations start stop_at vm
      in if Stransmit_hpS vm1 < Smax_hpS vm1
         then if stop_at < Stransmit_hpS vm1 then do_encoding stop_at vm1 else Some (True, vm1)
         else Some (False, vm1))"

declare do_encoding.simps [code]

subsection \<open>Afterwards\<close>

partial_function (option) mend_hearts :: "addr \<Rightarrow> vm \<Rightarrow> vm option" where
  "mend_hearts ptr vm =
     (if ptr = 0 then Some vm
      else let vm1 = poke (ADDRESS_AFTER_HEADER (load (vmem vm) ptr) + (- 4)) (load (vmem vm) (ptr + 4)) vm
           in mend_hearts (uint (load (vmem vm1) (ptr + 8))) vm1)"

declare mend_hearts.simps [code]

text \<open>
  New identifications are taken back when the message cannot be made. What is in the list of a
  proxy is its data, of type 15, which no case is for.
\<close>

definition drop_id :: "long \<Rightarrow> vm \<Rightarrow> vm" where
  "drop_id thing vm =
     (let type = header_type (stob_header (vmem vm) thing); a = ADDRESS_AFTER_HEADER thing
      in if type = 1 then poke a 1 vm
         else if type = 11 \<or> type = 13 then poke (a + 8) 1 vm
         else if type = 16 \<or> type = 4 then poke a 1 vm
         else if type = 14
         then let vm1 = poke (ADDRESS_AFTER_HEADER (load (vmem vm) a)) 1 vm
              in poke (ADDRESS_AFTER_HEADER (load (vmem vm1) a) + 12) 67108864 vm1
         else vm)"

partial_function (option) drop_new_ids :: "addr \<Rightarrow> vm \<Rightarrow> vm option" where
  "drop_new_ids ptr vm =
     (if ptr = 0 then Some vm
      else let vm1 = drop_id (load (vmem vm) ptr) vm in drop_new_ids (uint (load (vmem vm1) (ptr + 4))) vm1)"

declare drop_new_ids.simps [code]

text \<open>
  The larger vector: the old cells, the new objects from the last number down, and a list of the
  free cells from the next number on.
\<close>

partial_function (option) place_new_ids :: "long \<Rightarrow> bool \<Rightarrow> addr \<Rightarrow> long \<Rightarrow> vm \<Rightarrow> vm option" where
  "place_new_ids new_vector proxiesP ptr i vm =
     (if ptr = 0 then Some vm
      else let x = load (vmem vm) ptr
           in if stob_of_type (vmem vm) x 15 = proxiesP
              then let vm1 = poke (ADDRESS_AFTER_HEADER new_vector + sint (push_bit 2 i)) x vm
                   in place_new_ids new_vector proxiesP (uint (load (vmem vm1) (ptr + 4))) (- 1 + i) vm1
              else place_new_ids new_vector proxiesP (uint (load (vmem vm) (ptr + 4))) i vm)"

declare place_new_ids.simps [code]

partial_function (option) link_free_ids :: "long \<Rightarrow> long \<Rightarrow> vm \<Rightarrow> vm option" where
  "link_free_ids new_vector i vm =
     (if i = cell_count (vmem vm) new_vector then Some vm
      else link_free_ids new_vector (1 + i)
             (poke (ADDRESS_AFTER_HEADER new_vector + sint (push_bit 2 i)) (4 + push_bit 2 i) vm))"

declare link_free_ids.simps [code]

definition copy_ids :: "long \<Rightarrow> long \<Rightarrow> vm \<Rightarrow> vm" where
  "copy_ids new_vector old_vector vm =
     fold (\<lambda>i vm. poke (ADDRESS_AFTER_HEADER new_vector + 4 * int i)
                    (load (vmem vm) (ADDRESS_AFTER_HEADER old_vector + 4 * int i)) vm)
       [0..<unat (cell_count (vmem vm) old_vector)] vm"

definition vector_cell :: "bool \<Rightarrow> int" where
  "vector_cell proxiesP = (if proxiesP then 8 else 4)"

definition extend_decode_vector :: "long \<Rightarrow> bool \<Rightarrow> vm \<Rightarrow> (bool \<times> vm) option" where
  "extend_decode_vector address_space proxiesP vm =
     (let cell = ADDRESS_AFTER_HEADER address_space + vector_cell proxiesP;
          decode_vector = load (vmem vm) cell;
          minimum = sar 2 (load (vmem vm) (ADDRESS_AFTER_HEADER decode_vector));
          double = push_bit 1 (cell_count (vmem vm) decode_vector);
          want = (if double <s minimum then minimum else double);
          new_length = (if availableP (vheap vm) (1 + want) then want
                        else if availableP (vheap vm) (1 + minimum) then minimum else 0)
      in if new_length = 0 then Some (False, vm)
         else let (new_vector, vm1) = make_stob 2 (push_bit 2 new_length) vm;
                  next_uid = sar 2 (load (vmem vm1) (ADDRESS_AFTER_HEADER decode_vector));
                  vm2 = copy_ids new_vector decode_vector vm1
              in Option.bind (place_new_ids new_vector proxiesP (Snew_id_hotelS vm2) (- 1 + next_uid) vm2) (\<lambda>vm3.
                 map_option (\<lambda>vm4. (True, poke cell new_vector vm4)) (link_free_ids new_vector next_uid vm3)))"

definition too_short :: "memory \<Rightarrow> long \<Rightarrow> bool" where
  "too_short m decode_vector \<longleftrightarrow>
     cell_count m decode_vector <s sar 2 (load m (ADDRESS_AFTER_HEADER decode_vector))"

text \<open>
  Both vectors are made larger if they have to be. When the second one cannot be, the
  code puts back the vector of the proxies, which has not been changed, not the other one, which has.
\<close>

definition update_decode_vectors :: "long \<Rightarrow> vm \<Rightarrow> (bool \<times> vm) option" where
  "update_decode_vectors address_space vm =
     (let a = ADDRESS_AFTER_HEADER address_space;
          old_proxy = load (vmem vm) (a + 8); old_decode = load (vmem vm) (a + 4);
          proxy_short = too_short (vmem vm) old_proxy
      in if too_short (vmem vm) old_decode
         then Option.bind (extend_decode_vector address_space False vm) (\<lambda>(ok, vm1).
              if \<not> ok then Some (False, vm1)
              else if \<not> proxy_short then Some (True, vm1)
              else map_option (\<lambda>(ok, vm2). if ok then (True, vm2) else (False, poke (a + 8) old_proxy vm2))
                     (extend_decode_vector address_space True vm1))
         else if \<not> proxy_short then Some (True, vm)
         else extend_decode_vector address_space True vm)"

partial_function (option) losing_proxies :: "addr \<Rightarrow> long \<Rightarrow> vm \<Rightarrow> (long \<times> vm) option" where
  "losing_proxies ptr list vm =
     (if ptr = 0 then Some (list, vm)
      else if availableP (vheap vm) 3
      then case cons (load (vmem vm) ptr) list vm of
             (x, vm1) \<Rightarrow> losing_proxies (uint (load (vmem vm1) (ptr + 4))) x vm1
      else losing_proxies (uint (load (vmem vm) (ptr + 4))) 1 vm)"

declare losing_proxies.simps [code]

subsection \<open>Encoding a message\<close>

definition begin_message :: "long \<Rightarrow> vm \<Rightarrow> vm" where
  "begin_message address_space vm =
     (case heap_limits (vheap vm) of (start_hp, _, current_end, other_begin, _) \<Rightarrow>
        vm\<lparr>Sour_address_spaceS := address_space, SstartS := start_hp, Stransmit_hpS := start_hp + 12,
           Smax_hpS := (if start_hp + 16777220 < current_end then start_hp + 16777220 else current_end) + (- 4),
           Sother_hpS := other_begin, Sheartbreak_hotelS := 0, Snew_id_hotelS := 0, Slosing_proxy_hotelS := 0\<rparr>)"

text \<open>The message is a code vector: its length, the code of the object, the objects in it.\<close>

definition end_message :: "addr \<Rightarrow> vm \<Rightarrow> vm" where
  "end_message start_hp vm =
     (let len = word_of_int (Stransmit_hpS vm - (start_hp + 4));
          vm1 = poke (start_hp + 4) len (poke start_hp (82 + push_bit 8 len) vm)
      in vm1\<lparr>vheap := set_heap_pointerB (vheap vm1) (Stransmit_hpS vm1)\<rparr>)"

definition encode :: "long \<Rightarrow> long \<Rightarrow> long \<Rightarrow> vm \<Rightarrow> (bool \<times> vm) option" where
  "encode thing address_space pair vm =
     (let vm1 = begin_message address_space vm; start_hp = SstartS vm1;
          (code, vm2) = encode_object thing vm1;
          vm3 = poke (start_hp + 8) code vm2;
          drop_ids = (\<lambda>vm. map_option (Pair False) (drop_new_ids (Snew_id_hotelS vm) vm))
      in Option.bind (if Stransmit_hpS vm3 < Smax_hpS vm3 then do_encoding (start_hp + 12) vm3 else Some (False, vm3))
        (\<lambda>(ok, vm4).
          if \<not> ok then Option.bind (mend_hearts (Sheartbreak_hotelS vm4) vm4) drop_ids
          else let vm5 = end_message start_hp vm4
               in Option.bind (mend_hearts (Sheartbreak_hotelS vm5) vm5) (\<lambda>vm6.
                  Option.bind (update_decode_vectors address_space vm6) (\<lambda>(ok, vm7).
                    if \<not> ok then drop_ids vm7
                    else map_option (\<lambda>(losers, vm8).
                           if losers = 1 then (False, vm8)
                           else (True, poke (ADDRESS_AFTER_HEADER pair + 4) losers
                                         (poke (ADDRESS_AFTER_HEADER pair) (stob_at (start_hp + 4)) vm8)))
                         (losing_proxies (Slosing_proxy_hotelS vm7) 25 vm7)))))"

text \<open>The byte code 149 tries again after a collection.\<close>

definition op_encode :: "host \<Rightarrow> vm \<Rightarrow> outcome option" where
  "op_encode os vm =
     Option.bind (need_space os 3 0 vm) (\<lambda>(_, vm0).
       let (thing, vm1) = pop vm0; address_space = SvalS vm1
       in if \<not> stob_of_type (vmem vm1) address_space 16 then raise_exception 5 1 [thing, address_space] vm1
          else let (pair, vm2) = cons 1 1 vm1
               in Option.bind (encode thing address_space pair vm2) (\<lambda>(ok, vm3).
                    if ok then Some (goto_value 1 pair vm3)
                    else Option.bind (collect_saving_temp os thing (push_all [address_space, pair] vm3)) (\<lambda>(thing1, vm4).
                         let (pair1, vm5) = pop vm4; (address_space1, vm6) = pop vm5
                         in Option.bind (encode thing1 address_space1 pair1 vm6) (\<lambda>(ok, vm7).
                              if ok then Some (goto_value 1 pair1 vm7)
                              else raise_exception 8 1 [thing1, address_space1] vm7))))"

end
