(* ===== verification/Vm_Receive.thy ===== *)
theory Vm_Receive
  imports Vm_Transmit Image_Read
begin

text \<open>
  Messages from another address space (\<open>src/c/scheme48vm.c\<close>, from \<open>L25563\<close> on; byte code 150).
  A message is decoded where it is and becomes the objects in it; what cannot be found yet is put on
  a list, with the place it belongs to, and so are the proxies whose counts are too low or too high.
\<close>

subsection \<open>Known objects\<close>

definition lookup_uid :: "memory \<Rightarrow> int \<Rightarrow> long \<Rightarrow> long \<Rightarrow> long" where
  "lookup_uid m vector uid address_space =
     (let decode_vector = load m (ADDRESS_AFTER_HEADER address_space + vector)
      in if uid <s cell_count m decode_vector
         then load m (ADDRESS_AFTER_HEADER decode_vector + sint (push_bit 2 uid)) else 1)"

text \<open>A missing object: its address space, number and count, the object it is for and the place there, in cells.\<close>

definition add_pending :: "long \<Rightarrow> long \<Rightarrow> long \<Rightarrow> addr \<Rightarrow> addr \<Rightarrow> vm \<Rightarrow> long \<times> vm" where
  "add_pending aspace_uid uid count addr stob_start vm =
     (let (vector, vm1) = make_stob 2 20 vm; a = ADDRESS_AFTER_HEADER vector;
          vm2 = set_vmem (store_cells (vmem vm1) a
                  [push_bit 2 aspace_uid, push_bit 2 uid, count, stob_at stob_start,
                   (- 4) AND word_of_int (addr - stob_start)]) vm1;
          (x, vm3) = cons vector (Snew_uidsS vm2) vm2
      in (1, vm3\<lparr>Snew_uidsS := x\<rparr>))"

definition decode_uid :: "long \<Rightarrow> long \<Rightarrow> long \<Rightarrow> addr \<Rightarrow> addr \<Rightarrow> vm \<Rightarrow> long \<times> vm" where
  "decode_uid uid address_space aspace_uid addr stob_start vm =
     (let thing = lookup_uid (vmem vm) 4 uid address_space
      in if STOBP thing then (thing, vm) else add_pending aspace_uid uid 1 addr stob_start vm)"

subsection \<open>Proxies\<close>

text \<open>
  The cells of a proxy's data: number, owner, value, count, a weak pointer to the proxy, and
  those who wait. A proxy that has been collected is made again.
\<close>

definition rejuvenate_proxy :: "long \<Rightarrow> vm \<Rightarrow> long \<times> vm" where
  "rejuvenate_proxy pdata vm =
     (let (proxy, vm1) = make_stob 14 4 vm;
          vm2 = poke (ADDRESS_AFTER_HEADER proxy) pdata vm1;
          (weak, vm3) = make_stob 12 4 vm2;
          vm4 = poke (ADDRESS_AFTER_HEADER weak) proxy vm3
      in (proxy, poke (ADDRESS_AFTER_HEADER pdata + 16) weak vm4))"

text \<open>
  The counts that come with a proxy are added to those there are; a proxy with too many of a
  foreign owner is reported. Counts for one that has none left are not added but reported, as a plain
  number, not a fixnum.
\<close>

definition add_to_proxy_count :: "long \<Rightarrow> long \<Rightarrow> vm \<Rightarrow> vm" where
  "add_to_proxy_count pdata extra vm =
     (let a = ADDRESS_AFTER_HEADER pdata; count = sar 2 (load (vmem vm) (a + 12))
      in if count <s 1
         then let (x, vm1) = cons pdata extra vm; (y, vm2) = cons x (Sbad_count_proxiesS vm1) vm1
              in vm2\<lparr>Sbad_count_proxiesS := y\<rparr>
         else let vm1 = (if 131072 <s count + extra \<and> load (vmem vm) (a + 4) \<noteq> 1
                         then let (x, vm1) = cons pdata (Sbad_count_proxiesS vm) vm
                              in vm1\<lparr>Sbad_count_proxiesS := x\<rparr>
                         else vm)
              in poke (a + 12) (push_bit 2 (count + extra)) vm1)"

definition new_proxy :: "long \<Rightarrow> long \<Rightarrow> long \<Rightarrow> addr \<Rightarrow> vm \<Rightarrow> long \<times> vm" where
  "new_proxy uid owner count place vm =
     (let (pdata, vm1) = make_stob 15 24 vm;
          vm2 = set_vmem (store_cells (vmem vm1) (ADDRESS_AFTER_HEADER pdata)
                  [push_bit 2 uid, owner, 529, push_bit 2 count, 1, 25]) vm1
      in rejuvenate_proxy pdata (poke place pdata vm2))"

definition lookup_proxy :: "long \<Rightarrow> long \<Rightarrow> long \<Rightarrow> long \<Rightarrow> addr \<Rightarrow> addr \<Rightarrow> vm \<Rightarrow> long \<times> vm" where
  "lookup_proxy address_space aspace_uid uid count addr stob_start vm =
     (let m = vmem vm; proxy_vector = load m (ADDRESS_AFTER_HEADER address_space + 8);
          place = ADDRESS_AFTER_HEADER proxy_vector + sint (push_bit 2 uid); thing = load m place
      in if uid <s cell_count m proxy_vector
         then if stob_of_type m thing 15
              then let proxy = load m (ADDRESS_AFTER_HEADER (load m (ADDRESS_AFTER_HEADER thing + 16)));
                       vm1 = add_to_proxy_count thing count vm
                   in if stob_of_type (vmem vm1) proxy 14 then (proxy, vm1) else rejuvenate_proxy thing vm1
              else new_proxy uid address_space count place vm
         else add_pending aspace_uid uid (push_bit 2 count) addr stob_start vm)"

subsection \<open>Decoding a pointer\<close>

text \<open>
  The cells an identification with an owner takes become a byte vector, so that the
  message is a row of objects.
\<close>

definition decode_object :: "long \<Rightarrow> long \<Rightarrow> addr \<Rightarrow> addr \<Rightarrow> vm \<Rightarrow> long \<times> vm" where
  "decode_object thing address_space addr stob_start vm =
     (let info = sar 8 thing; kind = 63 AND sar 2 thing;
          d = SstartS vm + sint (- 4 + info); m = vmem vm;
          aspace_uid = sar 2 (load m d); uid = sar 2 (load m (d + 4)); count = sar 2 (load m (d + 8))
      in if kind = 0 then (stob_at (SstartS vm + sint info), vm)
         else if kind = 1 then decode_uid info address_space 1 addr stob_start vm
         else if kind = 2 then
           let vm1 = poke d 1106 vm; owner = lookup_uid (vmem vm1) 4 aspace_uid address_space
           in if stob_of_type (vmem vm1) owner 16 then decode_uid uid owner aspace_uid addr stob_start vm1
              else add_pending aspace_uid uid 1 addr stob_start vm1
         else
           let vm1 = poke d 2130 vm; owner = lookup_uid (vmem vm1) 4 aspace_uid address_space
           in if stob_of_type (vmem vm1) owner 16
              then lookup_proxy owner aspace_uid uid count addr stob_start vm1
              else add_pending aspace_uid uid (push_bit 2 count) addr stob_start vm1)"

subsection \<open>Decoding a message\<close>

partial_function (option) decode_stob_contents :: "long \<Rightarrow> addr \<Rightarrow> addr \<Rightarrow> addr \<Rightarrow> vm \<Rightarrow> vm option" where
  "decode_stob_contents address_space stob_start stop_at addr vm =
     (if addr = stop_at then Some vm
      else let thing = load (vmem vm) addr
           in if STOBP thing
              then case decode_object thing address_space addr stob_start vm of
                     (x, vm1) \<Rightarrow> decode_stob_contents address_space stob_start stop_at (addr + 4) (poke addr x vm1)
              else decode_stob_contents address_space stob_start stop_at (addr + 4) vm)"

declare decode_stob_contents.simps [code]

partial_function (option) decode_message_body :: "long \<Rightarrow> addr \<Rightarrow> addr \<Rightarrow> vm \<Rightarrow> vm option" where
  "decode_message_body address_space stop_at addr vm =
     (if addr < stop_at
      then let thing = load (vmem vm) addr; after = addr + 4 + header_span thing
           in Option.bind (if header_type thing < 19
                           then decode_stob_contents address_space (addr + 4) after (addr + 4) vm else Some vm)
                (\<lambda>vm1. decode_message_body address_space stop_at after vm1)
      else Some vm)"

declare decode_message_body.simps [code]

text \<open>
  The message without the cell for its length; the offsets in it count from the header. It is put
  into the byte order of the machine first, when the sender has the other one.
\<close>

definition start_decode :: "long \<Rightarrow> bool \<Rightarrow> vm \<Rightarrow> vm" where
  "start_decode message reverseP vm =
     (let a = ADDRESS_AFTER_HEADER message; start = a + (- 4);
          stop_at = a + header_span (stob_header (vmem vm) message);
          m = (if reverseP then reverse_cells (start + 4) stop_at (vmem vm) else vmem vm)
      in (set_vmem m vm)\<lparr>SstartS := start, Snew_uidsS := 25, Sbad_count_proxiesS := 25\<rparr>)"

text \<open>The header of the message is that of a byte vector of one cell afterwards.\<close>

definition decode :: "long \<Rightarrow> long \<Rightarrow> bool \<Rightarrow> vm \<Rightarrow> (long \<times> vm) option" where
  "decode message address_space reverseP vm =
     (let a = ADDRESS_AFTER_HEADER message; start = a + (- 4);
          stop_at = a + header_span (stob_header (vmem vm) message)
      in map_option (\<lambda>vm2. let vm3 = poke (a + (- 4)) 1106 vm2
                            in (stob_at (SstartS vm3 + sint (sar 8 (load (vmem vm3) (start + 4)))), vm3))
           (decode_message_body address_space stop_at (start + 8) (start_decode message reverseP vm)))"

text \<open>The result is a vector of four cells, of which three are set.\<close>

definition op_decode :: "host \<Rightarrow> vm \<Rightarrow> outcome option" where
  "op_decode os vm =
     Option.bind (need_space os (4 + word_of_int (header_span (stob_header (vmem vm) (SvalS vm)))) 0 vm) (\<lambda>(_, vm0).
       let (reverse, vm1) = pop vm0; (address_space, vm2) = pop vm1; message = SvalS vm2; m = vmem vm2
       in if stob_of_type m address_space 16 \<and> (reverse = 1 \<or> reverse = 5) \<and> stob_of_type m message 20
          then map_option (\<lambda>(thing, vm3).
                 let (v, vm4) = make_stob 2 16 vm3;
                     vm5 = set_vmem (store_cells (vmem vm4) (ADDRESS_AFTER_HEADER v)
                             [thing, Snew_uidsS vm3, Sbad_count_proxiesS vm3]) vm4
                 in goto_value 1 v vm5) (decode message address_space (reverse \<noteq> 1) vm2)
          else raise_exception 5 1 [address_space, reverse, message] vm2)"

end
