(* ===== verification/Vm_Run.thy ===== *)
theory Vm_Run
  imports Vm_Start Vm_Receive
begin

text \<open>
  The virtual machine as a whole (\<open>restart\<close> of \<open>src/c/scheme48vm.c\<close>): the byte codes in their
  order, the step from one label of the code to the next, and the run until the machine
  returns.
\<close>

text \<open>
  What is outside of the machine: the system and the files, the timer and the clocks, the look-up of
  the names of foreign procedures, and the byte code for extensions.
\<close>

record world =
  system :: host
  files :: io
  timer_ok :: "bool \<times> bool"
  clocks :: "vm \<Rightarrow> (long \<times> long) \<times> (long \<times> long)"
  lookup_name :: "addr \<Rightarrow> addr \<Rightarrow> memory \<Rightarrow> bool \<times> memory"
  extension :: "long \<Rightarrow> long \<Rightarrow> vm \<Rightarrow> (long \<times> vm) option"

definition control_codes :: "world \<Rightarrow> (vm \<Rightarrow> outcome option) list" where
  "control_codes w = (let os = system w in
     [op_protocol, op_make_env, op_literal, op_small_literal, op_local, op_local0, op_local1, op_local2,
      op_big_local, op_set_local, op_global, op_set_global, op_closure os, op_make_flat_env os, op_push,
      op_local0_push, op_push_local0, op_pop, op_stack_ref, op_stack_set, op_make_cont, op_make_big_cont,
      op_current_cont os, op_get_cont_from_heap, op_call os, op_big_call, op_move_args_and_call,
      op_apply os, op_closed_apply os, op_with_continuation, op_call_with_values, op_return, op_values os,
      op_closed_values os, op_ignore_values, op_goto_template, op_call_template os, op_jump_if_false,
      op_jump, op_computed_goto, op_binary_reduce1, op_binary_reduce2, op_binary_comparison_reduce2])"

definition scalar_codes :: "(vm \<Rightarrow> outcome option) list" where
  "scalar_codes =
     [op_eq, op_number, op_integer, op_rational, op_real, op_complex, op_exact, op_inexact, op_inexact,
      op_add, op_multiply, op_subtract, op_divide, op_equal, op_less, op_greater, op_less_equal,
      op_greater_equal, op_quotient, op_remainder, op_floor, op_numerator, op_denominator, op_real_part,
      op_imag_part] @ replicate 8 op_transcendental @
     [op_angle, op_magnitude, op_binary_inexact, op_binary_inexact, op_binary_inexact, op_bitwise_not,
      op_bitwise_and, op_bitwise_ior, op_bitwise_xor, op_arithmetic_shift, op_char, op_char_equal,
      op_char_less, op_char_to_ascii, op_ascii_to_char, op_eof_object_p]"

definition data_codes :: "world \<Rightarrow> (vm \<Rightarrow> outcome option) list" where
  "data_codes w = (let os = system w in
     [op_stored_object_has_type, op_stored_object_length, op_make_stored_object os,
      op_closed_make_stored_object os, op_stored_object_ref, op_stored_object_set, op_make_vector_object os,
      op_stored_object_indexed_ref, op_stored_object_indexed_set, op_untyped_indexed_set,
      op_make_code_vector os, op_code_vector_length, op_code_vector_ref, op_code_vector_set,
      op_make_string os, op_string_length, op_string_ref, op_string_set, op_location_defined,
      op_set_location_defined, op_immutable, op_make_immutable])"

definition system_codes :: "world \<Rightarrow> (vm \<Rightarrow> outcome option) list" where
  "system_codes w = (let os = system w; io = files w in
     [op_open_channel os io, op_close_channel os, op_channel_maybe_read os io, op_channel_maybe_write os io,
      op_channel_abort, op_proxy_has_local_value, op_proxy_local_ref, op_unassigned, op_unspecific, op_trap,
      op_false, op_eof_object, op_write_image os io, op_collect os, op_add_finalizer os, op_memory_status os,
      op_find_all os, op_find_all_symbols os, op_find_all_records os, op_current_thread,
      op_set_current_thread, op_session_data, op_set_session_data, op_set_exception_handlers,
      op_return_from_exception, op_set_interrupt_handlers, op_set_enabled_interrupts,
      op_return_from_interrupt, op_schedule_interrupt, op_wait (timer_ok w) os,
      op_external_lookup (lookup_name w), op_external_call,
      (\<lambda>vm. op_time (fst (clocks w vm)) (snd (clocks w vm)) vm),
      op_vm_extension (extension w), op_vm_return, op_encode os, op_decode os])"

definition library_codes :: "world \<Rightarrow> (vm \<Rightarrow> outcome option) list" where
  "library_codes w = (let os = system w in
     [op_string_equal, op_string_hash, op_reverse_list_to_string os, op_intern os, op_assq,
      op_checked_record_ref, op_checked_record_set, op_copy_bytes, op_read_char, op_peek_char,
      op_write_char, op_message])"

definition byte_codes :: "world \<Rightarrow> (vm \<Rightarrow> outcome option) list" where
  "byte_codes w = control_codes w @ scalar_codes @ data_codes w @ system_codes w @ library_codes w"

lemma length_byte_codes [simp]: "length (byte_codes w) = 163"
  by (simp add: byte_codes_def control_codes_def scalar_codes_def data_codes_def system_codes_def
      library_codes_def Let_def)

definition execute :: "world \<Rightarrow> vm \<Rightarrow> outcome option" where
  "execute w vm =
     (let i = unat (vmem vm (Scode_pointerS vm)) in if i < 163 then (byte_codes w ! i) vm else None)"

text \<open>One step: from one of the labels to the next. At \<open>L20076\<close> with the option 0 the machine returns.\<close>

fun step :: "world \<Rightarrow> outcome \<Rightarrow> outcome option" where
  "step w (Dispatch vm) = execute w vm"
| "step w (Raise nargs vm) = handle_exception nargs vm"
| "step w (Apply nargs vm) = apply_closure (system w) nargs vm"
| "step w (Apply_list nstack l nlist vm) = apply_to_list (system w) nstack l nlist vm"
| "step w (Bad_call exception nargs l nlist vm) = bad_call (system w) exception nargs l nlist vm"
| "step w (Interrupt nargs vm) = handle_interrupt nargs vm"
| "step w (Leave option vm) = leave (system w) option vm"

partial_function (option) run :: "world \<Rightarrow> outcome \<Rightarrow> (long \<times> vm) option" where
  "run w out =
     (case out of Leave option vm \<Rightarrow>
        if option = 0 then Some (SvalS vm, vm) else Option.bind (step w out) (run w)
      | _ \<Rightarrow> Option.bind (step w out) (run w))"

declare run.simps [code]

definition restart :: "world \<Rightarrow> long \<Rightarrow> vm \<Rightarrow> (long \<times> vm) option" where
  "restart w value vm = run w (Dispatch (vm\<lparr>SvalS := value\<rparr>))"

text \<open>From the start of the machine to its end.\<close>

definition start_machine :: "world \<Rightarrow> streams \<Rightarrow> bool \<Rightarrow> long \<Rightarrow> byte list list \<Rightarrow> vm \<Rightarrow> (long \<times> vm) option" where
  "start_machine w std malloc_ok proc args vm =
     Option.bind (call_startup_procedure std malloc_ok proc args vm) (restart w proc)"

end
