(* ===== verification/Vm_Continuations_Facts.thy ===== *)
theory Vm_Continuations_Facts
  imports Vm_Continuations Longs
begin

text \<open>
  Continuations (\<open>src/c/scheme48vm.c\<close>): a frame pushed by \<open>push_continuationB\<close> is put back by
  \<open>pop_continuationB\<close>, whatever the machine did in between that left the frame alone.
\<close>

text \<open>Where the cells of the frame are, and what is in them.\<close>

lemma poked_frame:
  fixes code nargs
  assumes "16 \<le> SstackS vm" "SstackS vm < 4294967292"
  defines "vm1 \<equiv> push_continuationB code nargs vm" and "s \<equiv> SstackS vm"
  shows "ScontS vm1 = stob_at (s - 12)" "ADDRESS_AFTER_HEADER (ScontS vm1) = s - 12"
    "load (vmem vm1) (s - 12) = ScontS vm" 
    "load (vmem vm1) (s - 8) = push_bit 2 (word_of_int (code - template_code (vmem vm) (StemplateS vm)))"
    "load (vmem vm1) (s - 4) = StemplateS vm" "load (vmem vm1) s = SenvS vm"
  using assms by (simp_all add: push_continuationB_def Let_def load_store_other)

text \<open>
  Property C11. A continuation comes back: when the registers are saved in a frame and later the
  continuation register points to this frame again and its cells are as they were pushed, then
  popping it restores the template, the code pointer, the environment, the continuation and
  the stack pointer from before, if the offset of the code pointer in the code is a fixnum and the
  template still has its code at the same place.
\<close>

theorem continuation_roundtrip:
  assumes "16 \<le> SstackS vm" "SstackS vm < 4294967292"
    and "fixnum_range (code - template_code (vmem vm) (StemplateS vm))"
    and "ScontS vm' = ScontS (push_continuationB code nargs vm)"
    and "\<forall>a. SstackS vm - 16 \<le> a \<and> a < SstackS vm + 4 \<longrightarrow> vmem vm' a = vmem (push_continuationB code nargs vm) a"
    and "template_code (vmem vm') (StemplateS vm) = template_code (vmem vm) (StemplateS vm)"
  shows "pop_continuationB vm' = vm'\<lparr>StemplateS := StemplateS vm, Scode_pointerS := code,
           SenvS := SenvS vm, ScontS := ScontS vm, SstackS := SstackS vm\<rparr>"
proof -
  define s where "s = SstackS vm"
  have "load (vmem vm') (s + i) = load (vmem (push_continuationB code nargs vm)) (s + i)" if "- 16 \<le> i" "i \<le> 0" for i
    using that assms(5) by (intro load_cong) (auto simp: s_def add.assoc)
  from this [of "- 12"] this [of "- 8"] this [of "- 4"] this [of 0]
  have "load (vmem vm') (s - 12) = ScontS vm" "load (vmem vm') (s - 4) = StemplateS vm"
    "load (vmem vm') (s - 8) = push_bit 2 (word_of_int (code - template_code (vmem vm) (StemplateS vm)))"
    "load (vmem vm') s = SenvS vm"
    using poked_frame [OF assms(1,2), of code nargs] by (simp_all add: s_def)
  then show ?thesis
    using assms(3,4,6) poked_frame(2) [OF assms(1,2), of code nargs]
    by (simp add: pop_continuationB_def Let_def s_def sar_push2 sint_of_long fixnum_range_long del: of_int_diff)
qed

lemma continuation_roundtrip_witness:
  "let vm = (vm_zero (heap_zero (\<lambda>_. 0)) events_init)\<lparr>SstackS := 1000, StemplateS := 2003, SenvS := 13, ScontS := 1\<rparr>;
       vm' = (push_continuationB 4294967295 2 vm)\<lparr>SstackS := 500, SvalS := 20\<rparr>
   in pop_continuationB vm' = vm'\<lparr>StemplateS := 2003, Scode_pointerS := 4294967295, SenvS := 13, ScontS := 1, SstackS := 1000\<rparr>"
proof -
  define vm where "vm = (vm_zero (heap_zero (\<lambda>_. 0)) events_init)\<lparr>SstackS := 1000, StemplateS := 2003, SenvS := 13, ScontS := 1\<rparr>"
  define vm' where "vm' = (push_continuationB 4294967295 2 vm)\<lparr>SstackS := 500, SvalS := 20\<rparr>"
  have r: "vmem vm = (\<lambda>_. 0)" "SstackS vm = 1000" "StemplateS vm = 2003" "SenvS vm = 13" "ScontS vm = 1"
    by (simp_all add: vm_def vm_zero_def heap_zero_def)
  have z: "load (\<lambda>_. 0) a = 0" for a by (simp add: load_def)
  have "vmem vm' = vmem (push_continuationB 4294967295 2 vm)" by (simp add: vm'_def)
  moreover have "load (vmem (push_continuationB 4294967295 2 vm)) 2000 = load (vmem vm) 2000"
    by (simp add: push_continuationB_def Let_def r load_store_other)
  ultimately have t: "template_code (vmem vm) 2003 = 4294967293" "template_code (vmem vm') 2003 = 4294967293"
    by (simp_all add: template_code_def ADDRESS_AFTER_HEADER_def r z)
  have "pop_continuationB vm' = vm'\<lparr>StemplateS := StemplateS vm, Scode_pointerS := 4294967295,
      SenvS := SenvS vm, ScontS := ScontS vm, SstackS := SstackS vm\<rparr>"
    by (rule continuation_roundtrip [where code = 4294967295 and nargs = 2])
      (simp_all add: t [unfolded r] r fixnum_range_def, simp_all add: vm'_def)
  then have "pop_continuationB vm' = vm'\<lparr>StemplateS := 2003, Scode_pointerS := 4294967295,
      SenvS := 13, ScontS := 1, SstackS := 1000\<rparr>" by (simp only: r)
  then show ?thesis by (simp add: vm_def vm'_def Let_def)
qed

end
