(* ===== verification/Vm_Calls_Facts.thy ===== *)
theory Vm_Calls_Facts
  imports Vm_Control Longs
begin

text \<open>
  Calls (\<open>src/c/scheme48vm.c\<close>): the byte code \<open>call\<close> has a fast path of its own for procedures
  with a fixed number of arguments; it does what the general application does.
\<close>

text \<open>A call up to the entry of the procedure, when an application is due.\<close>


definition applied :: "host \<Rightarrow> outcome \<Rightarrow> outcome option" where
  "applied os out = (case out of Apply nargs vm \<Rightarrow> apply_closure os nargs vm | _ \<Rightarrow> Some out)"

lemma stack_room_64:
  assumes "Sstack_limitS vm + 4 \<le> SstackS vm" "SstackS vm - Sstack_limitS vm < 2147483648"
  shows "stack_room vm 64"
proof -
  define d where "d = SstackS vm - Sstack_limitS vm"
  have "sint (word_of_int d :: long) = d" "4 \<le> d"
    using assms by (simp_all add: d_def sint_of_long del: of_int_diff)
  then have s: "sint (sar 2 (word_of_int d :: long)) = d div 4" by (simp add: sint_sar)
  have "sint (64 + sar 2 (word_of_int d :: long)) = 64 + d div 4"
  proof -
    have "64 + sar 2 (word_of_int d :: long) = word_of_int (64 + d div 4)"
      using s by (metis long_of_sint of_int_add of_int_numeral)
    then show ?thesis
      using assms \<open>4 \<le> d\<close> by (simp add: sint_of_long d_def del: of_int_add)
  qed
  then show ?thesis using \<open>4 \<le> d\<close> by (simp add: stack_room_def word_sless_alt d_def)
qed

lemma real_protocol_fixed: "protocol \<noteq> 66 \<Longrightarrow> real_protocol m code protocol space = Some (protocol, space)"
  by (simp add: real_protocol.simps)

lemma byte_sint: "sint (ucast (b :: byte) :: long) = uint b"
proof -
  have u: "uint (ucast b :: long) = uint b" by (simp add: uint_up_ucast is_up)
  have "uint b < 256" by (rule order_less_le_trans [OF uint_lt2p]) simp
  then have "uint (ucast b :: long) < 2147483648" by (simp only: u)
  then show ?thesis by (simp only: sint_small u)
qed

lemma dispatch_applied:
  "Option.bind (interrupt_or_dispatch os n vm) (applied os) = interrupt_or_dispatch os n vm"
  by (cases "poll_interrupts os vm") (auto simp: interrupt_or_dispatch_def applied_def)

lemma env_after_code: "v\<lparr>SenvS := e, Scode_pointerS := c\<rparr> = v\<lparr>Scode_pointerS := c, SenvS := e\<rparr>"
  by simp

lemma small_protocol:
  assumes "n <s (64 :: long)" "\<not> n <s 0"
  shows "n \<noteq> 64" "n \<noteq> 65" "n \<noteq> 66" "n \<noteq> 67" "n \<noteq> 68" "\<not> 63 <s n"
  using assms by (auto simp: word_sless_alt)


text \<open>
  Property C12. The fast path of \<open>call\<close> is the general one: with fewer than 64 arguments and a free
  cell above the limit of the stack, \<open>op_call\<close> followed by the application it may ask for leads to
  the same outcome as applying the value to the arguments by their protocol; what is no closure, a
  wrong number of arguments and an interrupt included.
\<close>

theorem op_call_is_apply:
  assumes few: "code_byte vm 1 <s 64" 
    and room: "Sstack_limitS vm + 4 \<le> SstackS vm" "SstackS vm - Sstack_limitS vm < 2147483648"
  shows "Option.bind (op_call os vm) (applied os) = Option.bind (call_val (code_byte vm 1) vm) (applied os)"
proof (cases "closureP (vmem vm) (SvalS vm) \<and> code_byte vm 1 = byte_at (vmem vm) (val_code vm) 1")
  case False
  then show ?thesis by (auto simp: op_call_def call_val_def val_code_def Let_def)
next
  case True
  define n where "n = code_byte vm 1"
  have "\<not> n <s 0" by (simp add: n_def code_byte_def word_sless_alt byte_sint)
  note small = small_protocol [OF few [folded n_def] this]
  have "stack_room v 64" if "SstackS v = SstackS vm" "Sstack_limitS v = Sstack_limitS vm" for v
    using stack_room_64 [of v] room that by simp
  then have "apply_closure os n vm = op_call os vm" "Option.bind (op_call os vm) (applied os) = op_call os vm"
    using True room small
    by (simp_all add: apply_closure_def op_call_def enter_closure_def real_protocol_fixed val_code_def template_code_def
        make_stack_room_def Let_def dispatch_applied env_after_code flip: n_def)
  then show ?thesis using True by (simp add: call_val_def applied_def flip: n_def)
qed


text \<open>A closure of two arguments, its template and its code, and the instruction that calls it.\<close>

definition demo_call :: vm where
  "demo_call = (vm_zero (heap_zero (store_cells (\<lambda>a. if a = 401 \<or> a = 305 then 2 else 0) 100
     ([2062, 207, 13] @ replicate 22 0 @ [4142, 307]))) events_init)
     \<lparr>SstackS := 1000, Sstack_limitS := 500, SvalS := 107, Scode_pointerS := 400\<rparr>"

lemma op_call_is_apply_witness:
  "\<forall>os. Option.bind (call_val 2 demo_call) (applied os) =
     Some (Dispatch (demo_call\<lparr>StemplateS := 207, Scode_pointerS := 306, SenvS := 13\<rparr>))"
proof
  fix os
  have m: "code_byte demo_call 1 = 2" "closureP (vmem demo_call) 107" "load (vmem demo_call) 104 = 207"
    "load (vmem demo_call) 108 = 13" "load (vmem demo_call) 204 = 307" "byte_at (vmem demo_call) 307 1 = 2"
    by code_simp+
  have r: "SvalS demo_call = 107" "SstackS demo_call = 1000" "Sstack_limitS demo_call = 500"
    "\<not> Spending_interruptPS (vevents demo_call)"
    by (simp_all add: demo_call_def vm_zero_def events_init_def)
  have "op_call os demo_call = Some (Dispatch (demo_call\<lparr>StemplateS := 207, Scode_pointerS := 306, SenvS := 13\<rparr>))"
    using m r by (simp add: op_call_def Let_def make_stack_room_def interrupt_or_dispatch_def poll_interrupts_def
        ADDRESS_AFTER_HEADER_def)
  then show "Option.bind (call_val 2 demo_call) (applied os) =
      Some (Dispatch (demo_call\<lparr>StemplateS := 207, Scode_pointerS := 306, SenvS := 13\<rparr>))"
    using op_call_is_apply [of demo_call os] m r by (simp add: applied_def)
qed

end
