(* ===== verification/Vm_Interrupts_Facts.thy ===== *)
theory Vm_Interrupts_Facts
  imports Vm_Run Vm_Continuations_Facts
begin

unbundle bit_operations_syntax

text \<open>
  Events and interrupts (\<open>src/c/scheme48vm.c\<close>): no event is forgotten when they are taken in, the
  answer of \<open>check_events\<close> is right, the interrupt of the highest priority is handled, and the
  machine goes on after the handler as if it had not been interrupted.
\<close>

subsection \<open>Taking in events\<close>

lemma vm_say_fields [simp]:
  "vevents (vm_say line vm) = vevents vm" "Spending_interruptsS (vm_say line vm) = Spending_interruptsS vm"
  "Senabled_interruptsS (vm_say line vm) = Senabled_interruptsS vm"
  by (simp_all add: vm_say_def)

lemma poke_fields [simp]:
  "vevents (poke a v vm) = vevents vm" "Spending_interruptsS (poke a v vm) = Spending_interruptsS vm"
  "Senabled_interruptsS (poke a v vm) = Senabled_interruptsS vm"
  by (simp_all add: poke_def set_vmem_def)

lemma enqueue_channel_fields [simp]:
  "vevents (enqueue_channel i st vm) = vevents vm"
  "Spending_interruptsS (enqueue_channel i st vm) = Spending_interruptsS vm"
  "Senabled_interruptsS (enqueue_channel i st vm) = Senabled_interruptsS vm"
  by (simp_all add: enqueue_channel_def set_channel_next_def Let_def)

text \<open>The interrupt an event makes pending.\<close>

fun event_bits :: "event_enum \<Rightarrow> long" where
  "event_bits ALARM_EVENT = 1"
| "event_bits KEYBOARD_INTERRUPT_EVENT = 2"
| "event_bits (IO_COMPLETION_EVENT index) = 8"
| "event_bits _ = 0"

lemma note_event_type_fields [simp]:
  "fst (note_event_type os e vm) = event_bits e"
  "vevents (snd (note_event_type os e vm)) = vevents vm"
  "Spending_interruptsS (snd (note_event_type os e vm)) = Spending_interruptsS vm"
  "Senabled_interruptsS (snd (note_event_type os e vm)) = Senabled_interruptsS vm"
  by (cases e; simp add: note_event_type_def)+

lemma set_interrupt_flag_fields [simp]:
  "Spending_interruptsS (set_interrupt_flag vm) = Spending_interruptsS vm"
  "Senabled_interruptsS (set_interrupt_flag vm) = Senabled_interruptsS vm"
  "Spending_channels_headS (set_interrupt_flag vm) = Spending_channels_headS vm"
  "Sinterrupt_handlersS (set_interrupt_flag vm) = Sinterrupt_handlersS vm"
  "vmem (set_interrupt_flag vm) = vmem vm" "ScontS (set_interrupt_flag vm) = ScontS vm"
  "vevents (set_interrupt_flag vm) = (vevents vm)\<lparr>Spending_interruptPS :=
     Spending_interruptsS vm AND Senabled_interruptsS vm \<noteq> 0 \<or> Spending_eventsPS (vevents vm)\<rparr>"
  by (simp_all add: set_interrupt_flag_def Let_def)

text \<open>One turn of the loop.\<close>

definition take_in :: "host \<Rightarrow> event_enum \<Rightarrow> events \<Rightarrow> vm \<Rightarrow> vm" where
  "take_in os e ev vm =
     (let (bits, vm1) = note_event_type os e (vm\<lparr>vevents := ev\<rparr>)
      in vm1\<lparr>Spending_interruptsS := bits OR Spending_interruptsS vm1\<rparr>)"

lemma take_in_fields [simp]:
  "Spending_interruptsS (take_in os e ev vm) = event_bits e OR Spending_interruptsS vm"
  "Senabled_interruptsS (take_in os e ev vm) = Senabled_interruptsS vm"
  "vevents (take_in os e ev vm) = ev"
  by (cases "note_event_type os e (vm\<lparr>vevents := ev\<rparr>)";
      use note_event_type_fields [of os e "vm\<lparr>vevents := ev\<rparr>"] in \<open>simp add: take_in_def\<close>)+

lemma check_events_turn:
  "check_events os vm =
     Option.bind (get_next_event (select_fds os) (vevents vm)) (\<lambda>(e, ev).
       if e \<noteq> NO_EVENT then check_events os (take_in os e ev vm)
       else let vm1 = set_interrupt_flag (take_in os e ev vm)
            in if Spending_interruptPS (vevents vm1)
               then if Spending_eventsPS (vevents vm1) then check_events os (clear_events vm1)
                    else Some (True, vm1)
               else Some (False, vm1))"
  by (subst check_events.simps) (simp only: take_in_def Let_def case_prod_beta cong: if_cong)

lemma or_absorbed: "(b OR p) OR q = q \<Longrightarrow> p OR q = (q :: long)"
proof -
  assume q: "(b OR p) OR q = q"
  have "p OR ((b OR p) OR q) = (b OR p) OR q" by (simp add: or.left_commute or.assoc)
  then show ?thesis by (simp only: q)
qed

text \<open>
  After \<open>check_events\<close>: the answer says whether an enabled interrupt is pending, the flag agrees with
  it, no event is left, and what was pending still is.
\<close>

definition events_in :: "vm \<Rightarrow> bool \<Rightarrow> vm \<Rightarrow> bool" where
  "events_in vm b vm' \<longleftrightarrow>
     (b \<longleftrightarrow> Spending_interruptsS vm' AND Senabled_interruptsS vm' \<noteq> 0) \<and>
     Spending_interruptPS (vevents vm') = b \<and> \<not> Spending_eventsPS (vevents vm') \<and>
     Senabled_interruptsS vm' = Senabled_interruptsS vm \<and>
     Spending_interruptsS vm OR Spending_interruptsS vm' = Spending_interruptsS vm'"

lemma check_events_in:
  assumes "check_events os vm = Some (b, vm')"
  shows "events_in vm b vm'"
proof -
  have "check_events os vm = Some r \<Longrightarrow> events_in vm (fst r) (snd r)" for r
  proof (rule check_events.raw_induct [where P = "\<lambda>os vm r. events_in vm (fst r) (snd r)"])
    fix f :: "host \<Rightarrow> vm \<Rightarrow> (bool \<times> vm) option" and os vm r
    assume IH: "\<And>os vm r. f os vm = Some r \<Longrightarrow> events_in vm (fst r) (snd r)"
    assume "Option.bind (get_next_event (select_fds os) (vevents vm)) (\<lambda>(type, ev).
       let (bits, vm1) = note_event_type os type (vm\<lparr>vevents := ev\<rparr>);
           vm2 = vm1\<lparr>Spending_interruptsS := bits OR Spending_interruptsS vm1\<rparr>
       in if type \<noteq> NO_EVENT then f os vm2
          else let vm3 = set_interrupt_flag vm2
               in if Spending_interruptPS (vevents vm3)
                  then if Spending_eventsPS (vevents vm3) then f os (clear_events vm3)
                       else Some (True, vm3)
                  else Some (False, vm3)) = Some r"
    then obtain e ev where "(if e \<noteq> NO_EVENT then f os (take_in os e ev vm)
            else let vm1 = set_interrupt_flag (take_in os e ev vm)
            in if Spending_interruptPS (vevents vm1)
               then if Spending_eventsPS (vevents vm1) then f os (clear_events vm1)
                    else Some (True, vm1)
               else Some (False, vm1)) = Some r"
      by (auto simp: bind_eq_Some_conv take_in_def Let_def case_prod_beta cong: if_cong)
    then show "events_in vm (fst r) (snd r)"
      using IH [of os "take_in os e ev vm" r] IH [of os "clear_events (set_interrupt_flag (take_in os e ev vm))" r]
      by (auto simp: events_in_def Let_def clear_events_def split: if_splits dest: or_absorbed)
  qed assumption
  from this [OF assms] show ?thesis by simp
qed

text \<open>The events there are until there is none, with what is left of them.\<close>

inductive events_seen :: "select_call \<Rightarrow> events \<Rightarrow> event_enum list \<Rightarrow> events \<Rightarrow> bool" where
  no_more: "get_next_event f ev = Some (NO_EVENT, ev') \<Longrightarrow> events_seen f ev [] ev'"
| one_more: "get_next_event f ev = Some (e, ev1) \<Longrightarrow> e \<noteq> NO_EVENT \<Longrightarrow> events_seen f ev1 es ev' \<Longrightarrow>
    events_seen f ev (e # es) ev'"

lemma check_events_all:
  assumes "events_seen f ev es ev'"
  shows "f = select_fds os \<Longrightarrow> ev = vevents vm \<Longrightarrow> \<not> Spending_eventsPS ev' \<Longrightarrow>
    \<exists>b vm'. check_events os vm = Some (b, vm') \<and>
      Spending_interruptsS vm' = foldl (\<lambda>n e. event_bits e OR n) (Spending_interruptsS vm) es \<and>
      vevents vm' = ev'\<lparr>Spending_interruptPS := b\<rparr>"
  using assms
proof (induction arbitrary: vm)
  case (no_more f ev ev')
  then show ?case
    by (subst check_events_turn) (auto simp: Let_def)
next
  case (one_more f ev e ev1 es ev')
  then show ?case
    using one_more.IH [of "take_in os e ev1 vm"] by (subst check_events_turn) simp
qed

text \<open>
  Property C13. Whenever \<open>check_events\<close> returns, all events have been taken in, no pending
  interrupt has been lost, and the answer and the flag tell whether an enabled interrupt is pending;
  and it does return, with the bits of exactly the events there were, when \<open>get_next_event\<close> comes to
  the end of the events and no signal has arrived since.
\<close>

theorem check_events_notes:
  "(\<forall>b vm'. check_events os vm = Some (b, vm') \<longrightarrow> events_in vm b vm') \<and>
   (\<forall>es ev'. events_seen (select_fds os) (vevents vm) es ev' \<and> \<not> Spending_eventsPS ev' \<longrightarrow>
     (\<exists>b vm'. check_events os vm = Some (b, vm') \<and>
        Spending_interruptsS vm' = foldl (\<lambda>n e. event_bits e OR n) (Spending_interruptsS vm) es \<and>
        vevents vm' = ev'\<lparr>Spending_interruptPS := b\<rparr>))"
  using check_events_in check_events_all by blast

lemma check_events_notes_witness:
  "\<forall>os :: host. let vm = (vm_zero (heap_zero (\<lambda>_. 0)) (events_init\<lparr>keyboard_interrupt_count := 1\<rparr>))\<lparr>Senabled_interruptsS := 6\<rparr>
   in \<exists>vm'. check_events os vm = Some (True, vm') \<and> Spending_interruptsS vm' = 2 \<and>
        Spending_interruptPS (vevents vm') \<and> \<not> Spending_eventsPS (vevents vm')"
proof
  fix os :: host
  define ev where "ev = events_init\<lparr>keyboard_interrupt_count := 1\<rparr>"
  define vm where "vm = (vm_zero (heap_zero (\<lambda>_. 0)) ev)\<lparr>Senabled_interruptsS := 6\<rparr>"
  have r: "vevents vm = ev" "Spending_interruptsS vm = 0" "Senabled_interruptsS vm = 6"
    by (simp_all add: vm_def vm_zero_def)
  have "0 <s (1 :: long)" by code_simp
  then have "get_next_event f ev = Some (KEYBOARD_INTERRUPT_EVENT, events_init)" for f
    by (simp add: ev_def get_next_event_def events_init_def)
  moreover have "\<exists>ev'. get_next_event f events_init = Some (NO_EVENT, ev') \<and> \<not> Spending_eventsPS ev'" for f
    by (simp add: get_next_event_def events_init_def next_event_after_poll_def there_are_ready_ports_def
        quiet_def)
  ultimately obtain ev' where "events_seen (select_fds os) (vevents vm) [KEYBOARD_INTERRUPT_EVENT] ev'"
    and e: "\<not> Spending_eventsPS ev'"
    unfolding r by (meson event_enum.simps one_more no_more)
  then have "\<exists>b vm'. check_events os vm = Some (b, vm') \<and>
      Spending_interruptsS vm' = foldl (\<lambda>n e. event_bits e OR n) (Spending_interruptsS vm) [KEYBOARD_INTERRUPT_EVENT] \<and>
      vevents vm' = ev'\<lparr>Spending_interruptPS := b\<rparr>"
    using check_events_notes [of os vm] by blast
  then obtain b vm' where c: "check_events os vm = Some (b, vm')" and p: "Spending_interruptsS vm' = 2"
    by (auto simp: r)
  have i: "events_in vm b vm'" using check_events_notes [of os vm] c by blast
  have "(2 :: long) AND 6 \<noteq> 0" by code_simp
  then have "b" using i p by (simp add: events_in_def r)
  then have "\<exists>vm'. check_events os vm = Some (True, vm') \<and> Spending_interruptsS vm' = 2 \<and>
        Spending_interruptPS (vevents vm') \<and> \<not> Spending_eventsPS (vevents vm')"
    using c p i by (auto simp: events_in_def)
  then show "let vm = (vm_zero (heap_zero (\<lambda>_. 0)) (events_init\<lparr>keyboard_interrupt_count := 1\<rparr>))\<lparr>Senabled_interruptsS := 6\<rparr>
   in \<exists>vm'. check_events os vm = Some (True, vm') \<and> Spending_interruptsS vm' = 2 \<and>
        Spending_interruptPS (vevents vm') \<and> \<not> Spending_eventsPS (vevents vm')"
    by (simp add: Let_def vm_def ev_def)
qed


subsection \<open>Handling an interrupt\<close>

text \<open>The search finds the lowest bit that is set.\<close>

lemma lowest_bit_from:
  assumes "bit (n :: long) k" "\<forall>j<k. \<not> bit n j" "i \<le> k"
  shows "lowest_bit n (of_nat i) (push_bit i 1) = Some (of_nat k, push_bit k 1)"
  using assms(3)
proof (induction rule: inc_induct)
  case base
  then show ?case using assms(1) by (subst lowest_bit.simps) (simp add: and_exp_eq_0_iff_not_bit)
next
  case (step i)
  have "push_bit 1 (push_bit i 1) = (push_bit (Suc i) 1 :: long)" by (simp add: push_bit_push_bit)
  then show ?case using assms(2) step by (subst lowest_bit.simps) (simp add: and_exp_eq_0_iff_not_bit mult.commute)
qed

lemma lowest_bit_Least:
  assumes "(n :: long) \<noteq> 0"
  obtains k where "lowest_bit n 0 1 = Some (of_nat k, push_bit k 1)" "bit n k" "\<forall>j<k. \<not> bit n j" "k < 32"
proof -
  define k where "k = (LEAST k. bit n k)"
  have "\<exists>k. bit n k" using assms by (metis bit_eq_iff bit_0_eq bot_apply bot_bool_def)
  then have k: "bit n k" "\<forall>j<k. \<not> bit n j"
    unfolding k_def by (rule LeastI_ex, blast dest: not_less_Least [of _ "bit n"])
  then show ?thesis using that lowest_bit_from [of n k 0] bit_imp_le_length [OF k(1)] by simp
qed

lemma handle_interrupt_eq:
  assumes "n = Spending_interruptsS vm AND Senabled_interruptsS vm" "n \<noteq> 0"
  obtains k where "bit n k" "\<forall>j<k. \<not> bit n j" "k < 32"
    "handle_interrupt nargs vm =
      (let vm1 = saved_for_interrupt nargs vm;
           (argc, vm2) = push_interrupt_args (of_nat k)
             (vm1\<lparr>Spending_interruptsS := Spending_interruptsS vm AND NOT (push_bit k 1)\<rparr>);
           vm3 = set_interrupt_flag (vm2\<lparr>Senabled_interruptsS := 0\<rparr>);
           proc = load (vmem vm3) (ADDRESS_AFTER_HEADER (Sinterrupt_handlersS vm3) + 4 * int k)
       in if stob_of_type (vmem vm2) (Sinterrupt_handlersS vm2) 2 \<and> closureP (vmem vm3) proc
          then Some (Apply argc (vm3\<lparr>SvalS := proc, StemplateS := proc, Slosing_opcodeS := 0 - of_nat k\<rparr>))
          else None)"
proof -
  obtain k where k: "lowest_bit n 0 1 = Some (of_nat k, push_bit k 1)" "bit n k" "\<forall>j<k. \<not> bit n j" "k < 32"
    using lowest_bit_Least [OF assms(2)] .
  have s: "Spending_interruptsS (saved_for_interrupt nargs vm) = Spending_interruptsS vm"
     "Senabled_interruptsS (saved_for_interrupt nargs vm) = Senabled_interruptsS vm"
    by (simp_all add: saved_for_interrupt_def Let_def push_continuationB_def push_all_def push_def poke_def set_vmem_def)
  have "uint (of_nat k :: long) = int k" using k(4) by (simp add: unsigned_of_nat take_bit_nat_eq_self)
  then have p: "sint (push_bit 2 (of_nat k :: long)) = 4 * int k"
    using k(4) by (subst sint_small) (simp_all add: uint_push_bit2)
  show thesis
  proof (rule that [OF k(2-4)])
    show "handle_interrupt nargs vm =
      (let vm1 = saved_for_interrupt nargs vm;
           (argc, vm2) = push_interrupt_args (of_nat k)
             (vm1\<lparr>Spending_interruptsS := Spending_interruptsS vm AND NOT (push_bit k 1)\<rparr>);
           vm3 = set_interrupt_flag (vm2\<lparr>Senabled_interruptsS := 0\<rparr>);
           proc = load (vmem vm3) (ADDRESS_AFTER_HEADER (Sinterrupt_handlersS vm3) + 4 * int k)
       in if stob_of_type (vmem vm2) (Sinterrupt_handlersS vm2) 2 \<and> closureP (vmem vm3) proc
          then Some (Apply argc (vm3\<lparr>SvalS := proc, StemplateS := proc, Slosing_opcodeS := 0 - of_nat k\<rparr>))
          else None)"
      by (simp only: handle_interrupt_def Let_def s k(1) p assms(1) [symmetric] Option.bind.bind_lunit prod.case)
  qed
qed

lemma push_fields [simp]:
  "SstackS (push x vm) = SstackS vm - 4" "vmem (push x vm) = store (vmem vm) (SstackS vm) x"
  "ScontS (push x vm) = ScontS vm" "SenvS (push x vm) = SenvS vm" "StemplateS (push x vm) = StemplateS vm"
  "Sinterrupt_templateS (push x vm) = Sinterrupt_templateS vm"
  by (simp_all add: push_def poke_def set_vmem_def)

text \<open>What the arguments of a handler change: the stack below, and the first channel in the queue.\<close>

lemma push_interrupt_args_frame:
  assumes "push_interrupt_args i vm = (argc, vm')"
    and "SstackS vm + 4 \<le> a" "ADDRESS_AFTER_HEADER (Spending_channels_headS vm) + 12 + 4 \<le> a \<or>
         a < ADDRESS_AFTER_HEADER (Spending_channels_headS vm) + 12"
  shows "vmem vm' a = vmem vm a"
  using assms
  by (auto simp: push_interrupt_args_def next_channel_def dequeue_channel_def set_channel_next_def Let_def set_interrupt_flag_def
      store_byte_other poke_def set_vmem_def split: if_splits)

lemma push_interrupt_args_ScontS: "ScontS (snd (push_interrupt_args i vm)) = ScontS vm"
  by (simp add: push_interrupt_args_def next_channel_def dequeue_channel_def set_channel_next_def Let_def
      set_interrupt_flag_def poke_def set_vmem_def)


subsection \<open>Returning from an interrupt\<close>

lemma byte_codes_lengths:
  "length (control_codes w) = 43" "length scalar_codes = 49" "length (data_codes w) = 22"
  by (simp_all add: control_codes_def scalar_codes_def data_codes_def Let_def)

lemma byte_code_34: "byte_codes w ! 34 = op_ignore_values"
  by (simp add: byte_codes_def nth_append byte_codes_lengths) (simp add: control_codes_def Let_def)

lemma byte_code_141: "byte_codes w ! 141 = op_return_from_interrupt"
  by (simp add: byte_codes_def nth_append byte_codes_lengths) (simp add: system_codes_def Let_def)

text \<open>The cells of the frame.\<close>

lemma saved_frame:
  fixes nargs
  assumes "36 \<le> SstackS vm" "SstackS vm < 4294967292"
  defines "vm1 \<equiv> saved_for_interrupt nargs vm" and "s \<equiv> SstackS vm"
  shows "load (vmem vm1) s = SvalS vm" "load (vmem vm1) (s - 4) = StemplateS vm"
    "load (vmem vm1) (s - 8) = push_bit 2 (word_of_int (Scode_pointerS vm - template_code (vmem vm) (StemplateS vm)))"
    "load (vmem vm1) (s - 12) = push_bit 2 (Senabled_interruptsS vm)"
    "load (vmem vm1) (s - 28) = ScontS vm" "load (vmem vm1) (s - 24) = 0"
    "load (vmem vm1) (s - 20) = Sinterrupt_templateS vm" "load (vmem vm1) (s - 16) = SenvS vm"
    "ScontS vm1 = stob_at (s - 28)" "ADDRESS_AFTER_HEADER (ScontS vm1) = s - 28" "SstackS vm1 = s - 36"
  using assms by (simp_all add: saved_for_interrupt_def push_continuationB_def push_all_def Let_def load_store_other)

lemma push_pending [simp]:
  "Spending_interruptsS (push x vm) = Spending_interruptsS vm"
  "Spending_channels_headS (push x vm) = Spending_channels_headS vm"
  by (simp_all add: push_def poke_def set_vmem_def)

lemma next_channel_pending:
  "next_channel vm = (c, vm') \<Longrightarrow> Spending_interruptsS vm' =
     (if Spending_channels_headS vm' = 1 then Spending_interruptsS vm else 8 OR Spending_interruptsS vm)"
  by (auto simp: next_channel_def dequeue_channel_def set_channel_next_def Let_def)

lemma args_pending:
  "push_interrupt_args i vm = (argc, vm') \<Longrightarrow> Spending_interruptsS vm' =
     (if i = 3 \<and> Spending_channels_headS vm' \<noteq> 1 then 8 OR Spending_interruptsS vm else Spending_interruptsS vm)"
  by (cases "next_channel vm")
    (auto simp: push_interrupt_args_def Let_def dest: next_channel_pending split: if_splits)

lemma push_interrupt_args_pending:
  assumes "push_interrupt_args (of_nat k) vm = (argc, vm')" "k < 32" "j < 32" "\<not> bit (Spending_interruptsS vm) k"
  shows "bit (Spending_interruptsS vm') j \<longleftrightarrow>
    bit (Spending_interruptsS vm) j \<or> j = 3 \<and> k = 3 \<and> Spending_channels_headS vm' \<noteq> 1"
proof -
  have "bit (8 OR n :: long) j \<longleftrightarrow> bit n j \<or> j = 3" for n
    using bit_exp_iff [of 3 j, where 'a = long] by (auto simp: bit_or_iff)
  moreover have "(of_nat k :: long) = 3 \<longleftrightarrow> k = 3"
    using assms(2) by (simp_all add: word_unat_eq_iff unsigned_of_nat take_bit_nat_eq_self)
  ultimately show ?thesis using args_pending [OF assms(1)] by auto
qed

text \<open>
  Property C14. Of the interrupts pending and enabled the one of the lowest bit is handled: its
  handler is called, with all interrupts disabled; it is no longer pending, except that the
  completion of an operation stays pending while channels are left in the queue; the others stay
  as they were.
\<close>

theorem interrupt_is_handled:
  assumes "Spending_interruptsS vm AND Senabled_interruptsS vm \<noteq> 0"
    and "handle_interrupt nargs vm = Some (Apply argc vm1)"
  shows "\<exists>k<32. bit (Spending_interruptsS vm AND Senabled_interruptsS vm) k \<and>
    (\<forall>j<k. \<not> bit (Spending_interruptsS vm AND Senabled_interruptsS vm) j) \<and>
    (\<forall>j<32. bit (Spending_interruptsS vm1) j \<longleftrightarrow>
       (if j = k then k = 3 \<and> Spending_channels_headS vm1 \<noteq> 1 else bit (Spending_interruptsS vm) j)) \<and>
    Senabled_interruptsS vm1 = 0 \<and> (Spending_interruptPS (vevents vm1) \<longleftrightarrow> Spending_eventsPS (vevents vm1)) \<and>
    SvalS vm1 = load (vmem vm1) (ADDRESS_AFTER_HEADER (Sinterrupt_handlersS vm1) + 4 * int k) \<and>
    closureP (vmem vm1) (SvalS vm1)"
proof -
  obtain k where k: "bit (Spending_interruptsS vm AND Senabled_interruptsS vm) k"
    "\<forall>j<k. \<not> bit (Spending_interruptsS vm AND Senabled_interruptsS vm) j" "k < 32"
    and h: "handle_interrupt nargs vm =
      (let vm1 = saved_for_interrupt nargs vm;
           (argc, vm2) = push_interrupt_args (of_nat k)
             (vm1\<lparr>Spending_interruptsS := Spending_interruptsS vm AND NOT (push_bit k 1)\<rparr>);
           vm3 = set_interrupt_flag (vm2\<lparr>Senabled_interruptsS := 0\<rparr>);
           proc = load (vmem vm3) (ADDRESS_AFTER_HEADER (Sinterrupt_handlersS vm3) + 4 * int k)
       in if stob_of_type (vmem vm2) (Sinterrupt_handlersS vm2) 2 \<and> closureP (vmem vm3) proc
          then Some (Apply argc (vm3\<lparr>SvalS := proc, StemplateS := proc, Slosing_opcodeS := 0 - of_nat k\<rparr>))
          else None)"
    using handle_interrupt_eq [OF refl assms(1), of nargs] .
  obtain vm2 where vm2: "push_interrupt_args (of_nat k) ((saved_for_interrupt nargs vm)
         \<lparr>Spending_interruptsS := Spending_interruptsS vm AND NOT (push_bit k 1)\<rparr>) = (argc, vm2)"
    and vm1: "let vm3 = set_interrupt_flag (vm2\<lparr>Senabled_interruptsS := 0\<rparr>);
       proc = load (vmem vm3) (ADDRESS_AFTER_HEADER (Sinterrupt_handlersS vm3) + 4 * int k)
     in closureP (vmem vm3) proc \<and> vm1 = vm3\<lparr>SvalS := proc, StemplateS := proc, Slosing_opcodeS := 0 - of_nat k\<rparr>"
    using assms(2) h by (auto simp: Let_def split: prod.splits if_splits)
  have b: "bit (Spending_interruptsS vm AND NOT (push_bit k 1)) j \<longleftrightarrow> bit (Spending_interruptsS vm) j \<and> j \<noteq> k" if "j < 32" for j
    using that by (auto simp: bit_and_iff bit_not_iff bit_exp_iff)
  have "bit (Spending_interruptsS vm2) j \<longleftrightarrow> (if j = k then k = 3 \<and> Spending_channels_headS vm2 \<noteq> 1
      else bit (Spending_interruptsS vm) j)" if "j < 32" for j
    using push_interrupt_args_pending [OF vm2 k(3) that] b that k(3) by auto
  then show ?thesis
    using k vm1 by (intro exI [of _ k]) (auto simp: set_interrupt_flag_def Let_def)
qed

text \<open>The registers of an interrupted machine.\<close>

definition resumed :: "vm \<Rightarrow> vm \<Rightarrow> bool" where
  "resumed vm vm' \<longleftrightarrow> SvalS vm' = SvalS vm \<and> StemplateS vm' = StemplateS vm \<and>
     Scode_pointerS vm' = Scode_pointerS vm \<and> SenvS vm' = SenvS vm \<and> ScontS vm' = ScontS vm \<and>
     SstackS vm' = SstackS vm \<and> Senabled_interruptsS vm' = Senabled_interruptsS vm"

text \<open>
  Property C5. An interrupt is transparent: when the handler returns to the continuation pushed for
  it, whose frame is still as it was, the two byte codes 34 and 141 found there put the value, the
  template, the code pointer, the environment, the continuation, the stack and the enabled
  interrupts back to what they were when the interrupt came.
\<close>

theorem interrupt_roundtrip:
  assumes pending: "Spending_interruptsS vm AND Senabled_interruptsS vm \<noteq> 0"
    and handled: "handle_interrupt nargs vm = Some (Apply argc vm1)"
    and stack: "36 \<le> SstackS vm" "SstackS vm < 4294967292"
    and queue: "ADDRESS_AFTER_HEADER (Spending_channels_headS vm) + 16 \<le> SstackS vm - 32 \<or>
      SstackS vm + 4 \<le> ADDRESS_AFTER_HEADER (Spending_channels_headS vm) + 12"
    and pc: "fixnum_range (Scode_pointerS vm - template_code (vmem vm) (StemplateS vm))"
    and mask: "fixnum_range (sint (Senabled_interruptsS vm))"
    and cont: "ScontS vm' = ScontS vm1"
    and frame: "\<forall>a. SstackS vm - 32 \<le> a \<and> a < SstackS vm + 4 \<longrightarrow> vmem vm' a = vmem vm1 a"
    and template: "template_code (vmem vm') (StemplateS vm) = template_code (vmem vm) (StemplateS vm)"
    and code: "vmem vm' (template_code (vmem vm') (Sinterrupt_templateS vm)) = 34"
      "vmem vm' (template_code (vmem vm') (Sinterrupt_templateS vm) + 1) = 141"
  shows "\<exists>vm2 vm3. execute w (pop_continuationB vm') = Some (Dispatch vm2) \<and>
    execute w vm2 = Some (Dispatch vm3) \<and> resumed vm vm3"
proof -
  define s where "s = SstackS vm"
  define c where "c = template_code (vmem vm') (Sinterrupt_templateS vm)"
  define sv where "sv = saved_for_interrupt nargs vm"
  note f = saved_frame [OF stack, of nargs, folded s_def sv_def]
  have q: "Spending_channels_headS sv = Spending_channels_headS vm"
    by (simp add: sv_def saved_for_interrupt_def push_continuationB_def push_all_def push_def poke_def set_vmem_def Let_def)
  obtain k where "handle_interrupt nargs vm =
      (let (argc, vm2) = push_interrupt_args (of_nat k)
             (sv\<lparr>Spending_interruptsS := Spending_interruptsS vm AND NOT (push_bit k 1)\<rparr>);
           vm3 = set_interrupt_flag (vm2\<lparr>Senabled_interruptsS := 0\<rparr>);
           proc = load (vmem vm3) (ADDRESS_AFTER_HEADER (Sinterrupt_handlersS vm3) + 4 * int k)
       in if stob_of_type (vmem vm2) (Sinterrupt_handlersS vm2) 2 \<and> closureP (vmem vm3) proc
          then Some (Apply argc (vm3\<lparr>SvalS := proc, StemplateS := proc, Slosing_opcodeS := 0 - of_nat k\<rparr>))
          else None)"
    using handle_interrupt_eq [OF refl pending, of nargs] unfolding sv_def Let_def by blast
  then obtain vm2 where k: "push_interrupt_args (of_nat k)
        (sv\<lparr>Spending_interruptsS := Spending_interruptsS vm AND NOT (push_bit k 1)\<rparr>) = (argc, vm2)"
     and vm1: "vmem vm1 = vmem vm2" "ScontS vm1 = ScontS vm2"
    using handled by (auto simp: Let_def set_interrupt_flag_def split: prod.splits if_splits)
  have "vmem vm1 a = vmem sv a" if "s - 32 \<le> a" "a < s + 4" for a
    using push_interrupt_args_frame [OF k, of a] that queue f(11) q vm1 by (auto simp: s_def)
  then have m: "load (vmem vm') (s + i) = load (vmem sv) (s + i)" if "- 32 \<le> i" "i \<le> 0" for i
    using that frame by (intro load_cong) (auto simp: s_def add.assoc)
  have l: "load (vmem vm') s = SvalS vm" "load (vmem vm') (s - 4) = StemplateS vm"
    "load (vmem vm') (s - 8) = push_bit 2 (word_of_int (Scode_pointerS vm - template_code (vmem vm) (StemplateS vm)))"
    "load (vmem vm') (s - 12) = push_bit 2 (Senabled_interruptsS vm)"
    "load (vmem vm') (s - 28) = ScontS vm" "load (vmem vm') (s - 24) = 0"
    "load (vmem vm') (s - 20) = Sinterrupt_templateS vm" "load (vmem vm') (s - 16) = SenvS vm"
    using m [of 0] m [of "- 4"] m [of "- 8"] m [of "- 12"] m [of "- 28"] m [of "- 24"] m [of "- 20"] m [of "- 16"] f
    by simp_all
  have e: "sar 2 (push_bit 2 (Senabled_interruptsS vm)) = Senabled_interruptsS vm"
    using sar_push2 [OF mask] by simp
  have "ScontS vm' = ScontS sv"
    using vm1 cont push_interrupt_args_ScontS [of "of_nat k" "sv\<lparr>Spending_interruptsS := Spending_interruptsS vm AND NOT (push_bit k 1)\<rparr>"] k
    by simp
  then have "pop_continuationB vm' = vm'\<lparr>StemplateS := Sinterrupt_templateS vm, Scode_pointerS := c,
      SenvS := SenvS vm, ScontS := ScontS vm, SstackS := s - 16\<rparr>"
    using l f(10) by (simp add: pop_continuationB_def c_def Let_def)
  then have "execute w (pop_continuationB vm') = Some (Dispatch (vm'\<lparr>StemplateS := Sinterrupt_templateS vm,
      Scode_pointerS := c + 1, SenvS := SenvS vm, ScontS := ScontS vm, SstackS := s - 16\<rparr>))"
    (is "_ = Some (Dispatch ?vm2)")
    using code(1) by (simp add: execute_def c_def byte_code_34 op_ignore_values_def next_op_def Let_def)
  moreover have "\<exists>vm3. execute w ?vm2 = Some (Dispatch vm3) \<and> resumed vm vm3"
    using code(2) l template pc e
    by (simp add: execute_def c_def byte_code_141 op_return_from_interrupt_def pop_def set_interrupt_flag_def
        resumed_def Let_def sar_push2 sint_of_long fixnum_range_long s_def del: of_int_diff)
  ultimately show ?thesis by blast
qed


text \<open>A machine interrupted from the keyboard, with a handler for it.\<close>

definition demo_interrupted :: vm where
  "demo_interrupted = (vm_zero (heap_zero ((store_cells (\<lambda>_. 0) 100
     ([4106, 1, 207, 1, 1] @ replicate 20 0 @ [2062, 1, 1] @ replicate 22 0 @ [4142, 407])) (404 := 34, 405 := 141)))
     events_init)
     \<lparr>SstackS := 1000, StemplateS := 307, Sinterrupt_templateS := 307, Scode_pointerS := 410, SvalS := 20,
      Sinterrupt_handlersS := 107, Spending_interruptsS := 2, Senabled_interruptsS := 7, Spending_channels_headS := 1,
      ScontS := 1, SenvS := 13\<rparr>"

lemma demo_interrupted_sel:
  "SstackS demo_interrupted = 1000" "StemplateS demo_interrupted = 307" "Sinterrupt_templateS demo_interrupted = 307"
  "Scode_pointerS demo_interrupted = 410" "SvalS demo_interrupted = 20" "Sinterrupt_handlersS demo_interrupted = 107"
  "Spending_interruptsS demo_interrupted = 2" "Senabled_interruptsS demo_interrupted = 7"
  "Spending_channels_headS demo_interrupted = 1" "ScontS demo_interrupted = 1"
  by (simp_all add: demo_interrupted_def)

lemma demo_interrupted_mem:
  "load (vmem demo_interrupted) 108 = 207" "load (vmem demo_interrupted) 100 = 4106"
  "load (vmem demo_interrupted) 200 = 2062" "load (vmem demo_interrupted) 304 = 407"
  "vmem demo_interrupted 404 = 34" "vmem demo_interrupted 405 = 141"
  by code_simp+

lemma push_below: "b < SstackS vm \<Longrightarrow> vmem (push x vm) b = vmem vm b"
  by (simp add: store_byte_other)

lemma saved_below:
  "b < SstackS vm - 36 \<Longrightarrow> SstackS vm < 4294967292 \<Longrightarrow> 36 \<le> SstackS vm \<Longrightarrow> vmem (saved_for_interrupt nargs vm) b = vmem vm b"
  by (simp add: saved_for_interrupt_def push_continuationB_def push_all_def Let_def store_byte_other)

lemma demo_interrupted_run:
  "\<exists>vm1. handle_interrupt 0 demo_interrupted = Some (Apply 1 vm1) \<and> SvalS vm1 = 207 \<and>
     (\<forall>b<900. vmem vm1 b = vmem demo_interrupted b)"
proof -
  obtain k where k: "bit (2 AND 7 :: long) k" "\<forall>j<k. \<not> bit (2 AND 7 :: long) j"
    and h: "handle_interrupt 0 demo_interrupted =
      (let vm1 = saved_for_interrupt 0 demo_interrupted;
           (argc, vm2) = push_interrupt_args (of_nat k)
             (vm1\<lparr>Spending_interruptsS := Spending_interruptsS demo_interrupted AND NOT (push_bit k 1)\<rparr>);
           vm3 = set_interrupt_flag (vm2\<lparr>Senabled_interruptsS := 0\<rparr>);
           proc = load (vmem vm3) (ADDRESS_AFTER_HEADER (Sinterrupt_handlersS vm3) + 4 * int k)
       in if stob_of_type (vmem vm2) (Sinterrupt_handlersS vm2) 2 \<and> closureP (vmem vm3) proc
          then Some (Apply argc (vm3\<lparr>SvalS := proc, StemplateS := proc, Slosing_opcodeS := 0 - of_nat k\<rparr>))
          else None)"
    by (rule handle_interrupt_eq [of "2 AND 7" demo_interrupted 0]) (simp_all add: demo_interrupted_sel)
  have "k = 1" using k(2) [rule_format, of 1] k(1) by (cases k) (auto simp: bit_simps)
  define vm2 where "vm2 = push 28 (saved_for_interrupt 0 demo_interrupted
      \<lparr>Spending_interruptsS := 2 AND NOT (push_bit (Suc 0) 1)\<rparr>)"
  have sv: "SstackS (saved_for_interrupt 0 demo_interrupted) = 964"
    "Sinterrupt_handlersS (saved_for_interrupt 0 demo_interrupted) = 107"
    "Senabled_interruptsS (saved_for_interrupt 0 demo_interrupted) = 7"
    by (simp_all add: saved_for_interrupt_def push_continuationB_def push_all_def push_def poke_def set_vmem_def
        Let_def demo_interrupted_sel)
  have p: "push_interrupt_args 1 (saved_for_interrupt 0 demo_interrupted
      \<lparr>Spending_interruptsS := 2 AND NOT (push_bit (Suc 0) 1)\<rparr>) = (1, vm2)"
    by (simp add: push_interrupt_args_def vm2_def sv)
  have below: "vmem vm2 b = vmem demo_interrupted b" if "b < 900" for b
    using that saved_below [of b demo_interrupted 0] by (simp add: vm2_def sv store_byte_other demo_interrupted_sel)
  then have "load (vmem vm2) a = load (vmem demo_interrupted) a" if "a < 890" for a
    using that by (intro load_cong) auto
  moreover have "STOBP 107" "STOBP 207" "header_type 4106 = 2" "header_type 2062 = 3" by code_simp+
  ultimately have "stob_of_type (vmem vm2) 107 2" "load (vmem vm2) 108 = 207" "closureP (vmem vm2) 207"
    by (simp_all add: stob_of_type_def stob_header_def closureP_def demo_interrupted_mem ADDRESS_AFTER_HEADER_def)
  moreover have "Sinterrupt_handlersS vm2 = 107" by (simp add: vm2_def sv push_def poke_def set_vmem_def)
  ultimately show ?thesis
    using h p sv below by (simp add: \<open>k = 1\<close> demo_interrupted_sel vm2_def [symmetric] Let_def ADDRESS_AFTER_HEADER_def)
qed


lemma interrupt_is_handled_witness:
  "\<exists>vm1. handle_interrupt 0 demo_interrupted = Some (Apply 1 vm1) \<and> SvalS vm1 = 207 \<and>
     Senabled_interruptsS vm1 = 0 \<and> \<not> bit (Spending_interruptsS vm1) 1"
proof -
  obtain vm1 where vm1: "handle_interrupt 0 demo_interrupted = Some (Apply 1 vm1)" "SvalS vm1 = 207"
    using demo_interrupted_run by blast
  then obtain k where k: "bit (2 AND 7 :: long) k"
    "\<forall>j<32. bit (Spending_interruptsS vm1) j \<longleftrightarrow> (if j = k then k = 3 \<and> Spending_channels_headS vm1 \<noteq> 1 else bit (2 :: long) j)"
    "Senabled_interruptsS vm1 = 0"
    using interrupt_is_handled [of demo_interrupted 0 1 vm1] by (auto simp: demo_interrupted_sel)
  from k(1) have "k = 1" by (cases k) (auto simp: bit_simps)
  then show ?thesis using vm1 k by auto
qed

lemma interrupt_roundtrip_witness:
  "\<forall>w :: world. \<exists>vm1 vm2 vm3. handle_interrupt 0 demo_interrupted = Some (Apply 1 vm1) \<and>
     execute w (pop_continuationB (vm1\<lparr>SenvS := 5, SvalS := 9, SstackS := 500\<rparr>)) = Some (Dispatch vm2) \<and>
     execute w vm2 = Some (Dispatch vm3) \<and> resumed demo_interrupted vm3"
proof
  fix w :: world
  obtain vm1 where vm1: "handle_interrupt 0 demo_interrupted = Some (Apply 1 vm1)"
    and m: "\<forall>b<900. vmem vm1 b = vmem demo_interrupted b"
    using demo_interrupted_run by blast
  have l: "load (vmem vm1) 304 = 407" using m
    by (subst demo_interrupted_mem(4) [symmetric], intro load_cong) auto
  have t: "template_code (vmem demo_interrupted) 307 = 404" "template_code (vmem vm1) 307 = 404"
    using l by (simp_all add: template_code_def ADDRESS_AFTER_HEADER_def demo_interrupted_mem)
  have "\<exists>vm2 vm3. execute w (pop_continuationB (vm1\<lparr>SenvS := 5, SvalS := 9, SstackS := 500\<rparr>)) = Some (Dispatch vm2) \<and>
     execute w vm2 = Some (Dispatch vm3) \<and> resumed demo_interrupted vm3"
    using m t demo_interrupted_mem
    by (intro interrupt_roundtrip [OF _ vm1])
      (simp_all add: demo_interrupted_sel fixnum_range_def ADDRESS_AFTER_HEADER_def)
  then show "\<exists>vm1 vm2 vm3. handle_interrupt 0 demo_interrupted = Some (Apply 1 vm1) \<and>
     execute w (pop_continuationB (vm1\<lparr>SenvS := 5, SvalS := 9, SstackS := 500\<rparr>)) = Some (Dispatch vm2) \<and>
     execute w vm2 = Some (Dispatch vm3) \<and> resumed demo_interrupted vm3"
    using vm1 by blast
qed

end
