(* ===== verification/Vm_Arith_Facts.thy ===== *)
theory Vm_Arith_Facts
  imports Vm_Arith
begin

text \<open>
  The arithmetic of the virtual machine against the integers: each byte code computes the
  integer operation when both arguments are fixnums and the result is one, and raises the
  exception otherwise.
\<close>

subsection \<open>Reference semantics\<close>

text \<open>
  What is left of an integer result: the fixnum, or the overflow exception with both
  arguments. \<open>f\<close> is the operation on integers, with no result where it has none.
\<close>

definition fixnum_result :: "int option \<Rightarrow> long \<Rightarrow> vm \<Rightarrow> outcome option" where
  "fixnum_result r arg2 vm =
     (case r of
        Some r \<Rightarrow> if fixnum_range r then Some (goto_value 1 (ENTER_FIXNUM (word_of_int r)) vm)
                  else raise_exception 6 1 [arg2, SvalS vm] vm
      | None \<Rightarrow> raise_exception 6 1 [arg2, SvalS vm] vm)"

definition integer_reference :: "(int \<Rightarrow> int \<Rightarrow> int option) \<Rightarrow> vm \<Rightarrow> outcome option" where
  "integer_reference f vm =
     (let (arg2, vm1) = pop vm
      in if FIXNUMP arg2 \<and> FIXNUMP (SvalS vm1)
         then fixnum_result (f (sint (EXTRACT_FIXNUM arg2)) (sint (EXTRACT_FIXNUM (SvalS vm1)))) arg2 vm1
         else raise_exception 5 1 [arg2, SvalS vm1] vm1)"

lemma fixnums_iff: "3 AND (a OR b) = 0 \<longleftrightarrow> FIXNUMP a \<and> FIXNUMP b"
  using three_or [of a b] by (simp add: FIXNUMP_def and.commute)

text \<open>What has to be shown of an operation: its value on the integers the fixnums hold.\<close>

lemma integer_referenceI:
  assumes "\<And>arg2 (vm :: vm) i j. sar 2 arg2 = word_of_int i \<Longrightarrow> sar 2 (SvalS vm) = word_of_int j \<Longrightarrow>
      fixnum_range i \<Longrightarrow> fixnum_range j \<Longrightarrow> (SvalS vm = 0 \<longleftrightarrow> j = 0) \<Longrightarrow>
      g arg2 vm = fixnum_result (f i j) arg2 vm"
  shows "with_fixnums g = integer_reference f"
proof
  fix vm
  obtain arg2 vm1 where p: "pop vm = (arg2, vm1)" by (cases "pop vm")
  have zero: "SvalS vm1 = 0 \<longleftrightarrow> sint (sar 2 (SvalS vm1)) = 0" if "FIXNUMP (SvalS vm1)"
    using push2_sar [of "SvalS vm1"] that by (auto simp: FIXNUMP_def and.commute sint_eq_0)
  have "g arg2 vm1 = fixnum_result (f (sint (sar 2 arg2)) (sint (sar 2 (SvalS vm1)))) arg2 vm1"
    if "FIXNUMP (SvalS vm1)"
    by (rule assms) (use zero [OF that] in simp_all)
  then show "with_fixnums g vm = integer_reference f vm"
    by (auto simp: with_fixnums_def integer_reference_def p fixnums_iff EXTRACT_FIXNUM_def)
qed

lemma fixnum_result_simps:
  "fixnum_result None arg2 vm = raise_exception 6 1 [arg2, SvalS vm] vm"
  "fixnum_range r \<Longrightarrow> fixnum_result (Some r) arg2 vm = return_number (word_of_int r) vm"
  "\<not> fixnum_range r \<Longrightarrow> fixnum_result (Some r) arg2 vm = raise_exception 6 1 [arg2, SvalS vm] vm"
  by (simp_all add: fixnum_result_def return_number_def ENTER_FIXNUM_def)

subsection \<open>Sums\<close>

lemma return_checked_eq:
  "in_long r \<Longrightarrow> return_checked (word_of_int r) arg2 vm = fixnum_result (Some r) arg2 vm"
  by (cases "fixnum_range r")
    (auto simp: fixnum_result_simps return_checked_def long_less sint_of_long fixnum_range_def)

lemma op_add_reference: "op_add = integer_reference (\<lambda>a b. Some (a + b))"
  unfolding op_add_def
proof (rule integer_referenceI)
  fix arg2 and vm :: vm and i j
  assume eqs: "sar 2 arg2 = word_of_int i" "sar 2 (SvalS vm) = word_of_int j"
    and "fixnum_range i" "fixnum_range j"
  then have "in_long (i + j)" by (simp add: fixnum_range_def)
  then show "return_checked (sar 2 arg2 + sar 2 (SvalS vm)) arg2 vm = fixnum_result (Some (i + j)) arg2 vm"
    unfolding eqs wi_hom_add by (rule return_checked_eq)
qed

lemma op_subtract_reference: "op_subtract = integer_reference (\<lambda>a b. Some (a - b))"
  unfolding op_subtract_def
proof (rule integer_referenceI)
  fix arg2 and vm :: vm and i j
  assume eqs: "sar 2 arg2 = word_of_int i" "sar 2 (SvalS vm) = word_of_int j"
    and "fixnum_range i" "fixnum_range j"
  then have "in_long (i - j)" by (simp add: fixnum_range_def)
  then show "return_checked (sar 2 arg2 - sar 2 (SvalS vm)) arg2 vm = fixnum_result (Some (i - j)) arg2 vm"
    unfolding eqs wi_hom_sub by (rule return_checked_eq)
qed

lemma long_abs_of_int: "in_long i \<Longrightarrow> long_abs (word_of_int i) = word_of_int \<bar>i\<bar>"
  by (auto simp: long_abs_def long_less sint_of_long abs_if)

lemma long_neg_of_int: "in_long i \<Longrightarrow> (word_of_int i :: long) <s 0 \<longleftrightarrow> i < 0"
  by (simp add: long_less sint_of_long)

subsection \<open>Quotients\<close>

lemma quotient_carefully_of_int:
  assumes "fixnum_range i" "fixnum_range j" "j \<noteq> 0"
  shows "quotient_carefully (word_of_int i) (word_of_int j) =
     (if fixnum_range (i sdiv j) then Some (word_of_int (i sdiv j)) else None)"
proof -
  let ?c = "\<bar>i\<bar> div \<bar>j\<bar>"
  have il: "in_long i" "in_long j" "in_long \<bar>i\<bar>" "in_long \<bar>j\<bar>" using assms by (auto simp: fixnum_range_def)
  have c: "0 \<le> ?c" "?c \<le> \<bar>i\<bar>" using assms(3)
    by (simp_all add: pos_imp_zdiv_nonneg_iff zdiv_mono2 [of "\<bar>i\<bar>" 1 "\<bar>j\<bar>", simplified])
  moreover have "\<bar>i\<bar> \<le> 536870912" using assms(1) by (auto simp: fixnum_range_def)
  ultimately have lc: "in_long ?c" by linarith
  have q: "long_sdiv (long_abs (word_of_int i)) (long_abs (word_of_int j)) = word_of_int ?c"
    using il assms(3) by (simp add: long_sdiv_def long_abs_of_int sint_of_long signed_divide_int_def sgn_if)
  have s: "i sdiv j = (if i < 0 \<longleftrightarrow> j < 0 then ?c else - ?c)"
    using assms(3) by (auto simp: signed_divide_int_def sgn_if)
  have "(536870911 :: long) <s word_of_int ?c \<longleftrightarrow> 536870911 < ?c"
    using lc by (simp add: long_less sint_of_long)
  then show ?thesis
    using c assms(1) unfolding quotient_carefully_def q s long_neg_of_int [OF il(1)] long_neg_of_int [OF il(2)]
    by (auto simp: fixnum_range_def)
qed

lemma op_quotient_reference:
  "op_quotient = integer_reference (\<lambda>a b. if b = 0 then None else Some (a sdiv b))"
  unfolding op_quotient_def
proof (rule integer_referenceI)
  fix arg2 and vm :: vm and i j
  assume eqs: "sar 2 arg2 = word_of_int i" "sar 2 (SvalS vm) = word_of_int j" "SvalS vm = 0 \<longleftrightarrow> j = 0"
    and r: "fixnum_range i" "fixnum_range j"
  then show "(let x = SvalS vm in if x = 0 then raise_exception 6 1 [arg2, x] vm
     else case quotient_carefully (sar 2 arg2) (sar 2 x) of
            None \<Rightarrow> raise_exception 6 1 [arg2, x] vm | Some c \<Rightarrow> return_number c vm) =
     fixnum_result (if j = 0 then None else Some (i sdiv j)) arg2 vm"
    by (simp add: quotient_carefully_of_int [OF r] fixnum_result_simps)
qed

lemma remainder_carefully_of_int:
  assumes "fixnum_range i" "fixnum_range j" "j \<noteq> 0"
  shows "remainder_carefully (word_of_int i) (word_of_int j) = word_of_int (i smod j)"
    "fixnum_range (i smod j)"
proof -
  let ?c = "\<bar>i\<bar> mod \<bar>j\<bar>"
  have il: "in_long i" "in_long j" "in_long \<bar>i\<bar>" "in_long \<bar>j\<bar>" using assms by (auto simp: fixnum_range_def)
  have c: "0 \<le> ?c" "?c < \<bar>j\<bar>" using assms(3) by simp_all
  have q: "long_smod (long_abs (word_of_int i)) (long_abs (word_of_int j)) = word_of_int ?c"
    using il assms(3) by (simp add: long_smod_def long_abs_of_int sint_of_long signed_modulo_int_def sgn_if)
  have s: "i smod j = (if i < 0 then - ?c else ?c)"
    by (auto simp: signed_modulo_int_def sgn_if)
  then show "fixnum_range (i smod j)" using c assms(2) by (auto simp: fixnum_range_def)
  show "remainder_carefully (word_of_int i) (word_of_int j) = word_of_int (i smod j)"
    unfolding remainder_carefully_def q s long_neg_of_int [OF il(1)] by simp
qed

lemma op_remainder_reference:
  "op_remainder = integer_reference (\<lambda>a b. if b = 0 then None else Some (a smod b))"
  unfolding op_remainder_def
proof (rule integer_referenceI)
  fix arg2 and vm :: vm and i j
  assume eqs: "sar 2 arg2 = word_of_int i" "sar 2 (SvalS vm) = word_of_int j" "SvalS vm = 0 \<longleftrightarrow> j = 0"
    and r: "fixnum_range i" "fixnum_range j"
  then show "(let x = SvalS vm in if x = 0 then raise_exception 6 1 [arg2, x] vm
     else return_number (remainder_carefully (sar 2 arg2) (sar 2 x)) vm) =
     fixnum_result (if j = 0 then None else Some (i smod j)) arg2 vm"
    by (simp add: remainder_carefully_of_int [OF r] fixnum_result_simps)
qed

lemma op_divide_reference:
  "op_divide = integer_reference (\<lambda>a b. if b \<noteq> 0 \<and> b dvd a then Some (a div b) else None)"
  unfolding op_divide_def
proof (rule integer_referenceI)
  fix arg2 and vm :: vm and i j
  assume eqs: "sar 2 arg2 = word_of_int i" "sar 2 (SvalS vm) = word_of_int j" "SvalS vm = 0 \<longleftrightarrow> j = 0"
    and r: "fixnum_range i" "fixnum_range j"
  have rem0: "push_bit 2 (word_of_int (i smod j) :: long) = 0 \<longleftrightarrow> j dvd i" if "j \<noteq> 0"
  proof -
    have "push_bit 2 (word_of_int (i smod j) :: long) = 0 \<longleftrightarrow> (word_of_int (i smod j) :: long) = 0"
      using sar_push2 [OF remainder_carefully_of_int(2) [OF r that]] by auto
    also have "\<dots> \<longleftrightarrow> i smod j = 0"
      using sint_of_long [OF fixnum_range_long [OF remainder_carefully_of_int(2) [OF r that]]]
      by (metis sint_0 word_of_int_0)
    also have "\<dots> \<longleftrightarrow> j dvd i"
      by (auto simp: signed_modulo_int_def sgn_if simp flip: dvd_eq_mod_eq_0)
    finally show ?thesis .
  qed
  have q: "i sdiv j = i div j" if "j dvd i" "j \<noteq> 0"
  proof -
    have "i smod j = 0" using that by (simp add: signed_modulo_int_def sgn_if)
    then have "i sdiv j * j = i" using sdiv_mult_smod_eq [of i j] by simp
    then show ?thesis using that(2) by (metis nonzero_mult_div_cancel_right)
  qed
  show "(let y = SvalS vm in if y = 0 then raise_exception 6 1 [arg2, y] vm
     else case quotient_carefully (sar 2 arg2) (sar 2 y) of
            None \<Rightarrow> raise_exception 6 1 [arg2, y] vm
          | Some c \<Rightarrow> divide_exactly (push_bit 2 c) arg2 vm) =
     fixnum_result (if j \<noteq> 0 \<and> j dvd i then Some (i div j) else None) arg2 vm"
    using eqs q rem0
    by (auto simp: Let_def quotient_carefully_of_int [OF r] remainder_carefully_of_int [OF r] divide_exactly_def
        fixnum_result_simps return_number_def)
qed

subsection \<open>Products\<close>

lemma long_mult_of_uint: "(a :: long) * b = word_of_int (uint a * uint b)"
  by (simp add: wi_hom_mult [symmetric])

lemma half_product:
  assumes "0 \<le> x" "x < 65536" "0 \<le> y" "y < 65536"
  shows "(536870911 <s (word_of_int (x * y) :: long) \<or> (word_of_int (x * y) :: long) <s 0) \<longleftrightarrow> 536870911 < x * y"
proof -
  have "x * y \<le> 65535 * 65535" using assms by (intro mult_mono) auto
  then have r: "0 \<le> x * y" "x * y \<le> 4294836225" using assms by simp_all
  show ?thesis
  proof (cases "x * y < 2147483648")
    case True
    then show ?thesis using r by (simp add: long_less sint_of_long del: of_int_mult)
  next
    case False
    have "(word_of_int (x * y) :: long) = word_of_int (x * y - 4294967296)"
      by (subst word_of_int_eq_iff) (simp add: take_bit_eq_mod mod_eq_dvd_iff)
    then have "sint (word_of_int (x * y) :: long) = x * y - 4294967296"
      using False r sint_of_long [of "x * y - 4294967296"] by (simp del: of_int_mult of_int_diff)
    then show ?thesis using False r by (simp add: long_less del: of_int_mult)
  qed
qed

lemma multiply_halves_of_int:
  assumes "0 \<le> A" "A \<le> 536870912" "0 \<le> B" "B \<le> 536870912"
  defines "hA \<equiv> A div 65536" and "lA \<equiv> A mod 65536" and "hB \<equiv> B div 65536" and "lB \<equiv> B mod 65536"
  shows "multiply_halves (word_of_int A) (word_of_int B) =
    (word_of_int hA, word_of_int hB, word_of_int (lA * lB), word_of_int (lA * hB + lB * hA),
     word_of_int (lA * lB + 65536 * (lA * hB + lB * hA)))"
proof -
  have lo: "65535 AND (word_of_int X :: long) = word_of_int (X mod 65536)"
    if "0 \<le> X" "X \<le> 536870912" for X
    using uint_and_mask [of "word_of_int X"] that by (intro word_uint_eqI) (simp add: uint_word_of_int)
  have hi: "65535 AND sar 16 (word_of_int X :: long) = word_of_int (X div 65536)"
    if "0 \<le> X" "X \<le> 536870912" for X
  proof -
    have "sar 16 (word_of_int X :: long) = word_of_int (X div 65536)"
      using that by (simp add: sar_of_int sint_of_long)
    moreover have "X div 65536 < 65536" "0 \<le> X div 65536" using that by auto
    ultimately show ?thesis using lo [of "X div 65536"] that by simp
  qed
  show ?thesis
    unfolding multiply_halves_def Let_def lo [OF assms(1,2)] lo [OF assms(3,4)] hi [OF assms(1,2)] hi [OF assms(3,4)]
      hA_def lA_def hB_def lB_def push_bit_eq_mult
    by (simp add: ac_simps)
qed

text \<open>The product -536870912 of two factors of less than 16 bits is taken for an overflow.\<close>

definition checked_product :: "int \<Rightarrow> int \<Rightarrow> int option" where
  "checked_product a b =
     (if a * b = - 536870912 \<and> \<bar>a\<bar> < 65536 \<and> \<bar>b\<bar> < 65536 then None else Some (a * b))"

lemma halves_product:
  assumes "0 \<le> A" "0 \<le> (B :: int)"
  defines "hA \<equiv> A div 65536" and "lA \<equiv> A mod 65536" and "hB \<equiv> B div 65536" and "lB \<equiv> B mod 65536"
  shows "A * B = 4294967296 * (hA * hB) + 65536 * (lA * hB + lB * hA) + lA * lB"
    "0 \<le> hA" "0 \<le> hB" "0 \<le> lA" "0 \<le> lB" "lA < 65536" "lB < 65536"
    "0 \<le> hA * hB" "0 \<le> lA * hB + lB * hA" "0 \<le> lA * lB" "0 < hA \<and> 0 < hB \<Longrightarrow> 1 \<le> hA * hB"
    "lA * lB > 0 \<Longrightarrow> lA * hB + lB * hA = 0 \<Longrightarrow> A < 65536 \<and> B < 65536"
    "hA * hB = 0 \<Longrightarrow> \<not> (0 < hA \<and> 0 < hB)"
    "A < 65536 \<Longrightarrow> B < 65536 \<Longrightarrow> A * B = lA * lB"
proof -
  have A: "A = 65536 * hA + lA" and B: "B = 65536 * hB + lB"
    by (simp_all add: hA_def lA_def hB_def lB_def)
  show "A * B = 4294967296 * (hA * hB) + 65536 * (lA * hB + lB * hA) + lA * lB"
    by (subst A, subst B) (simp add: algebra_simps)
  show p: "0 \<le> hA" "0 \<le> hB" "0 \<le> lA" "0 \<le> lB" "lA < 65536" "lB < 65536"
    using assms(1,2) by (simp_all add: hA_def lA_def hB_def lB_def pos_imp_zdiv_nonneg_iff)
  then show "0 \<le> hA * hB" "0 \<le> lA * hB + lB * hA" "0 \<le> lA * lB" by simp_all
  show "0 < hA \<and> 0 < hB \<Longrightarrow> 1 \<le> hA * hB" using mult_pos_pos [of hA hB] by linarith
  show "A < 65536 \<and> B < 65536" if "lA * lB > 0" "lA * hB + lB * hA = 0"
  proof -
    have l: "0 < lA" "0 < lB" using that(1) p by (auto simp: zero_less_mult_iff)
    have "lA * hB = 0" "lB * hA = 0" using that(2) p by (auto simp: add_nonneg_eq_0_iff)
    then have "hB = 0" "hA = 0" using l by auto
    then show ?thesis using A B p by linarith
  qed
  show "hA * hB = 0 \<Longrightarrow> \<not> (0 < hA \<and> 0 < hB)" by auto
  show "A < 65536 \<Longrightarrow> B < 65536 \<Longrightarrow> A * B = lA * lB"
    using assms(1,2) by (simp add: lA_def lB_def)
qed

lemma multiply_checked_of_int:
  assumes "fixnum_range i" "fixnum_range j"
  shows "multiply_checked (word_of_int i) (word_of_int j) arg2 vm = fixnum_result (checked_product i j) arg2 vm"
proof -
  define A B where "A = \<bar>i\<bar>" and "B = \<bar>j\<bar>"
  define hA lA hB lB where "hA = A div 65536" and "lA = A mod 65536" and "hB = B div 65536" and "lB = B mod 65536"
  define mid L H P X where "mid = lA * hB + lB * hA" and "L = lA * lB" and "H = hA * hB"
    and "P = A * B" and "X = i * j"
  note ranges = assms [unfolded fixnum_range_def]
  have il: "in_long i" "in_long j" using ranges by simp_all
  have le: "0 \<le> A" "A \<le> 536870912" "0 \<le> B" "B \<le> 536870912" using ranges by (auto simp: A_def B_def)
  note hp = halves_product [OF le(1,3), folded hA_def lA_def hB_def lB_def, folded mid_def L_def H_def P_def]
  note mh = multiply_halves_of_int [OF le, folded hA_def lA_def hB_def lB_def, folded mid_def L_def]
  have X: "X = (if i < 0 \<longleftrightarrow> j < 0 then P else - P)"
    by (auto simp: X_def P_def A_def B_def abs_if)
  have cp: "checked_product i j = (if X = - 536870912 \<and> A < 65536 \<and> B < 65536 then None else Some X)"
    by (simp add: checked_product_def X_def A_def B_def)
  have "hA \<le> 8192" "hB \<le> 8192" using le by (simp_all add: hA_def hB_def)
  then have "lA * hB \<le> 65535 * 8192" "lB * hA \<le> 65535 * 8192"
    using hp(2-7) mult_mono [of lA 65535 hB 8192] mult_mono [of lB 65535 hA 8192] by simp_all
  then have mid: "0 \<le> mid" "mid \<le> 1073741824" using hp(9) unfolding mid_def by linarith+
  have h: "in_long hA" "in_long hB" using le by (auto simp: hA_def hB_def)
  have m: "multiply_checked (word_of_int i) (word_of_int j) arg2 vm =
     (if 0 < hA \<and> 0 < hB \<or> 536870911 < L \<or> 8192 < mid then raise_exception 6 1 [arg2, SvalS vm] vm
      else multiply_result (i < 0 \<longleftrightarrow> j < 0) (word_of_int (L + 65536 * mid)) arg2 vm)"
    using half_product [OF hp(4,6,5,7), folded L_def] mid h
    unfolding multiply_checked_def long_abs_of_int [OF il(1)] long_abs_of_int [OF il(2)]
      A_def [symmetric] B_def [symmetric] mh Let_def split_conv long_neg_of_int [OF il(1)] long_neg_of_int [OF il(2)]
    by (auto simp: long_less sint_of_long simp del: of_int_mult of_int_add)
  have raise: "fixnum_result (checked_product i j) arg2 vm = raise_exception 6 1 [arg2, SvalS vm] vm"
    if "\<not> fixnum_range X \<or> X = - 536870912 \<and> A < 65536 \<and> B < 65536"
    using that fixnum_result_simps(1,3) unfolding cp by (cases "fixnum_range X") auto
  show ?thesis
  proof (cases "0 < hA \<and> 0 < hB \<or> 536870911 < L \<or> 8192 < mid")
    case True
    have "\<not> fixnum_range X \<or> X = - 536870912 \<and> A < 65536 \<and> B < 65536"
    proof (cases "536870912 < P")
      case True
      then show ?thesis using X by (auto simp: fixnum_range_def)
    next
      case False
      then have "H = 0" "mid = 0" "536870911 < L" "P = L"
        using True hp(1,8,9,10,11) by linarith+
      then have "A < 65536 \<and> B < 65536" "P = 536870912" using hp(12) False by simp_all
      then show ?thesis using X by (auto simp: fixnum_range_def)
    qed
    then show ?thesis using True m raise by simp
  next
    case False
    then have "H = 0" using hp(2,3) by (auto simp: H_def)
    then have P: "P = L + 65536 * mid" using hp(1) by simp
    have lp: "in_long P" "0 \<le> P" using P False hp(9,10) by linarith+
    have no: "\<not> (X = - 536870912 \<and> A < 65536 \<and> B < 65536)"
    proof
      assume *: "X = - 536870912 \<and> A < 65536 \<and> B < 65536"
      then have "P = L" using hp(14) by blast
      moreover have "X = P \<or> X = - P" using X by presburger
      ultimately show False using False hp(10) * by linarith
    qed
    have "multiply_result (i < 0 \<longleftrightarrow> j < 0) (word_of_int P) arg2 vm = fixnum_result (Some X) arg2 vm"
    proof (cases "fixnum_range X")
      case True
      then show ?thesis
        using lp X unfolding fixnum_result_simps(2) [OF True]
        by (auto simp: multiply_result_def long_less sint_of_long fixnum_range_def)
    next
      case False
      then show ?thesis
        using lp X unfolding fixnum_result_simps(3) [OF False]
        by (auto simp: multiply_result_def long_less sint_of_long fixnum_range_def)
    qed
    moreover have "checked_product i j = Some X" unfolding cp by (rule if_not_P [OF no])
    ultimately show ?thesis using m False P by simp
  qed
qed

lemma op_multiply_reference: "op_multiply = integer_reference checked_product"
  unfolding op_multiply_def
  by (rule integer_referenceI) (simp only: multiply_checked_of_int)

subsection \<open>Bits\<close>

lemma op_bits_reference:
  "op_bitwise_and = integer_reference (\<lambda>a b. Some (a AND b))"
  "op_bitwise_ior = integer_reference (\<lambda>a b. Some (a OR b))"
  "op_bitwise_xor = integer_reference (\<lambda>a b. Some (a XOR b))"
  unfolding op_bitwise_and_def op_bitwise_ior_def op_bitwise_xor_def
  by (rule integer_referenceI;
      simp add: fixnum_range_bits fixnum_result_simps of_int_and_eq of_int_or_eq of_int_xor_eq)+

definition arithmetic_shift :: "int \<Rightarrow> int \<Rightarrow> int" where
  "arithmetic_shift a b = (if b < 0 then a div 2 ^ nat (- b) else a * 2 ^ nat b)"

lemma PS_SHIFT_RIGHT_of_int:
  assumes "fixnum_range a" "0 \<le> n" "n < 2147483648"
  shows "PS_SHIFT_RIGHT (word_of_int a) (word_of_int n) = word_of_int (a div 2 ^ nat n)"
proof -
  have "(32 \<le>s (word_of_int n :: long)) = (32 \<le> n)" "((word_of_int a :: long) <s 0) = (a < 0)"
    using assms fixnum_range_long by (simp_all add: long_less sint_of_long)
  moreover have "unat (word_of_int n :: long) = nat n" using assms by (simp add: unat_eq_nat_uint uint_word_of_int)
  moreover have "sar (nat n) (word_of_int a :: long) = word_of_int (a div 2 ^ nat n)"
    unfolding sar_of_int sint_of_long [OF fixnum_range_long [OF assms(1)]] ..
  ultimately have "PS_SHIFT_RIGHT (word_of_int a) (word_of_int n) =
      (if 32 \<le> n then if a < 0 then - 1 else 0 else word_of_int (a div 2 ^ nat n))"
    unfolding PS_SHIFT_RIGHT_def by presburger
  moreover have "word_of_int (a div 2 ^ nat n) = (if a < 0 then - 1 else 0 :: long)" if "32 \<le> n"
    using that div_power_big [OF assms(1), of "nat n"] by auto
  ultimately show ?thesis by presburger
qed


lemma PS_SHIFT_LEFT_of_int:
  assumes "0 \<le> n" "n < 2147483648"
  shows "PS_SHIFT_LEFT (word_of_int a) (word_of_int n) = word_of_int (if 32 \<le> n then 0 else a * 2 ^ nat n)"
proof -
  have "(32 \<le>s (word_of_int n :: long)) = (32 \<le> n)" "unat (word_of_int n :: long) = nat n"
    using assms by (simp_all add: long_less sint_of_long unat_eq_nat_uint uint_word_of_int)
  then show ?thesis by (simp add: PS_SHIFT_LEFT_def push_bit_eq_mult)
qed

lemma shift_left_kept:
  assumes a: "fixnum_range a" and n: "n < 32" and r: "fixnum_range r" "1073741824 dvd r - a * 2 ^ n"
    and eq: "a = r div 2 ^ n"
  shows "r = a * 2 ^ n"
proof -
  have "r = a * 2 ^ n + r mod 2 ^ n" using eq div_mult_mod_eq [of r "2 ^ n"] by simp
  then have m: "r - a * 2 ^ n = r mod 2 ^ n" by simp
  show ?thesis
  proof (cases "n < 30")
    case True
    then have "(2 :: int) ^ n \<le> 2 ^ 29" by (intro power_increasing) simp_all
    then have "(2 :: int) ^ n \<le> 536870912" by simp
    moreover have "0 \<le> r mod 2 ^ n" "r mod 2 ^ n < 2 ^ n" by simp_all
    moreover obtain k where k: "r - a * 2 ^ n = 1073741824 * k" using r(2) by (elim dvdE)
    ultimately have "0 \<le> 1073741824 * k" "1073741824 * k < 536870912 + 1"
      unfolding m [symmetric] k [symmetric] by linarith+
    then have "k = 0" by linarith
    then show ?thesis using k by simp
  next
    case False
    then have "(1073741824 :: int) dvd 2 ^ n" using le_imp_power_dvd [of 30 n 2] by simp
    then have "1073741824 dvd r" using r(2) by (metis dvd_diff_commute dvd_diff_right_iff dvd_mult)
    then have "r = 0" using r(1) by (auto simp: fixnum_range_def elim!: dvdE)
    then show ?thesis using eq by simp
  qed
qed

lemma shift_left_result:
  assumes i: "fixnum_range i" and q: "fixnum_range q" "1073741824 dvd q - (if 32 \<le> j then 0 else i * 2 ^ nat j)"
  shows "i = q div 2 ^ nat j \<Longrightarrow> q = i * 2 ^ nat j"
    "fixnum_range (i * 2 ^ nat j) \<Longrightarrow> i = q div 2 ^ nat j"
proof -
  have zero: "q = 0" if "32 \<le> j"
    using fixnum_residue [OF q(1), of 0] q(2) that by (simp add: fixnum_range_def)
  show "q = i * 2 ^ nat j" if "i = q div 2 ^ nat j"
  proof (cases "32 \<le> j")
    case True
    then show ?thesis using zero that by simp
  next
    case False
    then show ?thesis using shift_left_kept [OF i _ q(1) _ that] q(2) by simp
  qed
  show "i = q div 2 ^ nat j" if f: "fixnum_range (i * 2 ^ nat j)"
  proof (cases "32 \<le> j")
    case True
    then have "(2 :: int) ^ 32 \<le> 2 ^ nat j" by (intro power_increasing) simp_all
    have "i = 0"
    proof (rule ccontr)
      assume "i \<noteq> 0"
      then have "1 * 2 ^ 32 \<le> \<bar>i\<bar> * 2 ^ nat j"
        using \<open>(2 :: int) ^ 32 \<le> 2 ^ nat j\<close> by (intro mult_mono) simp_all
      then have "4294967296 \<le> \<bar>i * 2 ^ nat j\<bar>" by (simp add: abs_mult)
      then show False using f unfolding fixnum_range_def by linarith
    qed
    then show ?thesis using zero True by simp
  next
    case False
    then have "q = i * 2 ^ nat j" using fixnum_residue [OF q(1) f] q(2) by simp
    then show ?thesis by simp
  qed
qed

lemma shift_cases:
  assumes "P \<Longrightarrow> s" and "P \<Longrightarrow> q = z" and "fixnum_range z \<Longrightarrow> P" and "fixnum_range q"
  shows "(if P then if s then return_number (word_of_int q) vm else raise_exception 6 1 [arg2, SvalS vm] vm
       else raise_exception 6 1 [arg2, SvalS vm] vm) = fixnum_result (Some z) arg2 vm"
  using assms by (cases "fixnum_range z") (auto simp: fixnum_result_simps)

lemma op_arithmetic_shift_reference:
  "op_arithmetic_shift = integer_reference (\<lambda>a b. Some (arithmetic_shift a b))"
  unfolding op_arithmetic_shift_def
proof (rule integer_referenceI)
  fix arg2 and vm :: vm and i j
  assume eqs: "sar 2 arg2 = word_of_int i" "sar 2 (SvalS vm) = word_of_int j"
    and r: "fixnum_range i" "fixnum_range j"
  note il = fixnum_range_long [OF r(1)] fixnum_range_long [OF r(2)]
  let ?raise = "raise_exception 6 1 [arg2, SvalS vm] vm"
  let ?body = "let x = SvalS vm; value = sar 2 arg2; count = sar 2 x in
     if count <s 0 then return_number (PS_SHIFT_RIGHT value (0 - count)) vm
     else let result = sar 2 (push_bit 2 (PS_SHIFT_LEFT value count))
          in if value = PS_SHIFT_RIGHT result count
             then if value <s 0
                  then if result <s 0 then return_number result vm else raise_exception 6 1 [arg2, x] vm
                  else if result <s 0 then raise_exception 6 1 [arg2, x] vm else return_number result vm
             else raise_exception 6 1 [arg2, x] vm"
  show "?body = fixnum_result (Some (arithmetic_shift i j)) arg2 vm"
  proof (cases "j < 0")
    case True
    have "fixnum_range (i div 2 ^ nat (- j))" by (rule div_power_range [OF r(1)])
    moreover have "PS_SHIFT_RIGHT (word_of_int i) (0 - word_of_int j) = word_of_int (i div 2 ^ nat (- j))"
      using PS_SHIFT_RIGHT_of_int [OF r(1), of "- j"] r(2) True by (simp add: fixnum_range_def)
    ultimately show ?thesis
      using True long_neg_of_int [OF il(2)] eqs by (simp add: Let_def arithmetic_shift_def fixnum_result_simps)
  next
    case False
    then have j: "0 \<le> j" "j < 2147483648" using il(2) by simp_all
    define z where "z = (if 32 \<le> j then 0 else i * 2 ^ nat j)"
    obtain q where q: "sar 2 (push_bit 2 (word_of_int z :: long)) = word_of_int q" "fixnum_range q"
      "1073741824 dvd q - z" by (rule kept_bits)
    have right: "PS_SHIFT_RIGHT (word_of_int q) (word_of_int j) = word_of_int (q div 2 ^ nat j)"
      by (rule PS_SHIFT_RIGHT_of_int [OF q(2) j])
    have same: "(word_of_int i :: long) = word_of_int (q div 2 ^ nat j) \<longleftrightarrow> i = q div 2 ^ nat j"
      using sint_of_long [OF il(1)] sint_of_long [OF fixnum_range_long [OF div_power_range [OF q(2)]]] by metis
    have body: "?body = (if i = q div 2 ^ nat j
        then if (i < 0 \<longleftrightarrow> q < 0) then return_number (word_of_int q) vm else ?raise else ?raise)"
      unfolding Let_def eqs PS_SHIFT_LEFT_of_int [OF j] z_def [symmetric] q(1) right same
        long_neg_of_int [OF il(1)] long_neg_of_int [OF il(2)] long_neg_of_int [OF fixnum_range_long [OF q(2)]]
      using False by simp
    have "i = q div 2 ^ nat j \<Longrightarrow> (i < 0 \<longleftrightarrow> q < 0)"
      by (simp add: pos_imp_zdiv_neg_iff)
    moreover have "i = q div 2 ^ nat j \<Longrightarrow> q = i * 2 ^ nat j" "fixnum_range (i * 2 ^ nat j) \<Longrightarrow> i = q div 2 ^ nat j"
      using shift_left_result [OF r(1) q(2) q(3) [unfolded z_def]] by blast+
    ultimately show ?thesis
      unfolding body arithmetic_shift_def if_not_P [OF False]
      by (rule shift_cases) (use q(2) in blast)+
  qed
qed

subsection \<open>Comparisons\<close>

definition integer_comparison :: "(int \<Rightarrow> int \<Rightarrow> bool) \<Rightarrow> vm \<Rightarrow> outcome option" where
  "integer_comparison p vm =
     (let (arg2, vm1) = pop vm
      in if FIXNUMP arg2 \<and> FIXNUMP (SvalS vm1)
         then Some (goto_value 1 (ENTER_BOOLEAN (p (sint (EXTRACT_FIXNUM arg2)) (sint (EXTRACT_FIXNUM (SvalS vm1))))) vm1)
         else raise_exception 5 1 [arg2, SvalS vm1] vm1)"

lemma ENTER_BOOLEAN_eq: "ENTER_BOOLEAN b = (if b then 5 else 1)"
  by (cases b) (simp_all add: ENTER_BOOLEAN_def SCHTRUE_def SCHFALSE_def MISC_IMMEDIATE_def)

lemma fixnum_sint: "FIXNUMP x \<Longrightarrow> sint x = 4 * sint (sar 2 x)"
proof -
  assume "FIXNUMP x"
  then have x: "push_bit 2 (sar 2 x) = x" by (intro push2_sar) (simp add: FIXNUMP_def and.commute)
  have "fixnum_range (sint (sar 2 x))" by simp
  then have "in_long (4 * sint (sar 2 x))" by (simp add: fixnum_range_def)
  moreover have "x = word_of_int (4 * sint (sar 2 x))"
    using x by (simp add: push_bit_eq_mult mult.commute)
  ultimately show ?thesis using sint_of_long by metis
qed

lemma fixnum_eq_iff: "FIXNUMP a \<Longrightarrow> FIXNUMP b \<Longrightarrow> a = b \<longleftrightarrow> sint (sar 2 a) = sint (sar 2 b)"
  by (metis fixnum_sint long_of_sint)

lemma compare_fixnums_reference:
  assumes "\<And>a b. FIXNUMP a \<Longrightarrow> FIXNUMP b \<Longrightarrow> p a b \<longleftrightarrow> q (sint (sar 2 a)) (sint (sar 2 b))"
  shows "compare_fixnums p = integer_comparison q"
  by (rule ext)
    (auto simp: compare_fixnums_def with_fixnums_def integer_comparison_def fixnums_iff return_boolean_def
      ENTER_BOOLEAN_eq EXTRACT_FIXNUM_def assms split: prod.splits)

lemma comparisons_reference:
  "op_equal = integer_comparison (=)" "op_less = integer_comparison (<)" "op_greater = integer_comparison (>)"
  "op_less_equal = integer_comparison (\<le>)" "op_greater_equal = integer_comparison (\<ge>)"
  unfolding op_equal_def op_less_def op_greater_def op_less_equal_def op_greater_equal_def
  by (rule compare_fixnums_reference; simp add: long_less fixnum_sint fixnum_eq_iff not_less)+

subsection \<open>The magnitude\<close>

text \<open>
  The byte code for \<open>magnitude\<close> gives four times the magnitude: the absolute value is taken
  of the descriptor, which is then shifted once more. The descriptor of the least fixnum has
  no absolute value; the wrapped one becomes zero.
\<close>

lemma op_magnitude_quadruples:
  "op_magnitude vm =
     (let n = sint (EXTRACT_FIXNUM (SvalS vm)) in
      if \<not> FIXNUMP (SvalS vm) then raise_exception 5 1 [SvalS vm] vm
      else if n = - 536870912 then Some (goto_value 1 (ENTER_FIXNUM 0) vm)
      else if fixnum_range (4 * \<bar>n\<bar>) then Some (goto_value 1 (ENTER_FIXNUM (word_of_int (4 * \<bar>n\<bar>))) vm)
      else raise_exception 6 1 [SvalS vm] vm)"
proof (cases "FIXNUMP (SvalS vm)")
  case True
  define n where "n = sint (sar 2 (SvalS vm))"
  have r: "fixnum_range n" by (simp add: n_def)
  have x: "SvalS vm = word_of_int (4 * n)"
    unfolding n_def fixnum_sint [OF True, symmetric] by simp
  have op: "op_magnitude vm = (let r = long_abs (SvalS vm) in
     if 536870911 <s r then raise_exception 6 1 [SvalS vm] vm else return_number r vm)"
    using True by (simp add: op_magnitude_def with_fixnum_def)
  show ?thesis
  proof (cases "n = - 536870912")
    case True': True
    have l: "long_abs (SvalS vm) = - 2147483648" "\<not> 536870911 <s (- 2147483648 :: long)"
      "push_bit 2 (- 2147483648 :: long) = 0"
      unfolding x True' by code_simp+
    have "op_magnitude vm = Some (goto_value 1 0 vm)"
      unfolding op Let_def l(1) if_not_P [OF l(2)] return_number_def l(3) ..
    then show ?thesis
      using True True' by (simp add: EXTRACT_FIXNUM_def ENTER_FIXNUM_def n_def [symmetric])
  next
    case False
    then have il: "in_long (4 * n)" "in_long (4 * \<bar>n\<bar>)" using r by (auto simp: fixnum_range_def)
    have "long_abs (SvalS vm) = word_of_int (4 * \<bar>n\<bar>)"
      unfolding x long_abs_of_int [OF il(1)] by (simp add: abs_mult)
    moreover have "536870911 <s (word_of_int (4 * \<bar>n\<bar>) :: long) \<longleftrightarrow> \<not> fixnum_range (4 * \<bar>n\<bar>)"
      unfolding long_less sint_of_long [OF il(2)] fixnum_range_def by (simp, linarith)
    ultimately show ?thesis
      unfolding op using True False
      by (simp add: EXTRACT_FIXNUM_def ENTER_FIXNUM_def n_def [symmetric] return_number_def)
  qed
qed (simp add: op_magnitude_def with_fixnum_def Let_def)

subsection \<open>Properties\<close>

text \<open>
  Property C4. The machine's arithmetic is integer arithmetic. On two fixnums each byte code
  gives the fixnum of the sum, difference, product, exact quotient, truncated quotient,
  remainder, bitwise combination or arithmetic shift, when it is one, and otherwise raises
  the overflow exception with both arguments, which also meets a zero divisor; anything but
  two fixnums raises the exception for a wrong type. The one exception is the product
  -536870912 of two factors of less than 16 bits, which is a fixnum but raises an overflow.
  The comparisons are those of the integers.
\<close>

theorem arithmetic_reference:
  "op_add = integer_reference (\<lambda>a b. Some (a + b)) \<and>
   op_subtract = integer_reference (\<lambda>a b. Some (a - b)) \<and>
   op_multiply = integer_reference (\<lambda>a b.
     if a * b = - 536870912 \<and> \<bar>a\<bar> < 65536 \<and> \<bar>b\<bar> < 65536 then None else Some (a * b)) \<and>
   op_divide = integer_reference (\<lambda>a b. if b \<noteq> 0 \<and> b dvd a then Some (a div b) else None) \<and>
   op_quotient = integer_reference (\<lambda>a b. if b = 0 then None else Some (a sdiv b)) \<and>
   op_remainder = integer_reference (\<lambda>a b. if b = 0 then None else Some (a smod b)) \<and>
   op_bitwise_and = integer_reference (\<lambda>a b. Some (a AND b)) \<and>
   op_bitwise_ior = integer_reference (\<lambda>a b. Some (a OR b)) \<and>
   op_bitwise_xor = integer_reference (\<lambda>a b. Some (a XOR b)) \<and>
   op_arithmetic_shift = integer_reference (\<lambda>a b. Some (if b < 0 then a div 2 ^ nat (- b) else a * 2 ^ nat b)) \<and>
   op_equal = integer_comparison (=) \<and> op_less = integer_comparison (<) \<and>
   op_greater = integer_comparison (>) \<and> op_less_equal = integer_comparison (\<le>) \<and>
   op_greater_equal = integer_comparison (\<ge>)"
  using op_add_reference op_subtract_reference op_multiply_reference op_divide_reference
    op_quotient_reference op_remainder_reference op_bits_reference op_arithmetic_shift_reference
    comparisons_reference
  by (simp add: checked_product_def [abs_def] arithmetic_shift_def [abs_def])

end
