(* ===== verification/Vm_Lists_Facts.thy ===== *)
theory Vm_Lists_Facts
  imports Vm_Lists
begin

text \<open>
  The check of an argument list (\<open>okay_argument_listP\<close> of \<open>src/c/scheme48vm.c\<close>) returns on every
  memory, circular lists included, and tells the proper lists from the others.
\<close>

subsection \<open>The argument list check\<close>

text \<open>A walk over finitely many values meets the one that follows at half the speed.\<close>

lemma tortoise_meets:
  fixes f :: "'a :: finite \<Rightarrow> 'a"
  shows "\<exists>k. (f ^^ (2 * k + 1)) x = (f ^^ k) x"
proof -
  have "\<not> inj (\<lambda>n. (f ^^ n) x)"
  proof
    assume "inj (\<lambda>n. (f ^^ n) x)"
    moreover have "finite (range (\<lambda>n. (f ^^ n) x))"
      by (rule finite_subset [OF subset_UNIV]) simp
    ultimately have "finite (UNIV :: nat set)" by (rule finite_imageD [rotated])
    then show False by simp
  qed
  then obtain i j where ij: "i < j" "(f ^^ i) x = (f ^^ j) x"
    unfolding inj_def by (metis linorder_neqE_nat)
  define p where "p = j - i"
  have step: "(f ^^ (n + p)) x = (f ^^ n) x" if "i \<le> n" for n
  proof -
    have "(f ^^ (n + p)) x = (f ^^ (n - i)) ((f ^^ j) x)"
      using that ij(1) by (simp add: p_def funpow_add [symmetric, THEN fun_cong, unfolded comp_def])
    also have "\<dots> = (f ^^ (n - i)) ((f ^^ i) x)" using ij(2) by simp
    also have "\<dots> = (f ^^ n) x" using that by (simp add: funpow_add [symmetric, THEN fun_cong, unfolded comp_def])
    finally show ?thesis .
  qed
  have steps: "(f ^^ (n + q * p)) x = (f ^^ n) x" if "i \<le> n" for n q
    using that by (induction q) (simp_all add: step add.assoc [symmetric] add.commute [of p])
  define k where "k = (i + 1) * p - 1"
  have "0 < p" using ij(1) by (simp add: p_def)
  then have "i + 1 \<le> (i + 1) * p" using mult_le_mono2 [of 1 p "i + 1"] by simp
  then have "i \<le> k" "k + 1 = (i + 1) * p" unfolding k_def by linarith+
  then have "2 * k + 1 = k + (i + 1) * p" by linarith
  then show ?thesis using steps [OF \<open>i \<le> k\<close>] by metis
qed

definition cdrs :: "memory \<Rightarrow> long \<Rightarrow> nat \<Rightarrow> long" where
  "cdrs m l n = (cdr m ^^ n) l"

text \<open>A proper list of \<open>n\<close> elements.\<close>

definition proper_list :: "memory \<Rightarrow> long \<Rightarrow> nat \<Rightarrow> bool" where
  "proper_list m l n \<longleftrightarrow> cdrs m l n = SCHNULL \<and> (\<forall>i<n. pairP m (cdrs m l i))"

lemma SCHNULL_eq: "SCHNULL = 25"
  by (simp add: SCHNULL_def MISC_IMMEDIATE_def)

lemma null_no_pair [simp]: "\<not> pairP m SCHNULL"
  by (simp add: pairP_def stob_of_type_def SCHNULL_eq STOBP_def)

lemma cdrs_Suc: "cdr m (cdrs m l n) = cdrs m l (Suc n)"
  by (simp add: cdrs_def)

lemma cdrs_add: "cdrs m l (i + n) = cdrs m (cdrs m l i) n"
  by (simp add: cdrs_def add.commute [of i] funpow_add)

lemma proper_list_unique:
  assumes "proper_list m l i" "proper_list m l j" shows "i = j"
  using assms by (metis linorder_neqE_nat null_no_pair proper_list_def)

lemma proper_list_distinct:
  assumes "proper_list m l N" "k < n" "n < N" shows "cdrs m l n \<noteq> cdrs m l k"
proof
  assume eq: "cdrs m l n = cdrs m l k"
  have "cdrs m l N = cdrs m (cdrs m l n) (N - n)" using assms by (simp flip: cdrs_add)
  also have "\<dots> = cdrs m l (k + (N - n))" unfolding eq cdrs_add ..
  finally have "cdrs m l (k + (N - n)) = SCHNULL" using assms(1) by (simp add: proper_list_def)
  moreover have "pairP m (cdrs m l (k + (N - n)))" using assms by (simp add: proper_list_def)
  ultimately show False by simp
qed

lemma argument_list_step:
  assumes "pairP m (cdrs m l n)"
  shows "argument_list_from m (cdrs m l n) (of_nat n) (cdrs m l (n div 2)) (odd n) =
     (if odd n \<and> cdrs m l n = cdrs m l (n div 2) then Some (False, 0)
      else argument_list_from m (cdrs m l (Suc n)) (of_nat (Suc n)) (cdrs m l (Suc n div 2)) (odd (Suc n)))"
proof -
  have "cdrs m l n \<noteq> SCHNULL" using assms by auto
  then show ?thesis
    using assms
    by (subst argument_list_from.simps) (cases "odd n"; auto simp: cdrs_Suc elim!: oddE evenE)
qed

lemma argument_list_proper:
  "n \<le> N \<Longrightarrow> proper_list m l N \<Longrightarrow>
     argument_list_from m (cdrs m l n) (of_nat n) (cdrs m l (n div 2)) (odd n) = Some (True, of_nat N)"
proof (induction rule: inc_induct)
  case base
  then show ?case by (subst argument_list_from.simps) (simp add: proper_list_def)
next
  case (step n)
  then have p: "pairP m (cdrs m l n)" by (simp add: proper_list_def)
  have "odd n \<Longrightarrow> cdrs m l n \<noteq> cdrs m l (n div 2)"
    using proper_list_distinct [OF step.prems, of "n div 2" n] step.hyps by (cases n) auto
  then show ?case unfolding argument_list_step [OF p] using step by auto
qed

lemma argument_list_improper:
  "n \<le> T \<Longrightarrow> \<forall>i<T. pairP m (cdrs m l i) \<Longrightarrow>
     cdrs m l T \<noteq> SCHNULL \<and> \<not> pairP m (cdrs m l T) \<or> pairP m (cdrs m l T) \<and> odd T \<and> cdrs m l T = cdrs m l (T div 2) \<Longrightarrow>
     argument_list_from m (cdrs m l n) (of_nat n) (cdrs m l (n div 2)) (odd n) = Some (False, 0)"
proof (induction rule: inc_induct)
  case base
  then show ?case by (subst argument_list_from.simps) auto
next
  case (step n)
  then have p: "pairP m (cdrs m l n)" by simp
  then show ?case unfolding argument_list_step [OF p] using step by auto
qed

text \<open>
  Property C23. The check of an argument list returns, whatever the memory holds and however
  the list is linked: true and the number of elements when following the tails through pairs
  leads to the empty list, false and zero when it leads to anything else or in a circle.
\<close>

theorem okay_argument_list_cases:
  "okay_argument_list m l = Some
     (if \<exists>n. proper_list m l n then (True, of_nat (LEAST n. proper_list m l n)) else (False, 0))"
proof (cases "\<exists>n. proper_list m l n")
  case True
  then obtain N where N: "proper_list m l N" by blast
  then have "(LEAST n. proper_list m l n) = N"
    by (intro Least_equality) (auto dest: proper_list_unique)
  then show ?thesis
    using N argument_list_proper [of 0 N m l] by (auto simp: okay_argument_list_def cdrs_def)
next
  case False
  have "\<exists>T. (\<forall>i<T. pairP m (cdrs m l i)) \<and> (cdrs m l T \<noteq> SCHNULL \<and> \<not> pairP m (cdrs m l T) \<or>
       pairP m (cdrs m l T) \<and> odd T \<and> cdrs m l T = cdrs m l (T div 2))"
  proof (cases "\<forall>i. pairP m (cdrs m l i)")
    case True
    obtain k where "cdrs m l (2 * k + 1) = cdrs m l k"
      using tortoise_meets [of "cdr m" l] by (auto simp: cdrs_def)
    then show ?thesis using True by (intro exI [of _ "2 * k + 1"]) simp
  next
    case some: False
    define T where "T = (LEAST i. \<not> pairP m (cdrs m l i))"
    have "\<not> pairP m (cdrs m l T)" using some LeastI_ex [of "\<lambda>i. \<not> pairP m (cdrs m l i)"] by (simp add: T_def)
    moreover have "\<forall>i<T. pairP m (cdrs m l i)"
      unfolding T_def using not_less_Least [of _ "\<lambda>i. \<not> pairP m (cdrs m l i)"] by blast
    moreover have "cdrs m l T \<noteq> SCHNULL" using False calculation(2) unfolding proper_list_def by blast
    ultimately show ?thesis by blast
  qed
  then obtain T where T: "\<forall>i<T. pairP m (cdrs m l i)"
    "cdrs m l T \<noteq> SCHNULL \<and> \<not> pairP m (cdrs m l T) \<or>
       pairP m (cdrs m l T) \<and> odd T \<and> cdrs m l T = cdrs m l (T div 2)" by blast
  have "argument_list_from m (cdrs m l 0) (of_nat (0::nat)) (cdrs m l (0 div 2)) (odd (0::nat)) = Some (False, 0)"
    by (rule argument_list_improper [OF le0 T])
  then have "okay_argument_list m l = Some (False, 0)"
    by (simp only: okay_argument_list_def cdrs_def funpow_0 semiring_1_class.of_nat_0 div_0 even_zero not_True_eq_False)
  then show ?thesis using False by simp
qed

end
