(* ===== verification/Vm_Transmit_Facts.thy ===== *)
theory Vm_Transmit_Facts
  imports Vm_Receive Longs
begin

unbundle bit_operations_syntax

text \<open>
  Messages between address spaces (\<open>Vm_Transmit\<close>, \<open>Vm_Receive\<close>): encoding ends and, given room for
  four cells, stays in the heap; an object is copied once and its pointer leads to the copy wherever
  the message arrives; and an object that is sent by its number, or by its number and its owner, is found
  by it.
\<close>

subsection \<open>The message stays in the heap\<close>

text \<open>What encoding changes besides the memory: the end of the message, the lists in the other half.\<close>

definition same_message :: "vm \<Rightarrow> vm \<Rightarrow> bool" where
  "same_message vm vm' \<longleftrightarrow> SstartS vm' = SstartS vm \<and> Smax_hpS vm' = Smax_hpS vm \<and>
     Sour_address_spaceS vm' = Sour_address_spaceS vm \<and>
     (vheap vm')\<lparr>mem := (\<lambda>_. 0)\<rparr> = (vheap vm)\<lparr>mem := (\<lambda>_. 0)\<rparr>"

lemma same_message_refl [simp]: "same_message vm vm"
  by (simp add: same_message_def)

lemma same_message_trans [trans]: "same_message vm vm1 \<Longrightarrow> same_message vm1 vm2 \<Longrightarrow> same_message vm vm2"
  by (simp add: same_message_def)

lemma same_messageD: "same_message vm vm' \<Longrightarrow> Smax_hpS vm' = Smax_hpS vm" "same_message vm vm' \<Longrightarrow> SstartS vm' = SstartS vm"
  by (simp_all add: same_message_def)

lemma same_message_poke [simp]:
  "same_message vm (poke a v vm1) \<longleftrightarrow> same_message vm vm1" "Stransmit_hpS (poke a v vm1) = Stransmit_hpS vm1"
  by (auto simp: same_message_def poke_def set_vmem_def)

lemma same_message_regs [simp]:
  "same_message vm (vm1\<lparr>Stransmit_hpS := e\<rparr>) \<longleftrightarrow> same_message vm vm1"
  "same_message vm (vm1\<lparr>Sother_hpS := e\<rparr>) \<longleftrightarrow> same_message vm vm1"
  "same_message vm (vm1\<lparr>Snew_id_hotelS := e\<rparr>) \<longleftrightarrow> same_message vm vm1"
  "same_message vm (vm1\<lparr>Slosing_proxy_hotelS := e\<rparr>) \<longleftrightarrow> same_message vm vm1"
  "same_message vm (vm1\<lparr>Sheartbreak_hotelS := e\<rparr>) \<longleftrightarrow> same_message vm vm1"
  by (auto simp: same_message_def)

text \<open>One step of encoding, which leaves the message in its bounds.\<close>

definition in_bounds :: "vm \<Rightarrow> bool" where
  "in_bounds vm \<longleftrightarrow> Stransmit_hpS vm \<le> Smax_hpS vm \<and> 4 dvd Smax_hpS vm - Stransmit_hpS vm"

definition encoded :: "vm \<Rightarrow> vm \<Rightarrow> bool" where
  "encoded vm vm' \<longleftrightarrow> same_message vm vm' \<and>
     (in_bounds vm \<longrightarrow> in_bounds vm')"

lemma encoded_trans: "encoded vm vm1 \<Longrightarrow> encoded vm1 vm2 \<Longrightarrow> encoded vm vm2"
  by (auto simp: encoded_def same_message_def)

lemma same_message_next [simp]:
  "same_message vm (store_next d vm1) \<longleftrightarrow> same_message vm vm1"
  by (simp add: store_next_def)

lemma real_next_id_frame [simp]:
  "same_message vm (snd (real_next_id thing v vm1)) \<longleftrightarrow> same_message vm vm1"
  "Stransmit_hpS (snd (real_next_id thing v vm1)) = Stransmit_hpS vm1"
  by (simp_all add: real_next_id_def remember_new_id_def Let_def)

lemma get_uid_frame [simp]:
  "same_message vm (snd (get_uid thing i j vm1)) \<longleftrightarrow> same_message vm vm1"
  "Stransmit_hpS (snd (get_uid thing i j vm1)) = Stransmit_hpS vm1"
  by (simp_all add: get_uid_def Let_def case_prod_beta)

lemma debit_proxy_count_frame [simp]:
  "same_message vm (snd (debit_proxy_count p vm1)) \<longleftrightarrow> same_message vm vm1"
  "Stransmit_hpS (snd (debit_proxy_count p vm1)) = Stransmit_hpS vm1"
  by (simp_all add: debit_proxy_count_def remember_losing_proxy_def Let_def case_prod_beta)

lemma remember_heartbreak_frame [simp]:
  "same_message vm (remember_heartbreak t h vm1) \<longleftrightarrow> same_message vm vm1"
  "Stransmit_hpS (remember_heartbreak t h vm1) = Stransmit_hpS vm1"
  by (simp_all add: remember_heartbreak_def Let_def)

lemma copy_out_frame [simp]:
  "same_message vm (copy_out p e vm1) \<longleftrightarrow> same_message vm vm1"
proof (induction p e vm1 rule: copy_out.induct)
  case (1 p e vm1)
  then show ?case by (subst copy_out.simps) simp
qed

lemma copy_out_end: "4 dvd e - Stransmit_hpS vm \<Longrightarrow> Stransmit_hpS vm \<le> e \<Longrightarrow> Stransmit_hpS (copy_out p e vm) = e"
proof (induction p e vm rule: copy_out.induct)
  case (1 p e vm)
  show ?case
  proof (cases "Stransmit_hpS vm < e")
    case True
    then have "Stransmit_hpS vm + 4 \<le> e" "4 dvd e - (Stransmit_hpS vm + 4)" using 1(2) by presburger+
    then show ?thesis using True 1(1) by (subst copy_out.simps) simp
  qed (use 1(3) in \<open>subst copy_out.simps, simp\<close>)
qed

lemma in_bounds_poke [simp]: "in_bounds (poke a v vm) \<longleftrightarrow> in_bounds vm"
  by (simp add: in_bounds_def poke_def set_vmem_def)

text \<open>A cell more, when there is room for it.\<close>

lemma encodedI:
  assumes "same_message vm vm'"
    and "Stransmit_hpS vm' = Stransmit_hpS vm + n" "4 dvd n" "Stransmit_hpS vm + n - 4 < Smax_hpS vm \<or> n = 0"
  shows "encoded vm vm'"
proof -
  have "in_bounds vm'" if "in_bounds vm"
  proof -
    have b: "Stransmit_hpS vm \<le> Smax_hpS vm" "4 dvd Smax_hpS vm - Stransmit_hpS vm" using that by (simp_all add: in_bounds_def)
    have "n \<le> Smax_hpS vm - Stransmit_hpS vm" using b assms(3,4) by presburger
    then show ?thesis
      using b assms by (auto simp: in_bounds_def same_message_def diff_diff_add [symmetric])
  qed
  then show ?thesis using assms(1) by (simp add: encoded_def)
qed

lemma encoding_lost_encoded: "same_message vm vm' \<Longrightarrow> encoded vm (snd (encoding_lost vm'))"
  by (auto simp: encoded_def encoding_lost_def in_bounds_def same_message_def)

lemma encode_uid_encoded: "encoded vm (snd (encode_uid thing i vm))"
  by (rule encodedI [where n = 0]) (simp_all add: encode_uid_def case_prod_beta)

lemma encode_two_part_uid_encoded: "encoded vm (snd (encode_two_part_uid thing i vm))"
proof -
  define r where "r = get_uid thing i 4 vm"
  have m: "Smax_hpS (snd r) = Smax_hpS vm" "same_message vm (snd r)" "Stransmit_hpS (snd r) = Stransmit_hpS vm"
    by (simp_all add: r_def same_messageD(1))
  show ?thesis
  proof (cases "Stransmit_hpS vm + 8 < Smax_hpS vm")
    case True
    then show ?thesis
      by (intro encodedI [where n = 8])
        (auto simp: encode_two_part_uid_def Let_def case_prod_beta m r_def [symmetric])
  qed (simp add: encode_two_part_uid_def Let_def case_prod_beta m encoding_lost_encoded r_def [symmetric])
qed

lemma encode_proxy_encoded: "encoded vm (snd (encode_proxy thing vm))"
proof (cases "Stransmit_hpS vm + 12 < Smax_hpS vm")
  case True
  then show ?thesis
    by (intro encodedI [where n = 12]) (auto simp: encode_proxy_def Let_def case_prod_beta)
qed (simp add: encode_proxy_def encoding_lost_encoded)

lemma encode_full_object_encoded: "encoded vm (snd (encode_full_object h thing vm))"
proof (cases "Stransmit_hpS vm + header_span h < Smax_hpS vm")
  case True
  then show ?thesis
    by (intro encodedI [where n = "4 + header_span h"])
      (auto simp: encode_full_object_def Let_def copy_out_end dvd_add)
qed (simp add: encode_full_object_def encoding_lost_encoded)

lemma encode_object_encoded: "encoded vm (snd (encode_object thing vm))"
proof -
  have "encoded vm vm" by (simp add: encoded_def)
  then show ?thesis
    by (simp add: encode_object_def Let_def encode_uid_encoded encode_two_part_uid_encoded encode_proxy_encoded
        encode_full_object_encoded)
qed

lemma encode_locations_encoded: "encoded vm (encode_locations p stop_at vm)"
proof (induction p stop_at vm rule: encode_locations.induct)
  case (1 p stop_at vm)
  have r: "encoded vm vm" by (simp add: encoded_def)
  show ?case
  proof (cases "p < stop_at")
    case True
    let ?t = "load (vmem vm) p"
    have s: "encoded vm (poke p (fst (encode_object ?t vm)) (snd (encode_object ?t vm)))"
      using encode_object_encoded [of vm ?t] by (simp add: encoded_def)
    show ?thesis
      using True 1 encoded_trans [OF s]
      by (subst encode_locations.simps) (auto simp: Let_def case_prod_beta)
  qed (use r in \<open>subst encode_locations.simps, simp\<close>)
qed

lemma do_encoding_ends:
  "\<exists>ok vm'. do_encoding start vm = Some (ok, vm') \<and> encoded vm vm' \<and>
     (ok \<longleftrightarrow> Stransmit_hpS vm' < Smax_hpS vm)"
proof (induction "nat (Smax_hpS vm - Stransmit_hpS vm)" arbitrary: start vm rule: less_induct)
  case less
  define vm1 where "vm1 = encode_locations start (Stransmit_hpS vm) vm"
  have e: "encoded vm vm1" by (simp add: vm1_def encode_locations_encoded)
  then have m: "Smax_hpS vm1 = Smax_hpS vm" by (simp add: encoded_def same_message_def)
  have step: "do_encoding start vm = (if Stransmit_hpS vm1 < Smax_hpS vm1
      then if Stransmit_hpS vm < Stransmit_hpS vm1 then do_encoding (Stransmit_hpS vm) vm1 else Some (True, vm1)
      else Some (False, vm1))"
    by (subst do_encoding.simps) (simp only: Let_def vm1_def)
  consider "Smax_hpS vm \<le> Stransmit_hpS vm1" | "Stransmit_hpS vm1 < Smax_hpS vm" "Stransmit_hpS vm1 \<le> Stransmit_hpS vm"
    | "Stransmit_hpS vm1 < Smax_hpS vm" "Stransmit_hpS vm < Stransmit_hpS vm1" by linarith
  then show ?case
  proof cases
    case 3
    then obtain ok vm' where "do_encoding (Stransmit_hpS vm) vm1 = Some (ok, vm')" "encoded vm1 vm'"
      "ok \<longleftrightarrow> Stransmit_hpS vm' < Smax_hpS vm1"
      using less [of vm1 "Stransmit_hpS vm"] m by auto
    then show ?thesis using 3 m encoded_trans [OF e] by (simp add: step)
  next
    case 1
    then show ?thesis using e m by (intro exI [of _ False]) (simp add: step)
  next
    case 2
    then show ?thesis using e m by (intro exI [of _ True]) (simp add: step)
  qed
qed

lemma do_encoding_result:
  "\<exists>ok vm'. (if Stransmit_hpS vm < Smax_hpS vm then do_encoding start vm else Some (False, vm)) = Some (ok, vm') \<and>
     encoded vm vm' \<and> (ok \<longleftrightarrow> Stransmit_hpS vm' < Smax_hpS vm')"
proof -
  obtain ok vm' where "do_encoding start vm = Some (ok, vm')" "encoded vm vm'" "ok \<longleftrightarrow> Stransmit_hpS vm' < Smax_hpS vm"
    using do_encoding_ends [of start vm] by blast
  moreover have "Smax_hpS vm' = Smax_hpS vm" using calculation(2) by (simp add: encoded_def same_messageD)
  moreover have "encoded vm vm" by (simp add: encoded_def)
  ultimately show ?thesis by auto
qed

subsection \<open>Pointers in a message\<close>

definition pointer_word :: "int \<Rightarrow> int \<Rightarrow> long" where
  "pointer_word kind info = word_of_int (3 + 4 * kind + 256 * info)"

lemma and63: "63 AND (w :: long) = word_of_int (uint w mod 64)"
proof -
  have "(63 :: long) = mask 6" by (simp add: mask_eq_exp_minus_1)
  then have "63 AND w = take_bit 6 w" by (simp only: take_bit_eq_mask and.commute)
  then have "uint (63 AND w) = uint w mod 64" by (simp only: unsigned_take_bit_eq) (simp add: take_bit_eq_mod)
  then show ?thesis by (metis word_of_int_uint)
qed

lemma pointer_word_parts:
  assumes "0 \<le> kind" "kind < 64" "0 \<le> info" "info < 8388608"
  shows "STOBP (pointer_word kind info)" "63 AND sar 2 (pointer_word kind info) = word_of_int kind"
    "sar 8 (pointer_word kind info) = word_of_int info"
proof -
  have s: "sint (pointer_word kind info) = 3 + 4 * kind + 256 * info"
    using assms by (simp add: pointer_word_def sint_of_long del: of_int_add of_int_mult)
  have "uint (pointer_word kind info) = 3 + 4 * kind + 256 * info"
    using assms by (simp add: pointer_word_def sint_nonneg_uint del: of_int_add of_int_mult)
  moreover have "(3 + 4 * kind + 256 * info) mod 4 = 3"
    using mod_mult_self1 [of 3 "kind + 64 * info" "4 :: int"] by (simp add: algebra_simps)
  ultimately show "STOBP (pointer_word kind info)" by (simp add: tag_simps)
  have "(3 + 4 * kind + 256 * info) div 4 = kind + 64 * info"
    using int_div_pos_eq [of "3 + 4 * kind + 256 * info" 4 "kind + 64 * info" 3] by simp
  then have "sar 2 (pointer_word kind info) = word_of_int (kind + 64 * info)"
    by (simp add: sar_of_int s)
  moreover have "uint (word_of_int (kind + 64 * info) :: long) = kind + 64 * info"
    using assms by (simp add: sint_nonneg_uint del: of_int_add of_int_mult)
  ultimately show "63 AND sar 2 (pointer_word kind info) = word_of_int kind"
    using assms by (simp add: and63)
  show "sar 8 (pointer_word kind info) = word_of_int info"
    using assms int_div_pos_eq [of "3 + 4 * kind + 256 * info" 256 info "3 + 4 * kind"] by (simp add: sar_of_int s)
qed

lemma pointer_word_offset:
  "3 + 4 * of_int kind + push_bit 8 (word_of_int n) = pointer_word kind n"
  by (simp add: pointer_word_def push_bit_eq_mult)

lemma pointer_word_uid:
  assumes "fixnum_range u"
  shows "7 + push_bit 6 ((- 4) AND push_bit 2 (word_of_int u)) = pointer_word 1 u"
proof -
  have "(- 4) AND push_bit 2 w = push_bit 2 w" for w :: long
  proof -
    have "4 dvd 4 * uint w mod 4294967296" by (simp add: dvd_mod_iff)
    then show ?thesis by (simp only: word_uint_eq_iff minus_four_and uint_push_bit2 dvd_div_mult_self)
  qed
  then show ?thesis by (simp add: pointer_word_def push_bit_eq_mult)
qed

subsection \<open>Objects that are copied\<close>

lemma copy_out_cells:
  "p + 4 * int n \<le> Stransmit_hpS vm \<or> Stransmit_hpS vm + 4 * int n \<le> p \<Longrightarrow>
   copy_out p (Stransmit_hpS vm + 4 * int n) vm =
     (set_vmem (store_cells (vmem vm) (Stransmit_hpS vm) (map (\<lambda>i. load (vmem vm) (p + 4 * int i)) [0..<n])) vm)
     \<lparr>Stransmit_hpS := Stransmit_hpS vm + 4 * int n\<rparr>"
proof (induction n arbitrary: p vm)
  case (Suc n)
  let ?x = "load (vmem vm) p"
  let ?vm = "store_next ?x vm"
  have "p + 4 + 4 * int n \<le> Stransmit_hpS ?vm \<or> Stransmit_hpS ?vm + 4 * int n \<le> p + 4" using Suc.prems by auto
  note IH = Suc.IH [OF this]
  have cells: "map (\<lambda>i. load (vmem ?vm) (p + 4 + 4 * int i)) [0..<n] =
      map (\<lambda>i. load (vmem vm) (p + 4 * int (Suc i))) [0..<n]"
    using Suc.prems by (intro map_cong refl) (auto simp: store_next_def poke_def load_store_other algebra_simps)
  have row: "map (\<lambda>i. load (vmem vm) (p + 4 * int i)) [0..<Suc n] =
      ?x # map (\<lambda>i. load (vmem vm) (p + 4 * int (Suc i))) [0..<n]"
    by (simp only: upt_conv_Cons map_Suc_upt [symmetric]) simp
  have "copy_out p (Stransmit_hpS vm + 4 * int (Suc n)) vm =
      copy_out (p + 4) (Stransmit_hpS ?vm + 4 * int n) ?vm"
    by (subst copy_out.simps) (simp add: algebra_simps)
  also have "\<dots> = (set_vmem (store_cells (vmem ?vm) (Stransmit_hpS ?vm)
      (map (\<lambda>i. load (vmem vm) (p + 4 * int (Suc i))) [0..<n])) ?vm)\<lparr>Stransmit_hpS := Stransmit_hpS ?vm + 4 * int n\<rparr>"
    by (simp only: IH cells)
  also have "\<dots> = (set_vmem (store_cells (vmem vm) (Stransmit_hpS vm)
      (map (\<lambda>i. load (vmem vm) (p + 4 * int i)) [0..<Suc n])) vm)\<lparr>Stransmit_hpS := Stransmit_hpS vm + 4 * int (Suc n)\<rparr>"
    by (simp only: row) (simp add: store_next_def poke_def set_vmem_def)
  finally show ?case .
qed (simp add: copy_out.simps set_vmem_def)

text \<open>
  A message has arrived: the byte vector of the receiver holds the message but for its first two cells, the
  header, which is there already, and the length.
\<close>

definition received :: "long \<Rightarrow> vm \<Rightarrow> vm \<Rightarrow> bool" where
  "received message vm vm' \<longleftrightarrow> (\<forall>x. SstartS vm + 8 \<le> x \<and> x < Stransmit_hpS vm \<longrightarrow>
     vmem vm' (ADDRESS_AFTER_HEADER message + (x - (SstartS vm + 8))) = vmem vm x)"

lemma start_decode_False [simp]:
  "vmem (start_decode message False vm) = vmem vm"
  "SstartS (start_decode message False vm) = ADDRESS_AFTER_HEADER message - 4"
  by (simp_all add: start_decode_def Let_def set_vmem_def)

lemma received_load:
  assumes "received message vm vm'" "SstartS vm + 8 \<le> x" "x + 4 \<le> Stransmit_hpS vm"
  shows "load (vmem vm') (ADDRESS_AFTER_HEADER message + (x - (SstartS vm + 8))) = load (vmem vm) x"
proof (rule load_cong)
  fix i :: int
  assume "0 \<le> i" "i < 4"
  then have "vmem vm' (ADDRESS_AFTER_HEADER message + (x + i - (SstartS vm + 8))) = vmem vm (x + i)"
    using assms by (simp add: received_def)
  then show "vmem vm' (ADDRESS_AFTER_HEADER message + (x - (SstartS vm + 8)) + i) = vmem vm (x + i)"
    by (simp add: algebra_simps)
qed

text \<open>The object at an offset in the receiver's message is the one at this offset in the sender's.\<close>

lemma received_object:
  fixes message vm vm' n
  defines "y \<equiv> stob_at (ADDRESS_AFTER_HEADER message - 4 + n)"
  assumes arrived: "received message vm vm'" and offset: "12 \<le> n" "ADDRESS_AFTER_HEADER message + n < 4294967296"
    and inside: "SstartS vm + n + 4 + s \<le> Stransmit_hpS vm" "0 \<le> s"
  shows "stob_header (vmem vm') y = load (vmem vm) (SstartS vm + n)"
    and "0 \<le> i \<Longrightarrow> 4 * i < s \<Longrightarrow> 4 dvd s \<Longrightarrow> STOB_REF (vmem vm') y i = load (vmem vm) (SstartS vm + n + 4 + 4 * i)"
proof -
  have "0 \<le> ADDRESS_AFTER_HEADER message" by (simp add: ADDRESS_AFTER_HEADER_def)
  then have y: "ADDRESS_AFTER_HEADER y = ADDRESS_AFTER_HEADER message - 4 + n"
    unfolding y_def using offset by (intro ADDRESS_stob_at) linarith+
  show "stob_header (vmem vm') y = load (vmem vm) (SstartS vm + n)"
    using received_load [OF arrived, of "SstartS vm + n"] offset inside by (simp add: stob_header_def y algebra_simps)
  assume i: "0 \<le> i" "4 * i < s" "4 dvd s"
  then have "4 * i + 4 \<le> s" by presburger
  then show "STOB_REF (vmem vm') y i = load (vmem vm) (SstartS vm + n + 4 + 4 * i)"
    using received_load [OF arrived, of "SstartS vm + n + 4 + 4 * i"] offset inside i
    by (simp add: STOB_REF_def y algebra_simps)
qed

lemma encode_object_kind:
  assumes "HEADERP (stob_header (vmem vm) thing)" "header_type (stob_header (vmem vm) thing) \<notin> {1, 4, 11, 13, 14, 16}"
  shows "encode_object thing vm = encode_full_object (stob_header (vmem vm) thing) thing vm"
  using assms stob_not_header by (auto simp: encode_object_def Let_def)

text \<open>The offset is read with a signed shift: one of half the range or more comes out too low.\<close>

definition read_offset :: "int \<Rightarrow> int" where
  "read_offset n = (if n < 8388608 then n else n - 16777216)"

lemma pointer_word_read:
  assumes "0 \<le> kind" "kind < 64" "0 \<le> n" "n < 16777216"
  shows "STOBP (pointer_word kind n)" "63 AND sar 2 (pointer_word kind n) = word_of_int kind"
    "sar 8 (pointer_word kind n) = word_of_int (read_offset n)"
proof -
  have u: "uint (pointer_word kind n) = 3 + 4 * kind + 256 * n"
    using assms by (simp add: pointer_word_def uint_word_of_int del: of_int_add of_int_mult)
  have s: "sint (pointer_word kind n) = 3 + 4 * kind + 256 * read_offset n"
  proof -
    have "pointer_word kind n = word_of_int (3 + 4 * kind + 256 * read_offset n)"
      by (simp add: pointer_word_def read_offset_def word_of_int_eq_iff take_bit_eq_mod mod_eq_dvd_iff del: of_int_add of_int_mult)
    then show ?thesis using assms by (simp add: read_offset_def sint_of_long del: of_int_add of_int_mult)
  qed
  have "(3 + 4 * kind + 256 * n) mod 4 = 3"
    using mod_mult_self1 [of 3 "kind + 64 * n" "4 :: int"] by (simp add: algebra_simps)
  then show "STOBP (pointer_word kind n)" using u by (simp add: tag_simps)
  have "(3 + 4 * kind + 256 * read_offset n) div 4 = kind + 64 * read_offset n"
    using int_div_pos_eq [of "3 + 4 * kind + 256 * read_offset n" 4 "kind + 64 * read_offset n" 3] by simp
  then have k: "sar 2 (pointer_word kind n) = word_of_int (kind + 64 * read_offset n)"
    by (simp add: sar_of_int s)
  have "(kind + 64 * read_offset n) mod 4294967296 mod 64 = kind"
    using assms(1,2) by (simp add: mod_mod_cancel)
  then show "63 AND sar 2 (pointer_word kind n) = word_of_int kind"
    by (simp add: and63 k uint_word_of_int del: of_int_add of_int_mult)
  show "sar 8 (pointer_word kind n) = word_of_int (read_offset n)"
    using assms int_div_pos_eq [of "3 + 4 * kind + 256 * read_offset n" 256 "read_offset n" "3 + 4 * kind"]
    by (simp add: sar_of_int s)
qed

lemma decode_object_offset:
  assumes "0 \<le> n" "n < 16777216"
  shows "decode_object (pointer_word 0 n) address_space addr stob_start vm = (stob_at (SstartS vm + read_offset n), vm)"
proof -
  have "sint (word_of_int (read_offset n) :: long) = read_offset n"
    using assms by (intro sint_of_long) (simp add: read_offset_def)
  then show ?thesis using pointer_word_read [of 0 n] assms by (simp add: decode_object_def Let_def)
qed

lemma span_cells: "4 * int (nat (header_span h div 4)) = header_span h"
  using pos_imp_zdiv_nonneg_iff [of 4 "header_span h"] by simp

lemma encode_full_object_eq:
  fixes vm thing h
  defines "a \<equiv> ADDRESS_AFTER_HEADER thing" and "t \<equiv> Stransmit_hpS vm" and "r \<equiv> Sother_hpS vm"
    and "p \<equiv> pointer_word 0 (Stransmit_hpS vm - SstartS vm)"
  defines "m1 \<equiv> store (store (store (store (store (vmem vm) t h) (a - 4) p) (r + 8)
      (word_of_int (Sheartbreak_hotelS vm))) r thing) (r + 4) h"
  assumes room: "t + header_span h < Smax_hpS vm" and below: "a + header_span h \<le> t"
  shows "encode_full_object h thing vm = (p, (set_vmem (store_cells m1 (t + 4)
      (map (\<lambda>i. load m1 (a + 4 * int i)) [0..<nat (header_span h div 4)])) vm)
      \<lparr>Stransmit_hpS := t + 4 + header_span h, Sother_hpS := r + 12, Sheartbreak_hotelS := r\<rparr>)"
proof -
  define n where "n = nat (header_span h div 4)"
  define v where "v = remember_heartbreak thing h (poke (a + (- 4)) p (store_next h vm))"
  have n: "4 * int n = header_span h" by (simp only: n_def span_cells)
  have "3 + message_offset vm = p"
    using pointer_word_offset [of 0 "Stransmit_hpS vm - SstartS vm"] by (simp add: message_offset_def p_def)
  then have "encode_full_object h thing vm = (p, copy_out a (Stransmit_hpS v + 4 * int n) v)"
    using room by (simp add: encode_full_object_def v_def Let_def a_def t_def n)
  moreover have "Stransmit_hpS v = t + 4" by (simp add: v_def t_def)
  moreover have "vmem v = m1"
    by (simp add: v_def m1_def remember_heartbreak_def store_next_def poke_def Let_def r_def t_def set_vmem_def)
  moreover have "v = (set_vmem m1 vm)\<lparr>Stransmit_hpS := t + 4, Sother_hpS := r + 12, Sheartbreak_hotelS := r\<rparr>"
    by (simp add: v_def m1_def remember_heartbreak_def store_next_def poke_def Let_def r_def t_def set_vmem_def)
  moreover have "a + 4 * int n \<le> Stransmit_hpS v" using below n calculation(2) by simp
  ultimately show ?thesis
    using copy_out_cells [of a n v] n by (simp add: set_vmem_def add.assoc n_def [symmetric])
qed

text \<open>
  Property C17. An object is copied once: the message gets its header and its cells as they
  are, at its end, and when the same object is met again, the pointer is the same and the message does not
  grow, so that sharing and cycles are kept. When the message has arrived, be it at once or after more
  has been encoded (\<open>vm'\<close>), and wherever the receiver has put it, the pointer is decoded to an
  object of the receiver whose header and cells are those the message has there. This is so for offsets
  below \<open>2^23\<close>; from there on, up to the limit of a message, the sender makes a pointer as well, but the
  receiver takes the offset for a negative one and the address is 16777216 too low.
\<close>

theorem copied_object_roundtrip:
  fixes vm thing message n
  defines "h \<equiv> stob_header (vmem vm) thing" and "a \<equiv> ADDRESS_AFTER_HEADER thing"
    and "t \<equiv> Stransmit_hpS vm" and "y \<equiv> stob_at (ADDRESS_AFTER_HEADER message - 4 + n)"
  assumes kind: "HEADERP h" "header_type h \<notin> {1, 4, 11, 13, 14, 16}"
    and room: "t + header_span h < Smax_hpS vm" "t = SstartS vm + n" "12 \<le> n" "n < 16777216"
    and apart: "4 \<le> a" "a + header_span h \<le> t"
      "Sother_hpS vm + 12 \<le> a - 4 \<or> t + 4 + header_span h \<le> Sother_hpS vm"
    and encode: "encode_object thing vm = (p, vm1)"
    and later: "SstartS vm' = SstartS vm" "t + 4 + header_span h \<le> Stransmit_hpS vm'"
    and arrived: "received message vm' vm2" "ADDRESS_AFTER_HEADER message + n < 4294967296"
    and decoding: "SstartS vm3 = SstartS (start_decode message False vm2)"
  shows "load (vmem vm1) t = h \<and> Stransmit_hpS vm1 = t + 4 + header_span h \<and>
    (\<forall>i. 0 \<le> i \<and> 4 * i < header_span h \<longrightarrow> load (vmem vm1) (t + 4 + 4 * i) = STOB_REF (vmem vm) thing i) \<and>
    STOBP p \<and> encode_object thing vm1 = (p, vm1) \<and>
    decode_object p address_space addr stob_start vm3 = (if n < 8388608 then y else y - 16777216, vm3) \<and>
    stob_header (vmem (start_decode message False vm2)) y = load (vmem vm') t \<and>
    (\<forall>i. 0 \<le> i \<and> 4 * i < header_span h \<longrightarrow>
       STOB_REF (vmem (start_decode message False vm2)) y i = load (vmem vm') (t + 4 + 4 * i))"
proof -
  have e: "encode_full_object h thing vm = (p, vm1)"
    using encode_object_kind [of vm thing] kind encode by (simp add: h_def)
  have n: "Stransmit_hpS vm - SstartS vm = n" using room(2) by (simp add: t_def)
  note eq = encode_full_object_eq [of vm h thing, folded a_def t_def, OF room(1) apart(2), unfolded e prod.inject,
    folded t_def, unfolded n [folded t_def]]
  have p: "p = pointer_word 0 n" using eq by simp
  note parts = pointer_word_read [of 0 n, folded p]
  have at: "a \<le> t" "Sother_hpS vm + 12 \<le> a - 4 \<or> t + 4 \<le> Sother_hpS vm"
    using apart header_span_nonneg [of h] by linarith+
  have cells: "load (vmem vm1) (t + 4 + 4 * i) = STOB_REF (vmem vm) thing i" if "0 \<le> i" "4 * i < header_span h" for i
  proof -
    obtain q where "header_span h = 4 * q" using header_span_dvd [of h] by (elim dvdE)
    then have "nat i < nat (header_span h div 4)" "4 * int (nat i) = 4 * i" using that by auto
    then show ?thesis
      using that apart eq load_store_cells [where i = "nat i" and a = "t + 4"]
      by (auto simp: STOB_REF_def load_store_other a_def [symmetric] nth_append)
  qed
  define m1 where "m1 = store (store (store (store (store (vmem vm) t h) (a - 4) p) (Sother_hpS vm + 8)
      (word_of_int (Sheartbreak_hotelS vm))) (Sother_hpS vm) thing) (Sother_hpS vm + 4) h"
  have "load m1 t = h" "load m1 (a - 4) = p" using at unfolding m1_def by (auto simp: load_store_other)
  moreover obtain cs where "vmem vm1 = store_cells m1 (t + 4) cs" using eq by (simp add: m1_def p)
  ultimately have header: "load (vmem vm1) t = h" and fwd: "stob_header (vmem vm1) thing = p"
    using at(1) by (simp_all add: stob_header_def a_def [symmetric] load_store_cells_outside)
  have stob: "STOBP p" using parts(1) room by simp
  have "Stransmit_hpS vm1 = t + 4 + header_span h" using eq by simp
  moreover have "encode_object thing vm1 = (p, vm1)" using stob fwd by (simp add: encode_object_def Let_def)
  moreover have "decode_object p address_space addr stob_start vm3 = (if n < 8388608 then y else y - 16777216, vm3)"
    using decode_object_offset [of n] room decoding by (simp add: p y_def stob_at_def read_offset_def)
  moreover have "SstartS vm' + n + 4 + header_span h \<le> Stransmit_hpS vm'" using later room(2) by simp
  note there = received_object [OF arrived(1) room(3) arrived(2) this header_span_nonneg, folded y_def,
    unfolded later(1) room(2) [symmetric]]
  ultimately show ?thesis using cells header stob there header_span_dvd [of h] by simp
qed

subsection \<open>Objects that are known by number\<close>

text \<open>The types whose identification is one number, with the offset of the cell it is in.\<close>

definition numbered_by :: "long \<Rightarrow> int \<Rightarrow> bool" where
  "numbered_by type cell \<longleftrightarrow> type = 1 \<and> cell = 0 \<or> type = 13 \<and> cell = 8 \<or> type = 16 \<and> cell = 0"

lemma encode_object_uid:
  assumes "HEADERP (stob_header (vmem vm) thing)" "numbered_by (header_type (stob_header (vmem vm) thing)) cell"
  shows "encode_object thing vm = encode_uid thing cell vm"
  using assms stob_not_header by (auto simp: encode_object_def numbered_by_def Let_def)

lemma get_uid_result:
  "get_uid thing cell vector vm = (uid, vm1) \<Longrightarrow> load (vmem vm1) (ADDRESS_AFTER_HEADER thing + cell) = uid"
  by (auto simp: get_uid_def poke_def Let_def split: if_splits prod.splits)

lemma encode_uid_pointer:
  assumes "encode_uid thing cell vm = (p, vm1)"
    and "load (vmem vm1) (ADDRESS_AFTER_HEADER thing + cell) = push_bit 2 (word_of_int u)" "0 \<le> u" "u < 8388608"
  shows "p = pointer_word 1 u"
proof -
  obtain uid where g: "get_uid thing cell 4 vm = (uid, vm1)" and p: "p = 7 + push_bit 6 ((- 4) AND uid)"
    using assms(1) by (auto simp: encode_uid_def split: prod.splits)
  have "uid = push_bit 2 (word_of_int u)" using get_uid_result [OF g] assms(2) by simp
  then show ?thesis using pointer_word_uid [of u] assms(3,4) by (simp only: p) (simp add: fixnum_range_def)
qed

lemma sint_number:
  assumes "0 \<le> u" "u < 8388608"
  shows "sint (word_of_int u :: long) = u" "sint (push_bit 2 (word_of_int u) :: long) = 4 * u"
proof -
  have "push_bit 2 (word_of_int u) = (word_of_int (4 * u) :: long)" by (simp add: push_bit_eq_mult)
  then show "sint (word_of_int u :: long) = u" "sint (push_bit 2 (word_of_int u) :: long) = 4 * u"
    using assms sint_of_long [of u] sint_of_long [of "4 * u"] by simp_all
qed

lemma decode_object_uid:
  assumes "0 \<le> u" "u < 8388608"
  shows "decode_object (pointer_word 1 u) address_space addr stob_start vm =
    decode_uid (word_of_int u) address_space 1 addr stob_start vm"
  using assms pointer_word_parts [of 1 u] by (simp add: decode_object_def Let_def)

text \<open>
  Property C19. A symbol, an external or an address space is sent by its number: what the
  receiver's vector for the sender has at that number takes its place, and if there is nothing yet the
  number goes on the list of what is missing. The message itself does not grow. (Locations and templates
  are sent with their owner, see the next property.)
\<close>

theorem numbered_object_roundtrip:
  fixes vm thing
  assumes "HEADERP (stob_header (vmem vm) thing)" "numbered_by (header_type (stob_header (vmem vm) thing)) cell"
    and "encode_object thing vm = (p, vm1)"
    and "load (vmem vm1) (ADDRESS_AFTER_HEADER thing + cell) = push_bit 2 (word_of_int u)" "0 \<le> u" "u < 8388608"
  shows "STOBP p \<and> Stransmit_hpS vm1 = Stransmit_hpS vm \<and>
    (let y = lookup_uid (vmem vm2) 4 (word_of_int u) sender
     in decode_object p sender addr stob_start vm2 =
          (if STOBP y then (y, vm2) else add_pending 1 (word_of_int u) 1 addr stob_start vm2))"
proof -
  have e: "encode_uid thing cell vm = (p, vm1)" using encode_object_uid assms(1-3) by simp
  then have "vm1 = snd (get_uid thing cell 4 vm)" by (auto simp: encode_uid_def split: prod.splits)
  moreover have p: "p = pointer_word 1 u" using encode_uid_pointer [OF e assms(4-6)] .
  ultimately show ?thesis
    using pointer_word_parts(1) [of 1 u] decode_object_uid assms(5,6) by (simp add: decode_uid_def Let_def)
qed

text \<open>The number of the owner and the number there that a location or template is known by.\<close>

definition identified :: "memory \<Rightarrow> long \<Rightarrow> int \<Rightarrow> int \<Rightarrow> bool" where
  "identified m uid owner u \<longleftrightarrow>
     (if pairP m uid then car m uid = push_bit 2 (word_of_int owner) \<and> cdr m uid = push_bit 2 (word_of_int u)
      else owner = 1 \<and> uid = push_bit 2 (word_of_int u))"

lemma encode_object_two_part:
  assumes "HEADERP (stob_header (vmem vm) thing)"
    and "header_type (stob_header (vmem vm) thing) = 4 \<and> cell = 0 \<or> header_type (stob_header (vmem vm) thing) = 11 \<and> cell = 8"
  shows "encode_object thing vm = encode_two_part_uid thing cell vm"
  using assms stob_not_header by (auto simp: encode_object_def Let_def)

lemma encode_two_part_uid_cells:
  fixes vm thing cell
  defines "t \<equiv> Stransmit_hpS vm"
  assumes room: "t + 8 < Smax_hpS vm" and id: "get_uid thing cell 4 vm = (uid, vm0)" "identified (vmem vm0) uid owner u"
    and apart: "pairP (vmem vm0) uid \<Longrightarrow> ADDRESS_AFTER_HEADER uid + 8 \<le> t"
    and encode: "encode_two_part_uid thing cell vm = (p, vm1)"
  shows "p = pointer_word 2 (t - SstartS vm)" "Stransmit_hpS vm1 = t + 8"
    "load (vmem vm1) t = push_bit 2 (word_of_int owner)" "load (vmem vm1) (t + 4) = push_bit 2 (word_of_int u)"
proof -
  have vm0: "vm0 = snd (get_uid thing cell 4 vm)" by (simp add: id(1))
  then have "same_message vm vm0" by simp
  note f = same_messageD [OF this]
  have t: "Stransmit_hpS vm0 = t" by (simp add: vm0 t_def)
  have four: "(4 :: long) = push_bit 2 (word_of_int 1)" by (simp add: push_bit_eq_mult)
  define x where "x = push_bit 2 (word_of_int owner :: long)"
  define v where "v = store_next x vm0"
  have "vm1 = store_next (push_bit 2 (word_of_int u)) v \<and> p = 11 + message_offset vm0"
  proof (cases "pairP (vmem vm0) uid")
    case True
    then have o: "car (vmem vm0) uid = x" "cdr (vmem vm0) uid = push_bit 2 (word_of_int u)"
      using id(2) by (simp_all add: identified_def x_def)
    have "encode_two_part_uid thing cell vm = (11 + message_offset vm0, store_next (cdr (vmem v) uid) v)"
      using True room by (simp add: encode_two_part_uid_def id(1) f t Let_def o(1) v_def)
    moreover have "cdr (vmem v) uid = cdr (vmem vm0) uid"
      using apart [OF True] by (simp add: v_def cdr_def store_next_def poke_def set_vmem_def load_store_other t)
    ultimately show ?thesis using encode o(2) by simp
  next
    case False
    then have o: "uid = push_bit 2 (word_of_int u)" "x = 4" using id(2) four by (simp_all add: identified_def x_def)
    have "encode_two_part_uid thing cell vm = (11 + message_offset vm0, store_next uid v)"
      using False room by (simp add: encode_two_part_uid_def id(1) f t Let_def o(2) v_def)
    then show ?thesis using encode o(1) by simp
  qed
  then have r: "vm1 = store_next (push_bit 2 (word_of_int u)) v" "p = 11 + message_offset vm0" by simp_all
  show "p = pointer_word 2 (t - SstartS vm)"
    using pointer_word_offset [of 2 "t - SstartS vm"] by (simp add: r(2) message_offset_def f t)
  show "Stransmit_hpS vm1 = t + 8" by (simp add: r(1) v_def t)
  show "load (vmem vm1) t = push_bit 2 (word_of_int owner)" "load (vmem vm1) (t + 4) = push_bit 2 (word_of_int u)"
    by (simp_all add: r(1) v_def x_def store_next_def poke_def set_vmem_def t load_store_other)
qed

text \<open>
  Property C20. A location or a template is sent with its owner: the message grows by two cells, the
  number of the address space that owns it, which is 1 for the sender, and its number there. The receiver
  looks up the owner in the vector it has for the sender, and the object in the vector of the owner; if
  there is no such address space, or no such object yet, both numbers go on the list of what is missing.
  The two cells become a byte vector, so that the message is a row of objects. As for copied objects
  the offset is below \<open>2^23\<close>.
\<close>

theorem owned_object_roundtrip:
  fixes vm thing message n
  defines "h \<equiv> stob_header (vmem vm) thing" and "t \<equiv> Stransmit_hpS vm" and "d \<equiv> ADDRESS_AFTER_HEADER message + n - 8"
  assumes kind: "HEADERP h" "header_type h = 4 \<and> cell = 0 \<or> header_type h = 11 \<and> cell = 8"
    and room: "t + 8 < Smax_hpS vm" "t = SstartS vm + n" "12 \<le> n" "n < 8388608"
    and id: "get_uid thing cell 4 vm = (uid, vm0)" "identified (vmem vm0) uid owner u" "fixnum_range owner" "fixnum_range u"
    and apart: "pairP (vmem vm0) uid \<Longrightarrow> ADDRESS_AFTER_HEADER uid + 8 \<le> t"
    and encode: "encode_object thing vm = (p, vm1)"
    and arrived: "received message vm1 vm2"
  shows "Stransmit_hpS vm1 = t + 8 \<and> load (vmem vm1) t = push_bit 2 (word_of_int owner) \<and>
    load (vmem vm1) (t + 4) = push_bit 2 (word_of_int u) \<and> STOBP p \<and>
    (let vm3 = start_decode message False vm2; vm4 = poke d 1106 vm3;
         space = lookup_uid (vmem vm4) 4 (word_of_int owner) sender; y = lookup_uid (vmem vm4) 4 (word_of_int u) space
     in decode_object p sender addr stob_start vm3 =
          (if stob_of_type (vmem vm4) space 16 \<and> STOBP y then (y, vm4)
           else add_pending (word_of_int owner) (word_of_int u) 1 addr stob_start vm4))"
proof -
  have e: "encode_two_part_uid thing cell vm = (p, vm1)"
    using encode_object_two_part [of vm thing cell] kind encode by (simp add: h_def)
  note cells = encode_two_part_uid_cells [of vm thing cell, folded t_def, OF room(1) id(1,2) apart e]
  have p: "p = pointer_word 2 n" using cells(1) room(2) by simp
  note parts = pointer_word_parts [of 2 n, folded p]
  have s: "SstartS vm1 = SstartS vm"
    using encode_object_encoded [of vm thing] encode by (simp add: encoded_def same_messageD)
  define vm3 where "vm3 = start_decode message False vm2"
  have there: "load (vmem vm3) d = push_bit 2 (word_of_int owner)" "load (vmem vm3) (d + 4) = push_bit 2 (word_of_int u)"
    using received_load [OF arrived, of t] received_load [OF arrived, of "t + 4"] cells(2-4) room
    by (simp_all add: s vm3_def d_def algebra_simps)
  have "sint (- 4 + word_of_int n :: long) = n - 4"
    using sint_of_long [of "- 4 + n"] room(3,4) by simp
  then have place: "SstartS vm3 + sint (- 4 + word_of_int n :: long) = d" by (simp add: vm3_def d_def)
  have k: "63 AND sar 2 p = 2" "sar 8 p = word_of_int n" using parts room by simp_all
  have "decode_object p sender addr stob_start vm3 = (let vm4 = poke d 1106 vm3;
         space = lookup_uid (vmem vm4) 4 (word_of_int owner) sender; y = lookup_uid (vmem vm4) 4 (word_of_int u) space
     in if stob_of_type (vmem vm4) space 16 \<and> STOBP y then (y, vm4)
           else add_pending (word_of_int owner) (word_of_int u) 1 addr stob_start vm4)"
    unfolding decode_object_def k Let_def place there sar_push2 [OF id(3)] sar_push2 [OF id(4)] decode_uid_def by simp
  then show ?thesis using cells parts(1) room by (simp add: vm3_def [symmetric] Let_def)
qed

text \<open>A vector of numbered objects has a free number, and the cells an object's number is written to are not in it.\<close>

definition free_uid :: "vm \<Rightarrow> long \<Rightarrow> int \<Rightarrow> int \<Rightarrow> bool" where
  "free_uid vm thing cell u \<longleftrightarrow>
     (let a = ADDRESS_AFTER_HEADER thing + cell; s = ADDRESS_AFTER_HEADER (Sour_address_spaceS vm) + 4;
          vector = load (vmem vm) s; b = ADDRESS_AFTER_HEADER vector; e = b + 4 * sint (cell_count (vmem vm) vector)
      in load (vmem vm) a = 1 \<and> load (vmem vm) b = push_bit 2 (word_of_int u) \<and>
         0 < u \<and> u < sint (cell_count (vmem vm) vector) \<and>
         (a + 4 \<le> b - 4 \<or> e \<le> a) \<and> (s + 4 \<le> b - 4 \<or> e \<le> s) \<and> (a + 4 \<le> s \<or> s + 4 \<le> a))"

lemma get_uid_free:
  fixes vm thing cell u
  defines "a \<equiv> ADDRESS_AFTER_HEADER thing + cell" and "s \<equiv> ADDRESS_AFTER_HEADER (Sour_address_spaceS vm) + 4"
  defines "vector \<equiv> load (vmem vm) s"
  defines "b \<equiv> ADDRESS_AFTER_HEADER vector"
  assumes free: "free_uid vm thing cell u" and small: "u < 8388608"
  shows "get_uid thing cell 4 vm = (push_bit 2 (word_of_int u),
    set_vmem (store (store (store (vmem vm) (b + 4 * u) thing) b (load (vmem vm) (b + 4 * u))) a
      (push_bit 2 (word_of_int u))) vm)"
proof -
  have "0 < u" "load (vmem vm) b = push_bit 2 (word_of_int u)" "u < sint (cell_count (vmem vm) vector)" "load (vmem vm) a = 1"
    using free by (simp_all add: free_uid_def Let_def a_def b_def vector_def s_def)
  moreover have "sar 2 (push_bit 2 (word_of_int u)) = word_of_int u"
    using \<open>0 < u\<close> small by (simp add: sar_push2 fixnum_range_def)
  moreover have "sint (word_of_int u :: long) = u" "sint (push_bit 2 (word_of_int u) :: long) = 4 * u"
    using \<open>0 < u\<close> small sint_number [of u] by simp_all
  ultimately show ?thesis
    by (simp add: get_uid_def real_next_id_def Let_def a_def [symmetric] s_def [symmetric] vector_def [symmetric]
        b_def [symmetric] long_less poke_def set_vmem_def)
qed

text \<open>
  Property C18. An object without a number gets the next free one and is found by it: when the pointer
  comes back to the address space that sent it, it leads to the object itself, not to a copy;
  the object keeps its number, the next one in the list of the free ones is now the first, and all other
  numbers lead where they did.
\<close>

theorem new_number_roundtrip:
  fixes vm thing
  assumes type: "HEADERP (stob_header (vmem vm) thing)" "numbered_by (header_type (stob_header (vmem vm) thing)) cell"
    and free: "free_uid vm thing cell u" "u < 8388608" and thing: "STOBP thing"
    and encode: "encode_object thing vm = (p, vm1)"
  shows "decode_object p (Sour_address_spaceS vm) addr stob_start vm1 = (thing, vm1) \<and>
    load (vmem vm1) (ADDRESS_AFTER_HEADER thing + cell) = push_bit 2 (word_of_int u) \<and>
    (let b = ADDRESS_AFTER_HEADER (load (vmem vm) (ADDRESS_AFTER_HEADER (Sour_address_spaceS vm) + 4))
     in load (vmem vm1) b = load (vmem vm) (b + 4 * u)) \<and>
    (\<forall>k. 0 < k \<and> k < 8388608 \<and> k \<noteq> u \<longrightarrow>
       lookup_uid (vmem vm1) 4 (word_of_int k) (Sour_address_spaceS vm) =
       lookup_uid (vmem vm) 4 (word_of_int k) (Sour_address_spaceS vm))"
proof -
  define a where "a = ADDRESS_AFTER_HEADER thing + cell"
  define s where "s = ADDRESS_AFTER_HEADER (Sour_address_spaceS vm) + 4"
  define v where "v = load (vmem vm) s"
  define b where "b = ADDRESS_AFTER_HEADER v"
  define n where "n = sint (cell_count (vmem vm) v)"
  have f: "0 < u" "u < n" "a + 4 \<le> b - 4 \<or> b + 4 * n \<le> a" "s + 4 \<le> b - 4 \<or> b + 4 * n \<le> s" "a + 4 \<le> s \<or> s + 4 \<le> a"
    using free by (simp_all add: free_uid_def Let_def a_def b_def v_def s_def n_def)
  have e: "encode_uid thing cell vm = (p, vm1)" using encode_object_uid type encode by simp
  then have m: "vmem vm1 = store (store (store (vmem vm) (b + 4 * u) thing) b (load (vmem vm) (b + 4 * u))) a
      (push_bit 2 (word_of_int u))"
    using get_uid_free [OF free] by (auto simp: encode_uid_def a_def b_def v_def s_def)
  have ls: "load (vmem vm1) s = v" using f by (auto simp: m v_def load_store_other)
  have lh: "stob_header (vmem vm1) v = stob_header (vmem vm) v"
    using f by (auto simp: m load_store_other stob_header_def b_def [symmetric])
  have lu: "load (vmem vm1) a = push_bit 2 (word_of_int u)" by (simp add: m)
  have lf: "load (vmem vm1) b = load (vmem vm) (b + 4 * u)" using f by (auto simp: m load_store_other)
  have look: "lookup_uid (vmem vm') 4 (word_of_int k) (Sour_address_spaceS vm) =
      (if k < n then load (vmem vm') (b + 4 * k) else 1)"
    if "0 < k" "k < 8388608" "load (vmem vm') s = v" "stob_header (vmem vm') v = stob_header (vmem vm) v" for k vm'
  proof -
    have "sint (word_of_int k :: long) = k" "sint (push_bit 2 (word_of_int k) :: long) = 4 * k"
      using that sint_number [of k] by simp_all
    moreover have "cell_count (vmem vm') v = cell_count (vmem vm) v" using that(4) by (simp add: cell_count_def)
    ultimately show ?thesis using that(3)
      by (simp add: lookup_uid_def Let_def s_def [symmetric] b_def [symmetric] n_def long_less)
  qed
  have "lookup_uid (vmem vm1) 4 (word_of_int u) (Sour_address_spaceS vm) = thing"
    using look [of u vm1] f free(2) ls lh by (auto simp: m load_store_other)
  moreover have "p = pointer_word 1 u" using encode_uid_pointer [OF e] lu f free(2) by (simp add: a_def)
  ultimately have "decode_object p (Sour_address_spaceS vm) addr stob_start vm1 = (thing, vm1)"
    using decode_object_uid [of u] f free(2) thing by (simp add: decode_uid_def Let_def)
  moreover have "lookup_uid (vmem vm1) 4 (word_of_int k) (Sour_address_spaceS vm) =
      lookup_uid (vmem vm) 4 (word_of_int k) (Sour_address_spaceS vm)" if k: "0 < k" "k < 8388608" "k \<noteq> u" for k
  proof -
    have "load (vmem vm1) (b + 4 * k) = load (vmem vm) (b + 4 * k)" if "k < n"
    proof -
      have "b + 4 * u + 4 \<le> b + 4 * k \<or> b + 4 * k + 4 \<le> b + 4 * u" "b + 4 \<le> b + 4 * k \<or> b + 4 * k + 4 \<le> b"
        using k by linarith+
      moreover have "a + 4 \<le> b + 4 * k \<or> b + 4 * k + 4 \<le> a" using f k \<open>k < n\<close> by linarith
      ultimately show ?thesis by (simp only: m load_store_other)
    qed
    then show ?thesis using look [OF k(1,2)] ls lh by (simp add: v_def)
  qed
  ultimately show ?thesis using lu lf by (simp add: a_def b_def v_def s_def Let_def)
qed

text \<open>A pair at 100, a symbol at 120, an address space at 200 with a vector of four cells at 300.\<close>

definition demo_memory :: memory where
  "demo_memory = store_cells (store_cells (store_cells (store_cells (\<lambda>_. 0)
     96 [2050, 4, stob_at 120]) 116 [1030, 1]) 204 [stob_at 300]) 296 [4106, 4, 8, 12, 16]"

definition demo_sender :: vm where
  "demo_sender = (vm_zero (heap_zero demo_memory) events_init)\<lparr>Sour_address_spaceS := stob_at 200, SstartS := 1000,
     Stransmit_hpS := 1012, Smax_hpS := 1500, Sother_hpS := 2000\<rparr>"

lemma demo_sender_fields:
  "vmem demo_sender = demo_memory" "Sour_address_spaceS demo_sender = stob_at 200" "SstartS demo_sender = 1000"
  "Stransmit_hpS demo_sender = 1012" "Smax_hpS demo_sender = 1500" "Sother_hpS demo_sender = 2000"
  by (simp_all add: demo_sender_def vm_zero_def heap_zero_def)

lemma demo_memory_cells:
  "load demo_memory 96 = 2050" "load demo_memory 100 = 4" "load demo_memory 104 = stob_at 120"
  "load demo_memory 116 = 1030" "load demo_memory 120 = 1" "load demo_memory 204 = stob_at 300"
  "load demo_memory 296 = 4106" "load demo_memory 300 = 4"
  by (simp_all add: demo_memory_def load_store_other)

lemma demo_headers:
  "HEADERP 2050" "header_type 2050 = 0" "header_span 2050 = 8" "HEADERP 1030" "header_type 1030 = 1" "STOBP (stob_at 120)"
  by code_simp+

lemma copied_object_roundtrip_witness:
  "\<exists>p vm1. encode_object (stob_at 100) demo_sender = (p, vm1) \<and> load (vmem vm1) 1012 = 2050 \<and>
     load (vmem vm1) 1016 = 4 \<and> load (vmem vm1) 1020 = stob_at 120 \<and> encode_object (stob_at 100) vm1 = (p, vm1) \<and>
     (\<exists>vm2. received (stob_at 504) vm1 vm2 \<and>
       (let vm3 = start_decode (stob_at 504) False vm2
        in decode_object p 1 0 0 vm3 = (stob_at 512, vm3) \<and> stob_header (vmem vm3) (stob_at 512) = 2050 \<and>
           STOB_REF (vmem vm3) (stob_at 512) 0 = 4 \<and> STOB_REF (vmem vm3) (stob_at 512) 1 = stob_at 120))"
proof -
  obtain p vm1 where e: "encode_object (stob_at 100) demo_sender = (p, vm1)" by fastforce
  have h: "stob_header demo_memory (stob_at 100) = 2050" by (simp add: stob_header_def demo_memory_cells)
  have "encode_full_object 2050 (stob_at 100) demo_sender = (p, vm1)"
    using encode_object_kind [of demo_sender "stob_at 100"] e by (simp add: demo_sender_fields h demo_headers)
  then have "vm1 = snd (encode_full_object 2050 (stob_at 100) demo_sender)" by simp
  then have v: "SstartS vm1 = 1000" "Stransmit_hpS vm1 = 1024"
    using same_messageD(2) [of demo_sender vm1] encode_full_object_encoded [of demo_sender 2050 "stob_at 100"]
    by (simp_all add: encoded_def demo_sender_fields encode_full_object_eq demo_headers(3))
  define vm2 where "vm2 = set_vmem (\<lambda>x. vmem vm1 (x + 504)) demo_sender"
  have r: "received (stob_at 504) vm1 vm2" by (simp add: received_def vm2_def set_vmem_def v)
  define vm3 where "vm3 = start_decode (stob_at 504) False vm2"
  note use = copied_object_roundtrip [of demo_sender "stob_at 100" 12 p vm1 vm1 "stob_at 504" vm2 vm3 1 0 0,
    unfolded demo_sender_fields h demo_headers(3), folded vm3_def]
  have all: "load (vmem vm1) 1012 = 2050 \<and> Stransmit_hpS vm1 = 1012 + 4 + 8 \<and>
    (\<forall>i. 0 \<le> i \<and> 4 * i < 8 \<longrightarrow> load (vmem vm1) (1012 + 4 + 4 * i) = STOB_REF demo_memory (stob_at 100) i) \<and>
    STOBP p \<and> encode_object (stob_at 100) vm1 = (p, vm1) \<and>
    decode_object p 1 0 0 vm3 = (if (12 :: int) < 8388608 then stob_at (ADDRESS_AFTER_HEADER (stob_at 504) - 4 + 12)
      else stob_at (ADDRESS_AFTER_HEADER (stob_at 504) - 4 + 12) - 16777216, vm3) \<and>
    stob_header (vmem vm3) (stob_at (ADDRESS_AFTER_HEADER (stob_at 504) - 4 + 12)) = load (vmem vm1) 1012 \<and>
    (\<forall>i. 0 \<le> i \<and> 4 * i < 8 \<longrightarrow>
      STOB_REF (vmem vm3) (stob_at (ADDRESS_AFTER_HEADER (stob_at 504) - 4 + 12)) i = load (vmem vm1) (1012 + 4 + 4 * i))"
    by (rule use) (use demo_headers e r v in simp_all)
  have "load (vmem vm1) (1012 + 4 + 4 * i) = STOB_REF demo_memory (stob_at 100) i"
    "STOB_REF (vmem vm3) (stob_at 512) i = load (vmem vm1) (1012 + 4 + 4 * i)" if "0 \<le> i" "4 * i < 8" for i
    using all that by auto
  from this [of 0] this [of 1]
  have "load (vmem vm1) 1016 = 4" "load (vmem vm1) 1020 = stob_at 120"
    "STOB_REF (vmem vm3) (stob_at 512) 0 = 4" "STOB_REF (vmem vm3) (stob_at 512) 1 = stob_at 120"
    by (simp_all add: demo_memory_cells STOB_REF_def)
  then show ?thesis
    using e r all by (intro exI [of _ p] exI [of _ vm1] conjI exI [of _ vm2]) (simp_all add: vm3_def Let_def)
qed

text \<open>A location at 140 that address space 2 owns, where its number is 7: the pair at 160.\<close>

definition demo_location :: vm where
  "demo_location = set_vmem (store_cells (store_cells demo_memory 136 [2066, stob_at 160, 1]) 156 [2050, 8, 28]) demo_sender"

lemma demo_location_fields:
  "SstartS demo_location = 1000" "Stransmit_hpS demo_location = 1012" "Smax_hpS demo_location = 1500"
  "load (vmem demo_location) 136 = 2066" "load (vmem demo_location) 140 = stob_at 160"
  "load (vmem demo_location) 156 = 2050" "load (vmem demo_location) 160 = 8" "load (vmem demo_location) 164 = 28"
  by (simp_all add: demo_location_def set_vmem_def demo_sender_fields load_store_other)

lemma demo_location_words: "HEADERP 2066" "header_type 2066 = 4" "stob_at 160 \<noteq> 1" "STOBP (stob_at 160)"
  "push_bit 2 (word_of_int 2) = (8 :: long)" "push_bit 2 (word_of_int 7) = (28 :: long)"
  by code_simp+

lemma demo_location_id:
  "get_uid (stob_at 140) 0 4 demo_location = (stob_at 160, demo_location)"
  "identified (vmem demo_location) (stob_at 160) 2 7" "pairP (vmem demo_location) (stob_at 160)"
  "stob_header (vmem demo_location) (stob_at 140) = 2066"
  by (simp_all add: get_uid_def Let_def demo_location_fields demo_location_words identified_def pairP_def stob_of_type_def
      car_def cdr_def stob_header_def demo_headers)

lemma owned_object_roundtrip_witness:
  "\<exists>p vm1. encode_object (stob_at 140) demo_location = (p, vm1) \<and> Stransmit_hpS vm1 = 1020 \<and>
     load (vmem vm1) 1012 = 8 \<and> load (vmem vm1) 1016 = 28 \<and>
     (\<exists>vm2. received (stob_at 504) vm1 vm2 \<and>
       (let vm3 = start_decode (stob_at 504) False vm2; vm4 = poke 508 1106 vm3;
            space = lookup_uid (vmem vm4) 4 2 (stob_at 200); y = lookup_uid (vmem vm4) 4 7 space
        in decode_object p (stob_at 200) 0 0 vm3 =
             (if stob_of_type (vmem vm4) space 16 \<and> STOBP y then (y, vm4) else add_pending 2 7 1 0 0 vm4)))"
proof -
  obtain p vm1 where e: "encode_object (stob_at 140) demo_location = (p, vm1)" by fastforce
  have s: "SstartS vm1 = 1000"
    using encode_object_encoded [of demo_location "stob_at 140"] same_messageD(2) [of demo_location vm1] e
    by (simp add: encoded_def demo_location_fields)
  define vm2 where "vm2 = set_vmem (\<lambda>x. vmem vm1 (x + 504)) demo_sender"
  have r: "received (stob_at 504) vm1 vm2" by (simp add: received_def vm2_def set_vmem_def s)
  have f: "fixnum_range 2" "fixnum_range 7" by (simp_all add: fixnum_range_def)
  have a: "pairP (vmem demo_location) (stob_at 160) \<Longrightarrow> ADDRESS_AFTER_HEADER (stob_at 160) + 8 \<le> Stransmit_hpS demo_location"
    by (simp add: demo_location_fields)
  have h: "HEADERP (stob_header (vmem demo_location) (stob_at 140))"
    "header_type (stob_header (vmem demo_location) (stob_at 140)) = 4 \<and> 0 = (0 :: int) \<or>
     header_type (stob_header (vmem demo_location) (stob_at 140)) = 11 \<and> 0 = (8 :: int)"
    by (simp_all add: demo_location_id demo_location_words)
  have n: "Stransmit_hpS demo_location + 8 < Smax_hpS demo_location" "Stransmit_hpS demo_location = SstartS demo_location + 12"
    "(12 :: int) \<le> 12" "(12 :: int) < 8388608"
    by (simp_all add: demo_location_fields)
  note use = owned_object_roundtrip [OF h n demo_location_id(1,2) f a e r, of "stob_at 200" 0 0]
  have w: "word_of_int 2 = (2 :: long)" "word_of_int 7 = (7 :: long)" "ADDRESS_AFTER_HEADER (stob_at 504) + 12 - 8 = 508"
    by simp_all
  have "received (stob_at 504) vm1 vm2 \<and>
       (let vm3 = start_decode (stob_at 504) False vm2; vm4 = poke 508 1106 vm3;
            space = lookup_uid (vmem vm4) 4 2 (stob_at 200); y = lookup_uid (vmem vm4) 4 7 space
        in decode_object p (stob_at 200) 0 0 vm3 =
             (if stob_of_type (vmem vm4) space 16 \<and> STOBP y then (y, vm4) else add_pending 2 7 1 0 0 vm4))"
    using use r unfolding w by blast
  moreover have "Stransmit_hpS vm1 = 1020 \<and> load (vmem vm1) 1012 = 8 \<and> load (vmem vm1) 1016 = 28"
    using use unfolding demo_location_fields demo_location_words(5,6) by simp
  ultimately show ?thesis using e by blast
qed

lemma demo_free: "free_uid demo_sender (stob_at 120) 0 1"
proof -
  have "sint (cell_count demo_memory (stob_at 300)) = 4"
    by (simp add: cell_count_def stob_header_def demo_memory_cells) code_simp
  moreover have "(4 :: long) = push_bit 2 (word_of_int 1)" by code_simp
  ultimately show ?thesis by (simp add: free_uid_def demo_sender_fields Let_def demo_memory_cells)
qed

lemma demo_symbol: "stob_header demo_memory (stob_at 120) = 1030"
  by (simp add: stob_header_def demo_memory_cells)

lemma numbered_object_roundtrip_witness:
  "\<exists>p vm1. encode_object (stob_at 120) demo_sender = (p, vm1) \<and> STOBP p \<and>
     Stransmit_hpS vm1 = Stransmit_hpS demo_sender \<and>
     (let y = lookup_uid demo_memory 4 1 (stob_at 200)
      in decode_object p (stob_at 200) 0 0 demo_sender =
           (if STOBP y then (y, demo_sender) else add_pending 1 1 1 0 0 demo_sender))"
proof -
  obtain p vm1 where e: "encode_object (stob_at 120) demo_sender = (p, vm1)" by fastforce
  have u: "load (vmem vm1) (ADDRESS_AFTER_HEADER (stob_at 120) + 0) = push_bit 2 (word_of_int 1)"
    using e encode_object_uid [of demo_sender "stob_at 120" 0] get_uid_free [OF demo_free]
    by (auto simp: demo_symbol demo_sender_fields demo_headers numbered_by_def encode_uid_def)
  show ?thesis
    using numbered_object_roundtrip [of demo_sender "stob_at 120" 0 p vm1 1 demo_sender "stob_at 200" 0 0, OF _ _ e u] e
    by (auto simp: demo_symbol demo_headers numbered_by_def demo_sender_fields Let_def)
qed

lemma new_number_roundtrip_witness:
  "\<exists>p vm1. encode_object (stob_at 120) demo_sender = (p, vm1) \<and>
     decode_object p (stob_at 200) 0 0 vm1 = (stob_at 120, vm1) \<and> load (vmem vm1) 120 = push_bit 2 1"
proof -
  obtain p vm1 where e: "encode_object (stob_at 120) demo_sender = (p, vm1)" by fastforce
  show ?thesis
    using new_number_roundtrip [of demo_sender "stob_at 120" 0 1 p vm1 0 0, OF _ _ demo_free _ _ e] e
    by (auto simp: demo_symbol demo_headers numbered_by_def demo_sender_fields)
qed

text \<open>Without room for a cell nothing is added to the message.\<close>

lemma encode_object_full:
  assumes "Smax_hpS vm \<le> Stransmit_hpS vm"
  shows "Smax_hpS vm \<le> Stransmit_hpS (snd (encode_object thing vm))" "Smax_hpS (snd (encode_object thing vm)) = Smax_hpS vm"
proof -
  have m: "Smax_hpS (snd (get_uid x i j v)) = Smax_hpS v" for x i j v
    using same_messageD(1) [of v "snd (get_uid x i j v)"] by simp
  have "\<not> Stransmit_hpS vm + header_span h < Smax_hpS vm" for h
    using assms header_span_nonneg [of h] by linarith
  then show "Smax_hpS vm \<le> Stransmit_hpS (snd (encode_object thing vm))"
    using assms by (simp add: encode_object_def Let_def encode_uid_def encode_two_part_uid_def encode_proxy_def
        encode_full_object_def encoding_lost_def case_prod_beta m)
  show "Smax_hpS (snd (encode_object thing vm)) = Smax_hpS vm"
    using encode_object_encoded [of vm thing] by (simp add: encoded_def same_messageD)
qed

text \<open>
  Property C16. Encoding always ends. From the start of a message on the frontier the code of the object is
  computed and stored, then all that the message holds is encoded, as long as there is room. When the
  heap has room for four cells behind the frontier, the end of the message is not behind the limit
  of the heap, less a cell, and no offset needs more than the 24 bits a pointer has for it. When it has not,
  nothing is encoded and the answer is no, but the code has been stored in the third cell behind the
  frontier all the same, before the first test of the limit: behind the end of the heap, when fewer than
  three cells were left. The byte code asks for more than three cells and takes three of them for a
  pair before it encodes, so that this does happen. The frontier and the limits of the heap
  are as before; of the contents of the memory the property says nothing else.
\<close>

theorem encoding_ends:
  assumes limits: "heap_limits (vheap vm) = (start, u, current_end, other_begin, w)"
    and whole: "4 dvd current_end - start"
  shows "let vm1 = begin_message address_space vm; (code, vm2) = encode_object thing vm1;
      vm3 = poke (start + 8) code vm2
    in \<exists>ok vm4. (if Stransmit_hpS vm3 < Smax_hpS vm3 then do_encoding (start + 12) vm3 else Some (False, vm3)) = Some (ok, vm4) \<and>
       (ok \<longleftrightarrow> Stransmit_hpS vm4 < Smax_hpS vm4) \<and>
       (if start + 16 \<le> current_end
        then Stransmit_hpS vm4 + 4 \<le> current_end \<and> Stransmit_hpS vm4 - start \<le> 16777216
        else \<not> ok \<and> vm4 = vm3 \<and> load (vmem vm4) (start + 8) = code) \<and>
       (vheap vm4)\<lparr>mem := (\<lambda>_. 0)\<rparr> = (vheap vm)\<lparr>mem := (\<lambda>_. 0)\<rparr>"
proof -
  define vm1 where "vm1 = begin_message address_space vm"
  define code where "code = fst (encode_object thing vm1)"
  define vm3 where "vm3 = poke (start + 8) code (snd (encode_object thing vm1))"
  have m: "Smax_hpS vm1 = min (start + 16777220) current_end - 4" "Stransmit_hpS vm1 = start + 12" "vheap vm1 = vheap vm"
    by (auto simp: vm1_def begin_message_def limits)
  have e3: "encoded vm1 vm3" using encode_object_encoded [of vm1 thing] by (simp add: vm3_def encoded_def)
  define r where "r = (if Stransmit_hpS vm3 < Smax_hpS vm3 then do_encoding (start + 12) vm3 else Some (False, vm3))"
  obtain ok vm4 where d: "r = Some (ok, vm4)" "encoded vm3 vm4" "ok \<longleftrightarrow> Stransmit_hpS vm4 < Smax_hpS vm4"
    using do_encoding_result [of vm3 "start + 12"] by (auto simp: r_def)
  have e4: "encoded vm1 vm4" using e3 d(2) by (rule encoded_trans)
  have here: "Stransmit_hpS vm4 + 4 \<le> current_end \<and> Stransmit_hpS vm4 - start \<le> 16777216" if "start + 16 \<le> current_end"
  proof -
    have "4 dvd min (start + 16777220) current_end - 4 - (start + 12)" using whole by (auto simp: min_def)
    then have "in_bounds vm1" using that m by (auto simp: in_bounds_def)
    then have "in_bounds vm4" "Smax_hpS vm4 = Smax_hpS vm1" using e4 by (auto simp: encoded_def same_message_def)
    then show ?thesis using m(1) by (auto simp: in_bounds_def)
  qed
  have "\<not> ok \<and> vm4 = vm3 \<and> load (vmem vm4) (start + 8) = code" if "\<not> start + 16 \<le> current_end"
  proof -
    have "Smax_hpS vm1 \<le> Stransmit_hpS vm1" using that m by simp
    then have "\<not> Stransmit_hpS vm3 < Smax_hpS vm3"
      using encode_object_full [of vm1 thing] e3 by (auto simp: vm3_def encoded_def same_message_def)
    then show ?thesis using d(1) by (auto simp: r_def vm3_def poke_def set_vmem_def)
  qed
  moreover have "(vheap vm4)\<lparr>mem := (\<lambda>_. 0)\<rparr> = (vheap vm)\<lparr>mem := (\<lambda>_. 0)\<rparr>"
    using e4 m(3) by (simp add: encoded_def same_message_def)
  ultimately show ?thesis
    unfolding Let_def case_prod_beta vm1_def [symmetric] code_def [symmetric]
    unfolding vm3_def [symmetric] r_def [symmetric]
    using d here by (intro exI [of _ ok] exI [of _ vm4]) (auto simp only: if_True if_False split: if_split)
qed

text \<open>A heap with room for the message, and one in which a cell is left: the code lands behind its end.\<close>

lemma encoding_ends_witness:
  "\<exists>vm vm' :: vm. (\<exists>ok vm4. (let (code, vm2) = encode_object (stob_at 100) (begin_message (stob_at 200) vm);
      vm3 = poke 1008 code vm2
    in (if Stransmit_hpS vm3 < Smax_hpS vm3 then do_encoding 1012 vm3 else Some (False, vm3)) = Some (ok, vm4)) \<and>
      Stransmit_hpS vm4 \<le> 1496) \<and>
    newspace_end (vheap vm') = 1004 \<and>
    (let (code, vm2) = encode_object (stob_at 100) (begin_message (stob_at 200) vm'); vm3 = poke 1008 code vm2
     in load (vmem vm3) 1008 = code \<and> \<not> Stransmit_hpS vm3 < Smax_hpS vm3)"
proof -
  define vm where "vm e = vm_zero ((heap_zero demo_memory)\<lparr>hp := 1000, newspace_end := e\<rparr>) events_init" for e
  have l: "heap_limits (vheap (vm e)) = (1000, 0, e, 0, 0)" for e
    by (simp add: vm_def vm_zero_def heap_zero_def heap_limits_def)
  have n: "newspace_end (vheap (vm 1004)) = 1004" by (simp add: vm_def vm_zero_def)
  from encoding_ends [OF l, of 1500 "stob_at 200" "stob_at 100"] encoding_ends [OF l, of 1004 "stob_at 200" "stob_at 100"]
  show ?thesis
    by (intro exI [of _ "vm 1500"] exI [of _ "vm 1004"]) (auto simp: case_prod_beta Let_def n)
qed

end
