(* ===== verification/Vm_Proxies_Facts.thy ===== *)
theory Vm_Proxies_Facts
  imports Vm_Transmit_Facts
begin

unbundle bit_operations_syntax

text \<open>
  The counts of proxies (\<open>src/c/scheme48vm.c\<close>: the end of \<open>encode_object\<close>, and \<open>L14284\<close>, \<open>L13415\<close> when a message is
  decoded). What an address space sends of them it has no longer, and the receiver has it more.
\<close>








lemma store_next_regs [simp]: "Sother_hpS (store_next d vm) = Sother_hpS vm" "Slosing_proxy_hotelS (store_next d vm) = Slosing_proxy_hotelS vm"
  by (simp_all add: store_next_def poke_def set_vmem_def)













end
