(* ===== verification/Vm_Channel_Queue.thy ===== *)
theory Vm_Channel_Queue
  imports Vm_Interrupts_Facts Events_Queue
begin

text \<open>
  The queue of channels whose operations have completed (\<open>src/c/scheme48vm.c\<close>: \<open>check_events\<close>,
  the interrupt for a completion, \<open>channel-abort\<close>). It is linked through the channels. Its operations
  satisfy the contract of a first-in first-out queue of \<open>Events_Queue\<close>, with one exception: a channel
  that is put in when it is already the last one gets itself as its next.
\<close>

subsection \<open>Channels and the list they form\<close>

definition channel_index :: "memory \<Rightarrow> long \<Rightarrow> int" where
  "channel_index m c = sint (sar 2 (load m (ADDRESS_AFTER_HEADER c + 8)))"

text \<open>Channels do not overlap, and none is false.\<close>

definition apart :: "long set \<Rightarrow> bool" where
  "apart Ch \<longleftrightarrow> 1 \<notin> Ch \<and> (\<forall>c\<in>Ch. \<forall>d\<in>Ch. c \<noteq> d \<longrightarrow>
     ADDRESS_AFTER_HEADER c + 20 \<le> ADDRESS_AFTER_HEADER d \<or> ADDRESS_AFTER_HEADER d + 20 \<le> ADDRESS_AFTER_HEADER c)"

definition registered :: "long set \<Rightarrow> long \<Rightarrow> vm \<Rightarrow> bool" where
  "registered Ch c vm \<longleftrightarrow> c \<in> Ch \<and> Svm_channelsS vm (channel_index (vmem vm) c) = c"

fun linked :: "memory \<Rightarrow> long \<Rightarrow> long list \<Rightarrow> bool" where
  "linked m c [] \<longleftrightarrow> c = 1"
| "linked m c (x # xs) \<longleftrightarrow> c = x \<and> linked m (channel_next m x) xs"

definition channel_queue :: "long set \<Rightarrow> vm \<Rightarrow> long list \<Rightarrow> bool" where
  "channel_queue Ch vm xs \<longleftrightarrow> apart Ch \<and> set xs \<subseteq> Ch \<and> distinct xs \<and>
     linked (vmem vm) (Spending_channels_headS vm) xs \<and>
     Spending_channels_tailS vm = (if xs = [] then 1 else last xs) \<and>
     (\<forall>c\<in>Ch - set xs. channel_next (vmem vm) c = 1)"

lemma linked_cong: "(\<And>x. x \<in> set xs \<Longrightarrow> channel_next m' x = channel_next m x) \<Longrightarrow> linked m' c xs = linked m c xs"
  by (induction xs arbitrary: c) auto

lemma linked_last: "linked m c xs \<Longrightarrow> xs \<noteq> [] \<Longrightarrow> channel_next m (last xs) = 1"
  by (induction m c xs rule: linked.induct) auto

lemma linked_not_last: "linked m c xs \<Longrightarrow> 1 \<notin> set xs \<Longrightarrow> x \<in> set xs \<Longrightarrow> x \<noteq> last xs \<Longrightarrow> channel_next m x \<noteq> 1"
proof (induction m c xs rule: linked.induct)
  case (2 m c x xs)
  then show ?case by (cases xs) auto
qed simp

lemma linked_snoc:
  "linked m c xs \<Longrightarrow> xs \<noteq> [] \<Longrightarrow> distinct xs \<Longrightarrow> channel_next m' (last xs) = p \<Longrightarrow> channel_next m' p = 1 \<Longrightarrow>
     (\<And>x. x \<in> set xs \<Longrightarrow> x \<noteq> last xs \<Longrightarrow> channel_next m' x = channel_next m x) \<Longrightarrow> linked m' c (xs @ [p])"
proof (induction m c xs rule: linked.induct)
  case (2 m c x xs)
  show ?case
  proof (cases "xs = []")
    case True
    then show ?thesis using 2(2,5,6) by simp
  next
    case False
    have "linked m' (channel_next m x) (xs @ [p])"
    proof (rule "2.IH")
      show "channel_next m' y = channel_next m y" if "y \<in> set xs" "y \<noteq> last xs" for y
        using 2(7) [of y] that False by simp
    qed (use 2(2,4,5,6) False in simp_all)
    moreover have "channel_next m' x = channel_next m x" using 2(4) 2(7) [of x] False by (metis distinct.simps(2) last_ConsR last_in_set list.set_intros(1))
    ultimately show ?thesis using 2(2) by simp
  qed
qed simp

text \<open>The three cells that are written and read of a channel.\<close>

lemma poke_channel:
  assumes "apart Ch" "c \<in> Ch" "d \<in> Ch" "i = 12 \<or> i = 16" "j = 8 \<or> j = 12"
  shows "load (vmem (poke (ADDRESS_AFTER_HEADER c + i) v vm)) (ADDRESS_AFTER_HEADER d + j) =
    (if c = d \<and> i = j then v else load (vmem vm) (ADDRESS_AFTER_HEADER d + j))"
proof (cases "c = d")
  case False
  then have "ADDRESS_AFTER_HEADER c + 20 \<le> ADDRESS_AFTER_HEADER d \<or> ADDRESS_AFTER_HEADER d + 20 \<le> ADDRESS_AFTER_HEADER c"
    using assms(1-3) by (simp add: apart_def)
  then show ?thesis using False assms(4,5) by (auto simp: poke_def load_store_other)
qed (use assms(4,5) in \<open>auto simp: poke_def load_store_other\<close>)

lemma poke_next:
  "apart Ch \<Longrightarrow> c \<in> Ch \<Longrightarrow> d \<in> Ch \<Longrightarrow>
     channel_next (vmem (poke (ADDRESS_AFTER_HEADER c + 12) v vm)) d = (if c = d then v else channel_next (vmem vm) d)"
  "apart Ch \<Longrightarrow> c \<in> Ch \<Longrightarrow> d \<in> Ch \<Longrightarrow>
     channel_next (vmem (poke (ADDRESS_AFTER_HEADER c + 16) v vm)) d = channel_next (vmem vm) d"
  by (simp_all add: channel_next_def poke_channel)

lemma poke_queue_regs [simp]:
  "Svm_channelsS (poke a v vm) = Svm_channelsS vm" "Spending_channels_headS (poke a v vm) = Spending_channels_headS vm"
  "Spending_channels_tailS (poke a v vm) = Spending_channels_tailS vm"
  by (simp_all add: poke_def set_vmem_def)

lemma poke_index:
  "apart Ch \<Longrightarrow> c \<in> Ch \<Longrightarrow> d \<in> Ch \<Longrightarrow> i = 12 \<or> i = 16 \<Longrightarrow>
     channel_index (vmem (poke (ADDRESS_AFTER_HEADER c + i) v vm)) d = channel_index (vmem vm) d"
  by (auto simp: channel_index_def poke_channel)

text \<open>The channels keep their places in the table.\<close>

definition same_table :: "long set \<Rightarrow> vm \<Rightarrow> vm \<Rightarrow> bool" where
  "same_table Ch vm vm' \<longleftrightarrow> Svm_channelsS vm' = Svm_channelsS vm \<and>
     (\<forall>d\<in>Ch. channel_index (vmem vm') d = channel_index (vmem vm) d)"

lemma same_table_registered: "same_table Ch vm vm' \<Longrightarrow> registered Ch d vm' = registered Ch d vm"
  by (auto simp: same_table_def registered_def)

subsection \<open>The operations\<close>

lemma enqueue_channel_last:
  assumes q: "channel_queue Ch vm xs" and c: "registered Ch c vm"
    and vm': "vm' = enqueue_channel (channel_index (vmem vm) c) st vm"
  shows "c \<notin> set xs \<Longrightarrow> channel_queue Ch vm' (xs @ [c])"
    and "c \<in> set xs \<Longrightarrow> c \<noteq> last xs \<Longrightarrow> channel_queue Ch vm' xs"
    and "c \<in> set xs \<Longrightarrow> c = last xs \<Longrightarrow> channel_next (vmem vm') c = c"
    and "same_table Ch vm vm'"
proof -
  define vm1 where "vm1 = poke (ADDRESS_AFTER_HEADER c + 16) (push_bit 2 st) vm"
  have C: "apart Ch" "set xs \<subseteq> Ch" "c \<in> Ch" "1 \<notin> set xs" "c \<noteq> 1"
    using q c by (auto simp: channel_queue_def registered_def apart_def)
  have n1: "channel_next (vmem vm1) d = channel_next (vmem vm) d" if "d \<in> Ch" for d
    using C that by (simp add: vm1_def poke_next)
  have l: "linked (vmem vm) (Spending_channels_headS vm) xs"
    and tail: "Spending_channels_tailS vm = (if xs = [] then 1 else last xs)"
    and rest: "\<forall>c\<in>Ch - set xs. channel_next (vmem vm) c = 1" and dist: "distinct xs"
    using q by (simp_all add: channel_queue_def)
  have l1: "linked (vmem vm1) (Spending_channels_headS vm) xs"
    using l linked_cong [of xs "vmem vm1" "vmem vm"] n1 C(2) by blast
  have eq: "vm' = (if channel_next (vmem vm) c \<noteq> 1 then vm1
     else if Spending_channels_headS vm = 1 then vm1\<lparr>Spending_channels_headS := c, Spending_channels_tailS := c\<rparr>
     else (poke (ADDRESS_AFTER_HEADER (Spending_channels_tailS vm) + 12) c vm1)\<lparr>Spending_channels_tailS := c\<rparr>)"
    using c n1 C(3) by (simp add: vm' enqueue_channel_def vm1_def registered_def Let_def set_channel_next_def)
  have head: "Spending_channels_headS vm = 1 \<longleftrightarrow> xs = []"
    using l C(4) by (cases xs) auto
  show "channel_queue Ch vm' (xs @ [c])" if "c \<notin> set xs"
  proof (cases "xs = []")
    case True
    then show ?thesis using that q C rest n1 head
      by (auto simp: eq channel_queue_def vm1_def poke_next)
  next
    case False
    have L: "last xs \<in> Ch" "last xs \<in> set xs" using False C(2) by auto
    have e: "vm' = (poke (ADDRESS_AFTER_HEADER (last xs) + 12) c vm1)\<lparr>Spending_channels_tailS := c\<rparr>"
      using that False rest C head tail by (simp add: eq)
    have n: "channel_next (vmem vm') d = (if d = last xs then c else channel_next (vmem vm) d)" if "d \<in> Ch" for d
      using that L C n1 by (auto simp: e poke_next)
    have "linked (vmem vm') (Spending_channels_headS vm) (xs @ [c])"
      using that False dist rest C n L by (intro linked_snoc [OF l]) auto
    then show ?thesis
      using that C dist rest n L by (auto simp: channel_queue_def e vm1_def)
  qed
  show "channel_queue Ch vm' xs" if "c \<in> set xs" "c \<noteq> last xs"
    using linked_not_last [OF l C(4) that] l1 q n1 by (auto simp: eq channel_queue_def) (simp_all add: vm1_def)
  show "channel_next (vmem vm') c = c" if "c \<in> set xs" "c = last xs"
  proof -
    have "xs \<noteq> []" using that(1) by auto
    then show ?thesis using linked_last [OF l] that head tail C by (simp add: eq poke_next)
  qed
  show "same_table Ch vm vm'"
  proof (cases "xs = []")
    case False
    then have "last xs \<in> Ch" using C(2) by auto
    then show ?thesis using C head tail by (simp add: eq same_table_def vm1_def poke_index)
  qed (use C head in \<open>simp add: eq same_table_def vm1_def poke_index\<close>)
qed

lemma dequeue_channel_first:
  assumes q: "channel_queue Ch vm (x # xs)"
  shows "fst (dequeue_channel vm) = x" "channel_queue Ch (snd (dequeue_channel vm)) xs"
    "same_table Ch vm (snd (dequeue_channel vm))"
proof -
  have C: "apart Ch" "x \<in> Ch" "set xs \<subseteq> Ch" "x \<notin> set xs" "1 \<notin> set xs" "distinct xs"
    and l: "Spending_channels_headS vm = x" "linked (vmem vm) (channel_next (vmem vm) x) xs"
    and rest: "\<forall>c\<in>Ch - insert x (set xs). channel_next (vmem vm) c = 1"
    and tail: "Spending_channels_tailS vm = last (x # xs)"
    using q by (auto simp: channel_queue_def apart_def)
  let ?n = "channel_next (vmem vm) x"
  define vm1 where "vm1 = poke (ADDRESS_AFTER_HEADER x + 12) 1 (vm\<lparr>Spending_channels_headS := ?n\<rparr>)"
  have eq: "snd (dequeue_channel vm) = (if ?n = 1 then vm1\<lparr>Spending_channels_tailS := 1\<rparr> else vm1)"
    by (simp add: dequeue_channel_def set_channel_next_def vm1_def l Let_def)
  have n: "channel_next (vmem vm1) d = (if d = x then 1 else channel_next (vmem vm) d)" if "d \<in> Ch" for d
    using C that by (auto simp: vm1_def poke_next)
  have "linked (vmem vm1) ?n xs"
    using l(2) linked_cong [of xs "vmem vm1" "vmem vm"] n C by (metis subsetD)
  moreover have "?n = 1 \<longleftrightarrow> xs = []" using l(2) C(5) by (cases xs) auto
  ultimately show "channel_queue Ch (snd (dequeue_channel vm)) xs"
    using C rest n tail by (auto simp: channel_queue_def eq) (simp_all add: vm1_def)
  show "fst (dequeue_channel vm) = x" by (simp add: dequeue_channel_def Let_def l)
  show "same_table Ch vm (snd (dequeue_channel vm))"
    using C by (simp add: eq vm1_def same_table_def poke_index)
qed

definition completed :: "long \<Rightarrow> vm \<Rightarrow> vm option" where
  "completed c vm = Some (enqueue_channel (channel_index (vmem vm) c) 0 vm)"

definition first_completed :: "vm \<Rightarrow> (long \<times> vm) option" where
  "first_completed vm = (if Spending_channels_headS vm = 1 then None else Some (dequeue_channel vm))"

interpretation channels: fifo "channel_queue Ch" "registered Ch" completed first_completed for Ch
proof unfold_locales
  show "\<exists>s'. completed p s = Some s' \<and> channel_queue Ch s' (xs @ [p]) \<and> (\<forall>x. registered Ch x s \<longrightarrow> registered Ch x s')"
    if "channel_queue Ch s xs" "registered Ch p s" "p \<notin> set xs" for s xs p
    using enqueue_channel_last(1,4) [where st = 0, OF that(1,2) refl] that(3)
    by (simp add: completed_def same_table_registered)
  show "\<exists>s'. first_completed s = Some (x, s') \<and> channel_queue Ch s' xs \<and> (\<forall>y. registered Ch y s \<longrightarrow> registered Ch y s')"
    if q: "channel_queue Ch s (x # xs)" for s x xs
  proof -
    have "Spending_channels_headS s \<noteq> 1" using q by (auto simp: channel_queue_def apart_def)
    then show ?thesis using dequeue_channel_first [OF q]
      by (intro exI [of _ "snd (dequeue_channel s)"]) (simp add: first_completed_def prod_eq_iff same_table_registered)
  qed
  show "first_completed s = None" if "channel_queue Ch s []" for s
    using that by (simp add: channel_queue_def first_completed_def)
qed

subsection \<open>Completions\<close>

lemma channel_queue_cong:
  "vmem vm' = vmem vm \<Longrightarrow> Spending_channels_headS vm' = Spending_channels_headS vm \<Longrightarrow>
   Spending_channels_tailS vm' = Spending_channels_tailS vm \<Longrightarrow> channel_queue Ch vm' xs = channel_queue Ch vm xs"
  by (simp add: channel_queue_def)

definition completions :: "vm \<Rightarrow> event_enum list \<Rightarrow> long list" where
  "completions vm es = concat (map (\<lambda>e. case e of IO_COMPLETION_EVENT i \<Rightarrow> [Svm_channelsS vm i] | _ \<Rightarrow> []) es)"

definition known_completions :: "long set \<Rightarrow> vm \<Rightarrow> event_enum list \<Rightarrow> bool" where
  "known_completions Ch vm es \<longleftrightarrow> (\<forall>i. IO_COMPLETION_EVENT i \<in> set es \<longrightarrow>
     registered Ch (Svm_channelsS vm i) vm \<and> channel_index (vmem vm) (Svm_channelsS vm i) = i)"

text \<open>One event.\<close>

lemma take_in_completion:
  assumes q: "channel_queue Ch vm xs" and known: "known_completions Ch vm (e # es)"
    and d: "distinct (xs @ completions vm (e # es))"
  shows "channel_queue Ch (take_in os e ev vm) (xs @ completions vm [e]) \<and> same_table Ch vm (take_in os e ev vm)"
proof (cases "\<exists>i. e = IO_COMPLETION_EVENT i")
  case True
  then obtain i where e: "e = IO_COMPLETION_EVENT i" by blast
  define c where "c = Svm_channelsS vm i"
  have c: "registered Ch c vm" "channel_index (vmem vm) c = i" "c \<notin> set xs"
    using known d by (auto simp: known_completions_def completions_def e c_def)
  let ?vm = "vm\<lparr>vevents := ev\<rparr>"
  have "channel_queue Ch ?vm xs" "registered Ch c ?vm" "i = channel_index (vmem ?vm) c"
    using q c by (simp_all add: channel_queue_def registered_def)
  note r = enqueue_channel_last [OF this(1,2), of "enqueue_channel i 0 ?vm" 0, folded this(3), OF refl]
  have "channel_queue Ch (enqueue_channel i 0 ?vm) (xs @ [c])" "same_table Ch ?vm (enqueue_channel i 0 ?vm)"
    using r c(3) by blast+
  then show ?thesis
    by (simp add: take_in_def note_event_type_def e completions_def c_def channel_queue_def same_table_def)
next
  case False
  then have "completions vm [e] = []" by (simp add: completions_def split: event_enum.split)
  then show ?thesis using q False
    by (cases e) (auto simp: take_in_def note_event_type_def channel_queue_def same_table_def vm_say_def say_def)
qed

lemma completions_same: "same_table Ch vm vm' \<Longrightarrow> completions vm' es = completions vm es"
  by (simp add: completions_def same_table_def cong: event_enum.case_cong)

lemma known_same: "same_table Ch vm vm' \<Longrightarrow> known_completions Ch vm (e # es) \<Longrightarrow> known_completions Ch vm' es"
  by (auto simp: known_completions_def same_table_def registered_def)

lemma set_interrupt_flag_queue [simp]:
  "channel_queue Ch (set_interrupt_flag vm) xs = channel_queue Ch vm xs"
  "same_table Ch vm0 (set_interrupt_flag vm) = same_table Ch vm0 vm"
  by (simp_all add: channel_queue_def same_table_def set_interrupt_flag_def Let_def)

lemma check_events_queue:
  assumes "events_seen f ev es ev'"
  shows "f = select_fds os \<Longrightarrow> ev = vevents vm \<Longrightarrow> \<not> Spending_eventsPS ev' \<Longrightarrow> channel_queue Ch vm xs \<Longrightarrow>
    known_completions Ch vm es \<Longrightarrow> distinct (xs @ completions vm es) \<Longrightarrow>
    \<exists>b vm'. check_events os vm = Some (b, vm') \<and> channel_queue Ch vm' (xs @ completions vm es)"
  using assms
proof (induction arbitrary: vm xs)
  case (no_more f ev ev')
  have "channel_queue Ch (take_in os NO_EVENT ev' vm) xs"
    using take_in_completion [OF no_more(5), of NO_EVENT "[]"] no_more(6,7)
    by (simp add: completions_def known_completions_def)
  then show ?case using no_more(1-4)
    by (subst check_events_turn) (auto simp: Let_def completions_def)
next
  case (one_more f ev e ev1 es ev')
  let ?vm = "take_in os e ev1 vm"
  have t: "channel_queue Ch ?vm (xs @ completions vm [e])" "same_table Ch vm ?vm"
    using take_in_completion [OF one_more.prems(4-6)] by simp_all
  have c: "completions vm (e # es) = completions vm [e] @ completions ?vm es"
    by (simp add: completions_same [OF t(2)]) (simp add: completions_def)
  have "\<exists>b vm'. check_events os ?vm = Some (b, vm') \<and> channel_queue Ch vm' ((xs @ completions vm [e]) @ completions ?vm es)"
    using one_more.prems one_more.hyps t c known_same [OF t(2)] by (intro one_more.IH) simp_all
  then show ?case using one_more.prems one_more.hyps
    by (subst check_events_turn) (simp add: c)
qed

text \<open>
  Property C15. Completed operations are delivered in the order in which they completed: after
  \<open>check_events\<close> the queue holds the channels it held before and those of the completions
  there were, in their order, and the interrupts take exactly these out of it, one by one, until it is
  empty.
\<close>

theorem completions_in_order:
  assumes "events_seen (select_fds os) (vevents vm) es ev'" "\<not> Spending_eventsPS ev'"
    and "channel_queue Ch vm xs" "known_completions Ch vm es" "distinct (xs @ completions vm es)"
  shows "\<exists>b vm' vm''. check_events os vm = Some (b, vm') \<and> channel_queue Ch vm' (xs @ completions vm es) \<and>
    fifo.deq_many first_completed (length (xs @ completions vm es)) vm' = Some (xs @ completions vm es, vm'') \<and>
    channel_queue Ch vm'' []"
proof -
  obtain b vm' where c: "check_events os vm = Some (b, vm')" and q: "channel_queue Ch vm' (xs @ completions vm es)"
    using check_events_queue [OF assms(1) refl refl assms(2-5)] by blast
  show ?thesis
    using channels.deq_many_front [of Ch vm' "xs @ completions vm es" "[]"] c q by auto
qed

definition demo_ready :: events where
  "demo_ready = events_init\<lparr>Events.store := [0 \<mapsto> \<lparr>fd = 1, status = FD_READY, is_input = True, next = None\<rparr>],
     ready_que := \<lparr>first = Some 0, lastp = NextOf 0\<rparr>\<rparr>"

definition demo_channels :: vm where
  "demo_channels = (vm_zero (heap_zero (store_cells (store_cells (\<lambda>_. 0) 100 [4, 1, 0, 1, 1]) 200 [4, 1, 4, 1, 1]))
      demo_ready)\<lparr>Spending_channels_headS := stob_at 100, Spending_channels_tailS := stob_at 100,
      Svm_channelsS := (\<lambda>_. 1)(0 := stob_at 100, 1 := stob_at 200)\<rparr>"

lemma demo_channel_cells:
  "channel_next (vmem demo_channels) (stob_at 100) = 1" "channel_next (vmem demo_channels) (stob_at 200) = 1"
  "channel_index (vmem demo_channels) (stob_at 200) = 1" "channel_index (vmem demo_channels) (stob_at 100) = 0"
proof -
  let ?m = "vmem demo_channels"
  have "load ?m 112 = 1" "load ?m 212 = 1" "load ?m 208 = 4" "load ?m 108 = 0"
    by (simp_all add: demo_channels_def vm_zero_def heap_zero_def load_store_other)
  moreover have "sint (sar 2 4 :: long) = 1" "sint (sar 2 0 :: long) = 0" by code_simp+
  ultimately show "channel_next (vmem demo_channels) (stob_at 100) = 1" "channel_next (vmem demo_channels) (stob_at 200) = 1"
    "channel_index (vmem demo_channels) (stob_at 200) = 1" "channel_index (vmem demo_channels) (stob_at 100) = 0"
    by (simp_all add: channel_next_def channel_index_def)
qed

lemma demo_channels_regs:
  "Spending_channels_headS demo_channels = stob_at 100" "Spending_channels_tailS demo_channels = stob_at 100"
  "Svm_channelsS demo_channels 1 = stob_at 200" "Svm_channelsS demo_channels 0 = stob_at 100" "vevents demo_channels = demo_ready"
  by (simp_all add: demo_channels_def vm_zero_def)

lemma demo_channels_apart: "apart {stob_at 100, stob_at 200}" "stob_at 100 \<noteq> stob_at 200"
proof -
  show n: "stob_at 100 \<noteq> stob_at 200" by code_simp
  have "(1 :: long) \<noteq> stob_at 100" "(1 :: long) \<noteq> stob_at 200" by code_simp+
  then show "apart {stob_at 100, stob_at 200}" by (simp add: apart_def)
qed

lemma demo_ready_events: "\<exists>ev'. events_seen f demo_ready [IO_COMPLETION_EVENT 1] ev' \<and> \<not> Spending_eventsPS ev'"
proof -
  define ev1 where "ev1 = demo_ready\<lparr>Events.store := [0 \<mapsto> \<lparr>fd = 1, status = FD_QUIESCENT, is_input = True, next = None\<rparr>],
     ready_que := \<lparr>first = None, lastp = FirstOf Ready\<rparr>\<rparr>"
  have "get_next_event f demo_ready = Some (IO_COMPLETION_EVENT 1, ev1)"
    by (simp add: get_next_event_def next_event_after_poll_def demo_ready_def events_init_def ev1_def
        there_are_ready_ports_def next_ready_port_def rmque_def set_status_def set_lastp_def
        set_store_def)
  moreover have "get_next_event f ev1 = Some (NO_EVENT, ev1)"
    by (simp add: get_next_event_def next_event_after_poll_def demo_ready_def events_init_def ev1_def
        there_are_ready_ports_def quiet_def)
  moreover have "\<not> Spending_eventsPS ev1" by (simp add: ev1_def demo_ready_def events_init_def)
  ultimately show ?thesis by (meson event_enum.simps one_more no_more)
qed

lemma completions_in_order_witness:
  "\<forall>os :: host. \<exists>b vm' vm''. check_events os demo_channels = Some (b, vm') \<and>
     fifo.deq_many first_completed 2 vm' = Some ([stob_at 100, stob_at 200], vm'') \<and>
     Spending_channels_headS vm'' = 1"
proof
  fix os :: host
  let ?Ch = "{stob_at 100, stob_at 200}" and ?es = "[IO_COMPLETION_EVENT 1]"
  obtain ev' where e: "events_seen (select_fds os) (vevents demo_channels) ?es ev'" "\<not> Spending_eventsPS ev'"
    using demo_ready_events by (auto simp: demo_channels_regs)
  have "channel_queue ?Ch demo_channels [stob_at 100]"
    using demo_channels_apart by (simp add: channel_queue_def demo_channel_cells demo_channels_regs)
  moreover have "known_completions ?Ch demo_channels ?es"
    by (simp add: known_completions_def registered_def demo_channel_cells demo_channels_regs)
  moreover have c: "completions demo_channels ?es = [stob_at 200]" by (simp add: completions_def demo_channels_regs)
  moreover have "distinct ([stob_at 100] @ completions demo_channels ?es)"
    using demo_channels_apart by (simp add: c)
  ultimately show "\<exists>b vm' vm''. check_events os demo_channels = Some (b, vm') \<and>
     fifo.deq_many first_completed 2 vm' = Some ([stob_at 100, stob_at 200], vm'') \<and>
     Spending_channels_headS vm'' = 1"
    using completions_in_order [OF e, of ?Ch "[stob_at 100]"] by (auto simp: channel_queue_def numeral_2_eq_2)
qed

subsection \<open>A channel that is put in while it is the last one\<close>

text \<open>The channels from \<open>a\<close> on, up to \<open>b\<close>.\<close>

fun linked_to :: "memory \<Rightarrow> long \<Rightarrow> long list \<Rightarrow> long \<Rightarrow> bool" where
  "linked_to m a [] b \<longleftrightarrow> a = b"
| "linked_to m a (x # xs) b \<longleftrightarrow> a = x \<and> linked_to m (channel_next m x) xs b"

lemma linked_to_cong: "(\<And>x. x \<in> set xs \<Longrightarrow> channel_next m' x = channel_next m x) \<Longrightarrow> linked_to m' a xs b = linked_to m a xs b"
  by (induction xs arbitrary: a) auto

lemma linked_linked_to: "linked m a (xs @ [c]) \<longleftrightarrow> linked_to m a xs c \<and> channel_next m c = 1"
  by (induction xs arbitrary: a) auto

definition looped_queue :: "long set \<Rightarrow> vm \<Rightarrow> long list \<Rightarrow> long \<Rightarrow> bool" where
  "looped_queue Ch vm xs c \<longleftrightarrow> apart Ch \<and> insert c (set xs) \<subseteq> Ch \<and> distinct (xs @ [c]) \<and>
     linked_to (vmem vm) (Spending_channels_headS vm) xs c \<and> channel_next (vmem vm) c = c \<and>
     Spending_channels_tailS vm = c \<and> (\<forall>d\<in>Ch - insert c (set xs). channel_next (vmem vm) d = 1)"

lemma enqueue_channel_again:
  assumes q: "channel_queue Ch vm (xs @ [c])" and c: "registered Ch c vm"
  shows "looped_queue Ch (enqueue_channel (channel_index (vmem vm) c) st vm) xs c"
proof -
  have C: "apart Ch" "insert c (set xs) \<subseteq> Ch" "1 \<notin> Ch" "distinct (xs @ [c])" and tail: "Spending_channels_tailS vm = c"
    and l: "linked_to (vmem vm) (Spending_channels_headS vm) xs c" "channel_next (vmem vm) c = 1"
    and rest: "\<forall>d\<in>Ch - insert c (set xs). channel_next (vmem vm) d = 1"
    using q by (auto simp: channel_queue_def apart_def linked_linked_to)
  define vm1 where "vm1 = poke (ADDRESS_AFTER_HEADER c + 16) (push_bit 2 st) vm"
  define vm2 where "vm2 = poke (ADDRESS_AFTER_HEADER c + 12) c vm1"
  have n1: "channel_next (vmem vm1) d = channel_next (vmem vm) d" if "d \<in> Ch" for d
    using C that by (simp add: vm1_def poke_next)
  have n2: "channel_next (vmem vm2) d = (if d = c then c else channel_next (vmem vm) d)" if "d \<in> Ch" for d
    using C that n1 by (auto simp: vm2_def poke_next)
  have "Spending_channels_headS vm \<noteq> 1" using l(1) C by (cases xs) auto
  then have e: "enqueue_channel (channel_index (vmem vm) c) st vm = vm2\<lparr>Spending_channels_tailS := c\<rparr>"
    using c C(2) n1 l(2) tail
    by (simp add: enqueue_channel_def vm1_def vm2_def registered_def Let_def set_channel_next_def)
  have "linked_to (vmem vm2) (Spending_channels_headS vm) xs c"
    using l(1) linked_to_cong [of xs "vmem vm2" "vmem vm"] n2 C(2,4) by (metis distinct_append
        disjoint_insert(1) insert_subset list.set(2) subset_eq)
  moreover have "Spending_channels_headS vm2 = Spending_channels_headS vm" by (simp add: vm2_def vm1_def)
  ultimately show ?thesis using C n2 rest by (auto simp: looped_queue_def e)
qed

lemma dequeue_looped:
  assumes q: "looped_queue Ch vm xs c"
  shows "Spending_channels_headS vm \<noteq> 1"
    and "xs = y # ys \<Longrightarrow> \<exists>vm'. dequeue_channel vm = (y, vm') \<and> looped_queue Ch vm' ys c"
    and "xs = [] \<Longrightarrow> \<exists>vm'. dequeue_channel vm = (c, vm') \<and> channel_queue Ch vm' [c]"
proof -
  have C: "apart Ch" "insert c (set xs) \<subseteq> Ch" "1 \<notin> Ch" "distinct (xs @ [c])" and tail: "Spending_channels_tailS vm = c"
    and l: "linked_to (vmem vm) (Spending_channels_headS vm) xs c" "channel_next (vmem vm) c = c"
    and rest: "\<forall>d\<in>Ch - insert c (set xs). channel_next (vmem vm) d = 1"
    using q by (simp_all add: looped_queue_def apart_def)
  define a where "a = Spending_channels_headS vm"
  define vm1 where "vm1 = poke (ADDRESS_AFTER_HEADER a + 12) 1 (vm\<lparr>Spending_channels_headS := channel_next (vmem vm) a\<rparr>)"
  have a: "a \<in> Ch" "a = c \<longleftrightarrow> xs = []" using l(1) C(2,4) by (cases xs; auto simp: a_def)+
  then show "Spending_channels_headS vm \<noteq> 1" using C(3) by (auto simp: a_def)
  have n: "channel_next (vmem vm1) d = (if d = a then 1 else channel_next (vmem vm) d)" if "d \<in> Ch" for d
    using C a that by (auto simp: vm1_def poke_next)
  have s: "Spending_channels_headS vm1 = channel_next (vmem vm) a" "Spending_channels_tailS vm1 = c"
    by (simp_all add: vm1_def tail)
  have "channel_next (vmem vm) a \<noteq> 1" using l(1,2) C(2,3)
    by (cases xs; cases "tl xs") (auto simp: a_def)
  then have d: "dequeue_channel vm = (a, vm1)"
    by (simp add: dequeue_channel_def set_channel_next_def vm1_def Let_def a_def)
  show "\<exists>vm'. dequeue_channel vm = (y, vm') \<and> looped_queue Ch vm' ys c" if xs: "xs = y # ys"
  proof -
    have y: "a = y" "linked_to (vmem vm) (channel_next (vmem vm) y) ys c" using l(1) xs by (simp_all add: a_def)
    have "channel_next (vmem vm1) x = channel_next (vmem vm) x" if "x \<in> set ys" for x
      using that n [of x] C(2,4) xs y(1) by auto
    then have "linked_to (vmem vm1) (channel_next (vmem vm) y) ys c"
      using y(2) linked_to_cong [of ys "vmem vm1" "vmem vm"] by blast
    then show ?thesis using C n s rest xs y(1) l(2) by (auto simp: d looped_queue_def)
  qed
  show "\<exists>vm'. dequeue_channel vm = (c, vm') \<and> channel_queue Ch vm' [c]" if "xs = []"
    using that a C n s rest l(2) by (auto simp: d channel_queue_def)
qed

lemma deliver_looped:
  "looped_queue Ch vm xs c \<Longrightarrow>
     \<exists>vm'. fifo.deq_many first_completed (length xs + 1) vm = Some (xs @ [c], vm') \<and> channel_queue Ch vm' [c]"
proof (induction xs arbitrary: vm)
  case Nil
  then obtain vm' where "first_completed vm = Some (c, vm')" "channel_queue Ch vm' [c]"
    using dequeue_looped(1,3) [OF Nil] by (auto simp: first_completed_def)
  then show ?case by simp
next
  case (Cons y ys)
  obtain vm1 where "first_completed vm = Some (y, vm1)" "looped_queue Ch vm1 ys c"
    using dequeue_looped(1,2) [OF Cons.prems] by (auto simp: first_completed_def)
  then show ?case using Cons.IH by auto
qed

text \<open>
  Property C40. A channel whose operation completes again while it is the last one in the queue,
  whatever is before it, is taken for one that is not in the queue, since its next one is false: it becomes
  its own next. All channels are delivered in their order, but the last one is still in the queue
  then, and is delivered a second time.
\<close>

theorem completed_again:
  assumes q: "channel_queue Ch vm (xs @ [c])" and c: "registered Ch c vm"
    and vm1: "vm1 = enqueue_channel (channel_index (vmem vm) c) st vm"
  shows "\<exists>vm2 vm3. fifo.deq_many first_completed (length xs + 1) vm1 = Some (xs @ [c], vm2) \<and> channel_queue Ch vm2 [c] \<and>
    dequeue_channel vm2 = (c, vm3) \<and> channel_queue Ch vm3 []"
proof -
  obtain vm2 where "fifo.deq_many first_completed (length xs + 1) vm1 = Some (xs @ [c], vm2)" "channel_queue Ch vm2 [c]"
    using deliver_looped [OF enqueue_channel_again [OF q c, of st]] vm1 by auto
  moreover from dequeue_channel_first(1,2) [OF this(2)]
  have "dequeue_channel vm2 = (c, snd (dequeue_channel vm2))" "channel_queue Ch (snd (dequeue_channel vm2)) []"
    by (simp_all add: prod_eq_iff)
  ultimately show ?thesis by blast
qed

text \<open>Two channels in the queue, of which the second completes again.\<close>

lemma completed_again_witness:
  "\<exists>vm1 vm2 vm3. vm1 = enqueue_channel 1 0 (enqueue_channel 1 0 demo_channels) \<and>
     fifo.deq_many first_completed 2 vm1 = Some ([stob_at 100, stob_at 200], vm2) \<and> dequeue_channel vm2 = (stob_at 200, vm3) \<and>
     Spending_channels_headS vm3 = 1"
proof -
  let ?Ch = "{stob_at 100, stob_at 200}"
  have q: "channel_queue ?Ch demo_channels [stob_at 100]"
    using demo_channels_apart by (simp add: channel_queue_def demo_channel_cells demo_channels_regs)
  have i: "channel_index (vmem demo_channels) (stob_at 200) = 1" "registered ?Ch (stob_at 200) demo_channels"
    by (simp_all add: registered_def demo_channel_cells demo_channels_regs)
  define vm where "vm = enqueue_channel 1 0 demo_channels"
  have "channel_queue ?Ch vm ([stob_at 100] @ [stob_at 200])" "same_table ?Ch demo_channels vm"
    using enqueue_channel_last(1,4) [OF q i(2), of vm 0] demo_channels_apart(2) by (simp_all add: vm_def i(1))
  moreover from this(2) have "registered ?Ch (stob_at 200) vm" "channel_index (vmem vm) (stob_at 200) = 1"
    using i by (simp_all add: same_table_registered) (simp add: same_table_def)
  ultimately show ?thesis
    using completed_again [of ?Ch vm "[stob_at 100]" "stob_at 200" "enqueue_channel 1 0 vm" 0]
    by (auto simp: channel_queue_def vm_def [symmetric] numeral_2_eq_2)
qed

end
