(* ===== verification/Extension.thy ===== *)
theory Extension
  imports Sockets Vm_Collect
begin

text \<open>
  \<open>src/c/extension.c\<close>: the byte code \<open>vm-extension\<close>, which calls the system, the sockets and the
  floating point of the machine, and the procedures for system calls that are external calls. The C
  library is the fields of a record, functions on the state \<open>'os\<close> of the system; a \<open>double\<close> is its 64
  bits. \<open>None\<close> is the end of the process, and a string that has no end.
\<close>

subsection \<open>Surroundings\<close>

type_synonym double = "64 word"

text \<open>Calls give their result with \<open>errno\<close>.\<close>

record 'os libc =
  net :: "'os net"
  new_fd :: "'os \<Rightarrow> ptr option"
  getenv :: "byte list \<Rightarrow> 'os \<Rightarrow> byte list option"
  setgid :: "long \<Rightarrow> 'os \<Rightarrow> int \<times> 'os"
  setuid :: "long \<Rightarrow> 'os \<Rightarrow> int \<times> 'os"
  chroot :: "byte list \<Rightarrow> 'os \<Rightarrow> int \<times> 'os"
  dup :: "long \<Rightarrow> 'os \<Rightarrow> (int \<times> int) \<times> 'os"
  gethostname :: "long \<Rightarrow> 'os \<Rightarrow> int \<times> byte list"
  ctime :: "'os \<Rightarrow> byte list option"
  system_command :: "byte list \<Rightarrow> 'os \<Rightarrow> int \<times> 'os"
  set_nonblocking :: "long \<Rightarrow> 'os \<Rightarrow> int \<times> 'os"
  pipe :: "'os \<Rightarrow> ((int \<times> int) option \<times> int) \<times> 'os"
  waitpid :: "long \<Rightarrow> long \<Rightarrow> 'os \<Rightarrow> ((int \<times> int) \<times> int) \<times> 'os"
  fork :: "'os \<Rightarrow> (int \<times> int) \<times> 'os"
  close_call :: "long \<Rightarrow> 'os \<Rightarrow> (int \<times> int) \<times> 'os"
  kill :: "long \<Rightarrow> long \<Rightarrow> 'os \<Rightarrow> (int \<times> int) \<times> 'os"
  execv :: "byte list \<Rightarrow> byte list list \<Rightarrow> 'os \<Rightarrow> 'os option"
  strerror :: "long \<Rightarrow> byte list"
  perror :: "string \<Rightarrow> 'os \<Rightarrow> string"
  herror :: "'os \<Rightarrow> string"

record floats =
  fl_add :: "double \<Rightarrow> double \<Rightarrow> double"
  fl_subtract :: "double \<Rightarrow> double \<Rightarrow> double"
  fl_multiply :: "double \<Rightarrow> double \<Rightarrow> double"
  fl_divide :: "double \<Rightarrow> double \<Rightarrow> double"
  fl_equal :: "double \<Rightarrow> double \<Rightarrow> bool"
  fl_less :: "double \<Rightarrow> double \<Rightarrow> bool"
  fl_exp :: "double \<Rightarrow> double"
  fl_log :: "double \<Rightarrow> double"
  fl_sin :: "double \<Rightarrow> double"
  fl_cos :: "double \<Rightarrow> double"
  fl_tan :: "double \<Rightarrow> double"
  fl_asin :: "double \<Rightarrow> double"
  fl_acos :: "double \<Rightarrow> double"
  fl_atan2 :: "double \<Rightarrow> double \<Rightarrow> double"
  fl_sqrt :: "double \<Rightarrow> double"
  fl_floor :: "double \<Rightarrow> double"
  fl_ceil :: "double \<Rightarrow> double"
  fl_fmod :: "double \<Rightarrow> double \<Rightarrow> double"
  fl_of_long :: "long \<Rightarrow> double"
  fl_to_long :: "double \<Rightarrow> long"
  fl_atof :: "byte list \<Rightarrow> double"
  fl_print :: "double \<Rightarrow> byte list"

text \<open>The status of the byte code, 0 or 1, with the machine and the system; the value is in \<open>Sextension_valueS\<close>.\<close>

type_synonym 'os extension_result = "(long \<times> vm \<times> 'os) option"

definition EXT_RETURN :: "long \<Rightarrow> vm \<Rightarrow> 'os \<Rightarrow> 'os extension_result" where
  "EXT_RETURN value vm os = Some (0, vm\<lparr>Sextension_valueS := value\<rparr>, os)"

definition EXT_EXCEPTION :: "vm \<Rightarrow> 'os \<Rightarrow> 'os extension_result" where
  "EXT_EXCEPTION vm os = Some (1, vm, os)"

definition enter_int :: "int \<Rightarrow> long" where
  "enter_int n = ENTER_FIXNUM (word_of_int n)"

text \<open>The characters of a stored string as a C string, and characters put into it.\<close>

definition stob_c_string :: "vm \<Rightarrow> long \<Rightarrow> byte list option" where
  "stob_c_string vm x = c_string (vmem vm) (ADDRESS_AFTER_HEADER x)"

definition put_bytes :: "long \<Rightarrow> byte list \<Rightarrow> vm \<Rightarrow> vm" where
  "put_bytes x bytes vm = set_vmem (store_bytes (vmem vm) (ADDRESS_AFTER_HEADER x) bytes) vm"

subsection \<open>Sockets\<close>

definition ext_stream_socket :: "'os libc \<Rightarrow> vm \<Rightarrow> 'os \<Rightarrow> 'os extension_result" where
  "ext_stream_socket lib vm os =
     (case internet_stream_socket (net lib) os of (s, os1) \<Rightarrow>
        if s < 0 then EXT_EXCEPTION vm os1 else EXT_RETURN (enter_int s) vm os1)"

definition ext_bind :: "'os libc \<Rightarrow> long \<Rightarrow> vm \<Rightarrow> 'os \<Rightarrow> 'os extension_result" where
  "ext_bind lib value vm os =
     (let m = vmem vm in
      if \<not> PAIRP m value \<or> \<not> FIXNUMP (CAR m value) \<or> \<not> FIXNUMP (CDR m value) then EXT_EXCEPTION vm os
      else case socket_bind (net lib) (sint (EXTRACT_FIXNUM (CAR m value))) (sint (EXTRACT_FIXNUM (CDR m value))) os of
             (port, os1) \<Rightarrow> if port < 0 then EXT_EXCEPTION vm os1 else EXT_RETURN (enter_int port) vm os1)"

text \<open>A pending operation is the value -1.\<close>

definition ext_descriptor :: "vm \<Rightarrow> (int \<times> events \<times> 'os) option \<Rightarrow> 'os extension_result" where
  "ext_descriptor vm result = Option.bind result (\<lambda>(desc, ev, os).
     let vm1 = vm\<lparr>vevents := ev\<rparr>
     in if 0 \<le> desc then EXT_RETURN (enter_int desc) vm1 os
        else if desc = - 2 then EXT_RETURN (enter_int (- 1)) vm1 os else EXT_EXCEPTION vm1 os)"

definition ext_accept :: "'os libc \<Rightarrow> long \<Rightarrow> vm \<Rightarrow> 'os \<Rightarrow> 'os extension_result" where
  "ext_accept lib value vm os =
     (if \<not> FIXNUMP value \<or> EXTRACT_FIXNUM value <s 0 then EXT_EXCEPTION vm os
      else ext_descriptor vm (socket_accept (net lib) (new_fd lib os) (sint (EXTRACT_FIXNUM value)) (vevents vm) os))"

definition ext_connect :: "'os libc \<Rightarrow> long \<Rightarrow> vm \<Rightarrow> 'os \<Rightarrow> 'os extension_result" where
  "ext_connect lib value vm os =
     (let m = vmem vm in
      if \<not> (PAIRP m value \<and> FIXNUMP (CAR m value) \<and> PAIRP m (CDR m value) \<and>
            STRINGP m (CAR m (CDR m value)) \<and> FIXNUMP (CDR m (CDR m value)))
      then EXT_EXCEPTION vm os
      else Option.bind (stob_c_string vm (CAR m (CDR m value))) (\<lambda>mach.
             ext_descriptor vm (socket_connect (net lib) (new_fd lib os) (sint (EXTRACT_FIXNUM (CAR m value))) mach
               (sint (EXTRACT_FIXNUM (CDR m (CDR m value)))) (vevents vm) os)))"

definition ext_nodelay :: "'os libc \<Rightarrow> long \<Rightarrow> vm \<Rightarrow> 'os \<Rightarrow> 'os extension_result" where
  "ext_nodelay lib value vm os =
     (let m = vmem vm in
      if \<not> PAIRP m value \<or> \<not> FIXNUMP (CAR m value) then EXT_EXCEPTION vm os
      else case socket_nodelay (net lib) (sint (EXTRACT_FIXNUM (CAR m value)))
                  (if EXTRACT_BOOLEAN (CDR m value) then 1 else 0) os of
             (ok, os1) \<Rightarrow> if ok then EXT_RETURN SCHUNSPECIFIC vm os1 else EXT_EXCEPTION vm os1)"

subsection \<open>The system\<close>

text \<open>The length is compared as an unsigned number.\<close>

definition ext_getenv :: "'os libc \<Rightarrow> long \<Rightarrow> vm \<Rightarrow> 'os \<Rightarrow> 'os extension_result" where
  "ext_getenv lib value vm os =
     (let m = vmem vm; env_var = CAR m value; buffer = CDR m value in
      if \<not> PAIRP m value \<or> \<not> STRINGP m env_var \<or> \<not> STRINGP m buffer then EXT_EXCEPTION vm os
      else Option.bind (stob_c_string vm env_var) (\<lambda>name.
        case getenv lib name os of
          None \<Rightarrow> EXT_RETURN SCHFALSE vm os
        | Some result \<Rightarrow>
            if STRING_LENGTH m buffer < word_of_nat (length result) then EXT_EXCEPTION vm os
            else EXT_RETURN (enter_int (int (length result))) (put_bytes buffer result vm) os))"

definition ext_setuid :: "'os libc \<Rightarrow> long \<Rightarrow> vm \<Rightarrow> 'os \<Rightarrow> 'os extension_result" where
  "ext_setuid lib value vm os =
     (let m = vmem vm in
      if \<not> PAIRP m value \<or> \<not> FIXNUMP (CAR m value) \<or> \<not> FIXNUMP (CDR m value) then EXT_EXCEPTION vm os
      else case setgid lib (EXTRACT_FIXNUM (CDR m value)) os of (st, os1) \<Rightarrow>
             if st \<noteq> 0 then EXT_RETURN SCHFALSE (vm_say (perror lib ''setgid'' os1) vm) os1
             else case setuid lib (EXTRACT_FIXNUM (CAR m value)) os1 of (st, os2) \<Rightarrow>
               if st \<noteq> 0 then EXT_RETURN SCHFALSE (vm_say (perror lib ''setuid'' os2) vm) os2
               else EXT_RETURN SCHTRUE vm os2)"

definition ext_chroot :: "'os libc \<Rightarrow> long \<Rightarrow> vm \<Rightarrow> 'os \<Rightarrow> 'os extension_result" where
  "ext_chroot lib value vm os =
     (if \<not> STRINGP (vmem vm) value then EXT_EXCEPTION vm os
      else Option.bind (stob_c_string vm value) (\<lambda>path.
        case chroot lib path os of (st, os1) \<Rightarrow>
          if st \<noteq> 0 then EXT_RETURN SCHFALSE (vm_say (perror lib ''chroot'' os1) vm) os1
          else EXT_RETURN SCHTRUE vm os1))"

definition ext_dup :: "'os libc \<Rightarrow> long \<Rightarrow> vm \<Rightarrow> 'os \<Rightarrow> 'os extension_result" where
  "ext_dup lib value vm os =
     (case dup lib (EXTRACT_FIXNUM value) os of ((desc, _), os1) \<Rightarrow>
        if desc < 0 then EXT_EXCEPTION vm os1 else EXT_RETURN (enter_int desc) vm os1)"

definition ext_descriptor_number :: "long \<Rightarrow> vm \<Rightarrow> 'os \<Rightarrow> 'os extension_result" where
  "ext_descriptor_number value vm os =
     (if \<not> FIXNUMP value \<or> EXTRACT_FIXNUM value <s 0 then EXT_EXCEPTION vm os
      else EXT_RETURN (ENTER_FIXNUM (EXTRACT_FIXNUM value)) vm os)"

definition ext_gethostname :: "'os libc \<Rightarrow> long \<Rightarrow> vm \<Rightarrow> 'os \<Rightarrow> 'os extension_result" where
  "ext_gethostname lib value vm os =
     (if \<not> STRINGP (vmem vm) value then EXT_EXCEPTION vm os
      else case gethostname lib (STRING_LENGTH (vmem vm) value) os of (st, bytes) \<Rightarrow>
        let vm1 = put_bytes value bytes vm
        in if st \<noteq> 0 then EXT_EXCEPTION vm1 os
           else Option.bind (stob_c_string vm1 value) (\<lambda>name. EXT_RETURN (enter_int (int (length name))) vm1 os))"

definition ext_gethostbyname :: "'os libc \<Rightarrow> long \<Rightarrow> vm \<Rightarrow> 'os \<Rightarrow> 'os extension_result" where
  "ext_gethostbyname lib value vm os =
     (if \<not> STRINGP (vmem vm) value then EXT_EXCEPTION vm os
      else Option.bind (stob_c_string vm value) (\<lambda>name.
        case sys_gethostbyname (net lib) name os of
          None \<Rightarrow> EXT_EXCEPTION (vm_say (''gethostbyname() failed on '' @ text_of name @ '': '' @ herror lib os) vm) os
        | Some (_, h_addr) \<Rightarrow>
            if STRING_LENGTH (vmem vm) value <s word_of_nat (length h_addr)
            then EXT_EXCEPTION (vm_say ''buffer for gethostbyname() is too small'' vm) os
            else EXT_RETURN (enter_int (int (length h_addr))) (put_bytes value h_addr vm) os))"

text \<open>The time without its newline, as far as there is room.\<close>

definition ext_time :: "'os libc \<Rightarrow> long \<Rightarrow> vm \<Rightarrow> 'os \<Rightarrow> 'os extension_result" where
  "ext_time lib value vm os =
     (if \<not> STRINGP (vmem vm) value then EXT_EXCEPTION vm os
      else case ctime lib os of
          None \<Rightarrow> EXT_EXCEPTION (vm_say (''time() failed'' @ herror lib os) vm) os
        | Some text \<Rightarrow>
            let len = min (int (length text) - 1) (sint (STRING_LENGTH (vmem vm) value))
            in EXT_RETURN (enter_int len) (put_bytes value (take (nat len) text) vm) os)"

text \<open>The message of a command that could not be started is that of \<open>chroot\<close>.\<close>

definition ext_system :: "'os libc \<Rightarrow> long \<Rightarrow> vm \<Rightarrow> 'os \<Rightarrow> 'os extension_result" where
  "ext_system lib value vm os =
     (if \<not> STRINGP (vmem vm) value then EXT_EXCEPTION vm os
      else Option.bind (stob_c_string vm value) (\<lambda>command.
        case system_command lib command os of (st, os1) \<Rightarrow>
          if st = - 1 then EXT_EXCEPTION (vm_say (perror lib ''chroot'' os1) vm) os1
          else EXT_RETURN (enter_int st) vm os1))"

definition ext_nonblocking :: "'os libc \<Rightarrow> long \<Rightarrow> vm \<Rightarrow> 'os \<Rightarrow> 'os extension_result" where
  "ext_nonblocking lib value vm os =
     (if \<not> FIXNUMP value \<or> EXTRACT_FIXNUM value <s 0 then EXT_EXCEPTION vm os
      else case set_nonblocking lib (EXTRACT_FIXNUM value) os of (st, os1) \<Rightarrow>
             if st < 0 then EXT_EXCEPTION vm os1 else EXT_RETURN SCHUNSPECIFIC vm os1)"

subsection \<open>Floating point\<close>

definition double_at :: "memory \<Rightarrow> addr \<Rightarrow> double" where
  "double_at m a = ucast (load m a) OR push_bit 32 (ucast (load m (a + 4)))"

definition store_double :: "memory \<Rightarrow> addr \<Rightarrow> double \<Rightarrow> memory" where
  "store_double m a d = store (store m a (ucast d)) (a + 4) (ucast (drop_bit 32 d))"

definition EXTRACT_FLOAT :: "vm \<Rightarrow> long \<Rightarrow> double option" where
  "EXTRACT_FLOAT vm x = (if STOBP x then Some (double_at (vmem vm) (ADDRESS_AFTER_HEADER x)) else None)"

definition get_float_arg :: "vm \<Rightarrow> long \<Rightarrow> int \<Rightarrow> double option" where
  "get_float_arg vm args i = EXTRACT_FLOAT vm (STOB_REF (vmem vm) args i)"

definition set_float_arg :: "long \<Rightarrow> int \<Rightarrow> double \<Rightarrow> long \<Rightarrow> vm \<Rightarrow> 'os \<Rightarrow> 'os extension_result" where
  "set_float_arg args i d value vm os =
     (let x = STOB_REF (vmem vm) args i
      in if STOBP x
         then EXT_RETURN value (set_vmem (store_double (vmem vm) (ADDRESS_AFTER_HEADER x) d) vm) os
         else EXT_EXCEPTION vm os)"

definition float_args :: "long \<Rightarrow> long \<Rightarrow> vm \<Rightarrow> bool" where
  "float_args n value vm \<longleftrightarrow> STOBP value \<and> STOB_LLENGTH (vmem vm) value = n"

definition flop_binary :: "(double \<Rightarrow> double \<Rightarrow> double option) \<Rightarrow> long \<Rightarrow> vm \<Rightarrow> 'os \<Rightarrow> 'os extension_result" where
  "flop_binary f value vm os =
     (if \<not> float_args 3 value vm then EXT_EXCEPTION vm os
      else case (get_float_arg vm value 0, get_float_arg vm value 1) of
          (Some x, Some y) \<Rightarrow>
            (case f x y of Some z \<Rightarrow> set_float_arg value 2 z SCHUNSPECIFIC vm os | None \<Rightarrow> EXT_EXCEPTION vm os)
        | _ \<Rightarrow> EXT_EXCEPTION vm os)"

definition flop_compare :: "(double \<Rightarrow> double \<Rightarrow> bool) \<Rightarrow> long \<Rightarrow> vm \<Rightarrow> 'os \<Rightarrow> 'os extension_result" where
  "flop_compare f value vm os =
     (if \<not> float_args 2 value vm then EXT_EXCEPTION vm os
      else case (get_float_arg vm value 0, get_float_arg vm value 1) of
          (Some x, Some y) \<Rightarrow> EXT_RETURN (ENTER_BOOLEAN (f x y)) vm os
        | _ \<Rightarrow> EXT_EXCEPTION vm os)"

definition flop_unary :: "(double \<Rightarrow> double) \<Rightarrow> long \<Rightarrow> vm \<Rightarrow> 'os \<Rightarrow> 'os extension_result" where
  "flop_unary f value vm os =
     (if \<not> float_args 2 value vm then EXT_EXCEPTION vm os
      else case get_float_arg vm value 0 of
          Some x \<Rightarrow> set_float_arg value 1 (f x) SCHUNSPECIFIC vm os
        | None \<Rightarrow> EXT_EXCEPTION vm os)"

definition flop_of_fixnum :: "floats \<Rightarrow> long \<Rightarrow> vm \<Rightarrow> 'os \<Rightarrow> 'os extension_result" where
  "flop_of_fixnum fl value vm os =
     (let arg = STOB_REF (vmem vm) value 0 in
      if \<not> float_args 2 value vm then EXT_EXCEPTION vm os
      else if \<not> FIXNUMP arg then EXT_RETURN SCHFALSE vm os
      else set_float_arg value 1 (fl_of_long fl (EXTRACT_FIXNUM arg)) SCHTRUE vm os)"

definition flop_of_string :: "floats \<Rightarrow> long \<Rightarrow> vm \<Rightarrow> 'os \<Rightarrow> 'os extension_result" where
  "flop_of_string fl value vm os =
     (if \<not> float_args 2 value vm then EXT_EXCEPTION vm os
      else Option.bind (stob_c_string vm (STOB_REF (vmem vm) value 0)) (\<lambda>text.
             set_float_arg value 1 (fl_atof fl text) SCHUNSPECIFIC vm os))"

text \<open>The text is written first and its length tested afterwards.\<close>

definition flop_to_string :: "floats \<Rightarrow> long \<Rightarrow> vm \<Rightarrow> 'os \<Rightarrow> 'os extension_result" where
  "flop_to_string fl value vm os =
     (let s = STOB_REF (vmem vm) value 1 in
      if \<not> float_args 2 value vm then EXT_EXCEPTION vm os
      else case get_float_arg vm value 0 of
          None \<Rightarrow> EXT_EXCEPTION vm os
        | Some x \<Rightarrow>
            let text = fl_print fl x; vm1 = put_bytes s (text @ [0]) vm;
                len = word_of_nat (length text)
            in EXT_RETURN (ENTER_FIXNUM len)
                 (if STRING_LENGTH (vmem vm1) s < len
                  then vm_say (''printing float: output too long: '' @ text_of text) vm1 else vm1) os)"

definition fl_integer :: "floats \<Rightarrow> double \<Rightarrow> bool" where
  "fl_integer fl x \<longleftrightarrow> fl_equal fl (fl_fmod fl x (fl_of_long fl 1)) (fl_of_long fl 0)"

definition fl_quotient :: "floats \<Rightarrow> double \<Rightarrow> double \<Rightarrow> double option" where
  "fl_quotient fl x y =
     (if \<not> fl_integer fl x \<or> \<not> fl_integer fl y \<or> fl_equal fl y (fl_of_long fl 0) then None
      else let z = fl_divide fl x y
           in Some (if fl_less fl z (fl_of_long fl 0) then fl_ceil fl z else fl_floor fl z))"

definition fl_remainder :: "floats \<Rightarrow> double \<Rightarrow> double \<Rightarrow> double option" where
  "fl_remainder fl x y =
     (if \<not> fl_integer fl x \<or> \<not> fl_integer fl y \<or> fl_equal fl y (fl_of_long fl 0) then None
      else Some (fl_fmod fl x y))"

definition flop_integer :: "floats \<Rightarrow> long \<Rightarrow> vm \<Rightarrow> 'os \<Rightarrow> 'os extension_result" where
  "flop_integer fl value vm os =
     (case EXTRACT_FLOAT vm value of
        Some x \<Rightarrow> EXT_RETURN (ENTER_BOOLEAN (fl_integer fl x)) vm os | None \<Rightarrow> EXT_EXCEPTION vm os)"

definition flop_to_fixnum :: "floats \<Rightarrow> long \<Rightarrow> vm \<Rightarrow> 'os \<Rightarrow> 'os extension_result" where
  "flop_to_fixnum fl value vm os =
     (let le = (\<lambda>x y. fl_less fl x y \<or> fl_equal fl x y) in
      case EXTRACT_FLOAT vm value of
        Some x \<Rightarrow> EXT_RETURN (if le x (fl_of_long fl 536870911) \<and> le (fl_of_long fl (- 536870912)) x
                              then ENTER_FIXNUM (fl_to_long fl x) else SCHFALSE) vm os
      | None \<Rightarrow> EXT_EXCEPTION vm os)"

definition flop :: "floats \<Rightarrow> long \<Rightarrow> long \<Rightarrow> vm \<Rightarrow> 'os \<Rightarrow> 'os extension_result" where
  "flop fl i value vm os =
     (if i = 0 then flop_binary (\<lambda>x y. Some (fl_add fl x y)) value vm os
      else if i = 1 then flop_binary (\<lambda>x y. Some (fl_subtract fl x y)) value vm os
      else if i = 2 then flop_binary (\<lambda>x y. Some (fl_multiply fl x y)) value vm os
      else if i = 3 then flop_binary (\<lambda>x y. if fl_equal fl y (fl_of_long fl 0) then None
                                             else Some (fl_divide fl x y)) value vm os
      else if i = 4 then flop_compare (fl_equal fl) value vm os
      else if i = 5 then flop_compare (fl_less fl) value vm os
      else if i = 6 then flop_of_fixnum fl value vm os
      else if i = 7 then flop_of_string fl value vm os
      else if i = 8 then flop_to_string fl value vm os
      else if i = 9 then flop_unary (fl_exp fl) value vm os
      else if i = 10 then flop_unary (fl_log fl) value vm os
      else if i = 11 then flop_unary (fl_sin fl) value vm os
      else if i = 12 then flop_unary (fl_cos fl) value vm os
      else if i = 13 then flop_unary (fl_tan fl) value vm os
      else if i = 14 then flop_unary (fl_asin fl) value vm os
      else if i = 15 then flop_unary (fl_acos fl) value vm os
      else if i = 16 then flop_binary (\<lambda>y x. Some (fl_atan2 fl y x)) value vm os
      else if i = 17 then flop_unary (fl_sqrt fl) value vm os
      else if i = 18 then flop_unary (fl_floor fl) value vm os
      else if i = 19 then flop_integer fl value vm os
      else if i = 20 then flop_to_fixnum fl value vm os
      else if i = 21 then flop_binary (fl_quotient fl) value vm os
      else if i = 22 then flop_binary (fl_remainder fl) value vm os
      else EXT_EXCEPTION vm os)"

subsection \<open>The dispatch\<close>

definition extended_vm :: "'os libc \<Rightarrow> floats \<Rightarrow> long \<Rightarrow> long \<Rightarrow> vm \<Rightarrow> 'os \<Rightarrow> 'os extension_result" where
  "extended_vm lib fl key value vm os =
     (if key = 0 then EXT_RETURN (ENTER_FIXNUM 0) vm os
      else if key = 20 then ext_stream_socket lib vm os
      else if key = 21 then ext_bind lib value vm os
      else if key = 22 then ext_accept lib value vm os
      else if key = 23 then ext_connect lib value vm os
      else if key = 26 then ext_getenv lib value vm os
      else if key = 27 then ext_setuid lib value vm os
      else if key = 28 then ext_chroot lib value vm os
      else if key = 29 then ext_dup lib value vm os
      else if key = 30 then ext_descriptor_number value vm os
      else if key = 31 then ext_gethostname lib value vm os
      else if key = 32 then ext_gethostbyname lib value vm os
      else if key = 33 then ext_time lib value vm os
      else if key = 96 then ext_system lib value vm os
      else if key = 214 then ext_nonblocking lib value vm os
      else if key = 300 then ext_nodelay lib value vm os
      else flop fl (key - 100) value vm os)"

text \<open>As the byte code \<open>vm-extension\<close> takes it, in a system that is in a given state at each point of the run.\<close>

definition vm_extensions ::
  "'os libc \<Rightarrow> floats \<Rightarrow> (vm \<Rightarrow> 'os) \<Rightarrow> long \<Rightarrow> long \<Rightarrow> vm \<Rightarrow> (long \<times> vm) option" where
  "vm_extensions lib fl system_of key value vm =
     map_option (\<lambda>(st, vm1, _). (st, vm1)) (extended_vm lib fl key value vm (system_of vm))"

subsection \<open>System calls as external procedures\<close>

text \<open>The arguments are given in the opposite order; the result is false for success, true for a bad argument, or \<open>errno\<close>.\<close>

type_synonym 'os external_result = "(long \<times> memory \<times> 'os) option"

definition arg :: "memory \<Rightarrow> addr \<Rightarrow> int \<Rightarrow> long" where
  "arg m argv i = load m (argv + 4 * i)"

definition s48_pipe :: "'os libc \<Rightarrow> long \<Rightarrow> addr \<Rightarrow> memory \<Rightarrow> 'os \<Rightarrow> 'os external_result" where
  "s48_pipe lib argc argv m os =
     (let result = arg m argv 0 in
      if argc \<noteq> 1 \<or> \<not> PAIRP m result then Some (SCHTRUE, m, os)
      else case pipe lib os of ((ends, errno), os1) \<Rightarrow> (case ends of
          None \<Rightarrow> Some (enter_int errno, m, os1)
        | Some (fd0, fd1) \<Rightarrow>
            Some (SCHFALSE, set_STOB_REF (set_STOB_REF m result 0 (enter_int fd0)) result 1 (enter_int fd1), os1)))"

definition s48_waitpid :: "'os libc \<Rightarrow> long \<Rightarrow> addr \<Rightarrow> memory \<Rightarrow> 'os \<Rightarrow> 'os external_result" where
  "s48_waitpid lib argc argv m os =
     (let result = arg m argv 2; pidf = arg m argv 1; optf = arg m argv 0 in
      if argc \<noteq> 3 \<or> \<not> PAIRP m result \<or> \<not> FIXNUMP pidf \<or> \<not> FIXNUMP optf then Some (SCHTRUE, m, os)
      else case waitpid lib (EXTRACT_FIXNUM pidf) (EXTRACT_FIXNUM optf) os of (((pid, st), errno), os1) \<Rightarrow>
        if pid = - 1 then Some (enter_int errno, m, os1)
        else Some (SCHFALSE, set_STOB_REF (set_STOB_REF m result 0 (enter_int pid)) result 1 (enter_int st), os1))"

definition s48_fork :: "'os libc \<Rightarrow> long \<Rightarrow> addr \<Rightarrow> memory \<Rightarrow> 'os \<Rightarrow> 'os external_result" where
  "s48_fork lib argc argv m os =
     (let result = arg m argv 0 in
      if argc \<noteq> 1 \<or> \<not> PAIRP m result then Some (SCHTRUE, m, os)
      else case fork lib os of ((pid, errno), os1) \<Rightarrow>
        if pid = - 1 then Some (enter_int errno, m, os1)
        else Some (SCHFALSE, set_STOB_REF m result 0 (enter_int pid), os1))"

definition s48_exit :: "long \<Rightarrow> addr \<Rightarrow> memory \<Rightarrow> 'os \<Rightarrow> 'os external_result" where
  "s48_exit argc argv m os = None"

definition s48_close :: "'os libc \<Rightarrow> long \<Rightarrow> addr \<Rightarrow> memory \<Rightarrow> 'os \<Rightarrow> 'os external_result" where
  "s48_close lib argc argv m os =
     (let desc = arg m argv 0 in
      if argc \<noteq> 1 \<or> \<not> FIXNUMP desc then Some (SCHTRUE, m, os)
      else case close_call lib (EXTRACT_FIXNUM desc) os of ((r, errno), os1) \<Rightarrow>
        Some (if r = - 1 then enter_int errno else SCHFALSE, m, os1))"

definition s48_dup :: "'os libc \<Rightarrow> long \<Rightarrow> addr \<Rightarrow> memory \<Rightarrow> 'os \<Rightarrow> 'os external_result" where
  "s48_dup lib argc argv m os =
     (let result = arg m argv 1; desc = arg m argv 0 in
      if argc \<noteq> 2 \<or> \<not> FIXNUMP desc \<or> \<not> PAIRP m result then Some (SCHTRUE, m, os)
      else case dup lib (EXTRACT_FIXNUM desc) os of ((new, errno), os1) \<Rightarrow>
        if new = - 1 then Some (enter_int errno, m, os1)
        else Some (SCHFALSE, set_STOB_REF m result 0 (enter_int new), os1))"

definition s48_kill :: "'os libc \<Rightarrow> long \<Rightarrow> addr \<Rightarrow> memory \<Rightarrow> 'os \<Rightarrow> 'os external_result" where
  "s48_kill lib argc argv m os =
     (let pid = arg m argv 1; sig = arg m argv 0 in
      if argc \<noteq> 2 \<or> \<not> FIXNUMP pid \<or> \<not> FIXNUMP sig then Some (SCHTRUE, m, os)
      else case kill lib (EXTRACT_FIXNUM pid) (EXTRACT_FIXNUM sig) os of ((r, errno), os1) \<Rightarrow>
        Some (if r = - 1 then enter_int errno else SCHFALSE, m, os1))"

text \<open>
  The program of the process is replaced, or the result is false, whatever the reason. The block of the
  arguments has room for two of them and the end (\<open>argc + 1\<close>, not \<open>unix_argc + 1\<close>); more of
  them are written behind it, where the C code is undefined.
\<close>

definition s48_execv :: "'os libc \<Rightarrow> long \<Rightarrow> addr \<Rightarrow> memory \<Rightarrow> 'os \<Rightarrow> 'os external_result" where
  "s48_execv lib argc argv m os =
     (let prog = arg m argv 1; arg_vec = arg m argv 0;
          args = map (STOB_REF m arg_vec \<circ> int) [0..<nat (sint (VECTOR_LENGTH m arg_vec))];
          string_at = (\<lambda>x. c_string m (ADDRESS_AFTER_HEADER x))
      in if argc \<noteq> 2 \<or> \<not> STRINGP m prog \<or> \<not> VECTORP m arg_vec then Some (SCHTRUE, m, os)
         else if \<not> list_all (STRINGP m) args then Some (SCHFALSE, m, os)
         else Option.bind (string_at prog) (\<lambda>path.
              if list_all (\<lambda>x. string_at x \<noteq> None) args
              then map_option (\<lambda>os1. (SCHFALSE, m, os1)) (execv lib path (map (\<lambda>x. the (string_at x)) args) os)
              else None))"

definition s48_strerror :: "'os libc \<Rightarrow> long \<Rightarrow> addr \<Rightarrow> memory \<Rightarrow> 'os \<Rightarrow> 'os external_result" where
  "s48_strerror lib argc argv m os =
     (let result = arg m argv 1; err = arg m argv 0 in
      if argc \<noteq> 2 \<or> \<not> STRINGP m result \<or> \<not> FIXNUMP err then Some (SCHFALSE, m, os)
      else let text = strerror lib (EXTRACT_FIXNUM err)
           in if sint (STRING_LENGTH m result) < int (length text) then Some (SCHFALSE, m, os)
              else Some (enter_int (int (length text)), store_bytes m (ADDRESS_AFTER_HEADER result) text, os))"

end
