(* ===== verification/Extension_Facts.thy ===== *)
theory Extension_Facts
  imports Extension Longs
begin

unbundle bit_operations_syntax

text \<open>
  The extensions (\<open>src/c/extension.c\<close>) as the machine relies on them: it calls them without saving its
  registers, so they may not allocate, move or root anything, and what they return is no pointer. Of the
  memory they may only write the bytes of the string or floating point number that is meant for the
  result.
\<close>

definition but_data :: "vm \<Rightarrow> vm" where
  "but_data vm = vm\<lparr>vheap := (vheap vm)\<lparr>mem := (\<lambda>_. 0), messages := []\<rparr>, vevents := events_init, Sextension_valueS := 0\<rparr>"

text \<open>
  From the first of these addresses on as many bytes as the second number may be written, and the
  event queues only if this is allowed. A message on the standard error output is added to those there are.
\<close>

definition touches :: "addr \<times> int \<Rightarrow> bool \<Rightarrow> vm \<Rightarrow> vm \<Rightarrow> bool" where
  "touches area events vm vm' \<longleftrightarrow> but_data vm' = but_data vm \<and>
     (\<forall>x. x < fst area \<or> fst area + snd area \<le> x \<longrightarrow> vmem vm' x = vmem vm x) \<and>
     (events \<or> vevents vm' = vevents vm) \<and> (\<exists>lines. messages (vheap vm') = messages (vheap vm) @ lines)"

definition immediate :: "long \<Rightarrow> bool" where
  "immediate x \<longleftrightarrow> FIXNUMP x \<or> IMMEDIATEP x"

definition well_typed :: "addr \<times> int \<Rightarrow> bool \<Rightarrow> vm \<Rightarrow> 'os extension_result \<Rightarrow> bool" where
  "well_typed area events vm r = (case r of None \<Rightarrow> True | Some (st, vm', os) \<Rightarrow> touches area events vm vm' \<and>
     (if st = 0 then immediate (Sextension_valueS vm') else st = 1 \<and> Sextension_valueS vm' = Sextension_valueS vm))"

text \<open>
  The bytes an extension may write, by its number: the buffer for the value of an environment variable,
  the string for the name or address of a host or for the time, the floating point number for the result. The
  text of a floating point number and the zero after it are written to the string whatever its length.
\<close>

definition float_area :: "long \<Rightarrow> int \<Rightarrow> vm \<Rightarrow> addr \<times> int" where
  "float_area value i vm = (ADDRESS_AFTER_HEADER (STOB_REF (vmem vm) value i), 8)"

definition string_area :: "long \<Rightarrow> vm \<Rightarrow> addr \<times> int" where
  "string_area x vm = (ADDRESS_AFTER_HEADER x, uint (STRING_LENGTH (vmem vm) x))"

definition text_area :: "floats \<Rightarrow> long \<Rightarrow> vm \<Rightarrow> addr \<times> int" where
  "text_area fl value vm = (ADDRESS_AFTER_HEADER (STOB_REF (vmem vm) value 1),
     case get_float_arg vm value 0 of None \<Rightarrow> 0 | Some x \<Rightarrow> int (length (fl_print fl x)) + 1)"

definition flop_area :: "floats \<Rightarrow> long \<Rightarrow> long \<Rightarrow> vm \<Rightarrow> addr \<times> int" where
  "flop_area fl i value vm =
     (if i \<in> {0, 1, 2, 3, 16, 21, 22} then float_area value 2 vm
      else if i \<in> {6, 7, 9, 10, 11, 12, 13, 14, 15, 17, 18} then float_area value 1 vm
      else if i = 8 then text_area fl value vm else (0, 0))"

definition extension_area :: "floats \<Rightarrow> long \<Rightarrow> long \<Rightarrow> vm \<Rightarrow> addr \<times> int" where
  "extension_area fl key value vm =
     (if key = 26 then string_area (CDR (vmem vm) value) vm
      else if key \<in> {31, 32, 33} then string_area value vm
      else if 100 \<le>s key \<and> key \<le>s 122 then flop_area fl (key - 100) value vm else (0, 0))"

text \<open>
  What is relied on of the C library: the name of the host is at most as long as the buffer given, and a
  string is shorter than the range of its length.
\<close>

definition fitting_strings :: "'os libc \<Rightarrow> bool" where
  "fitting_strings lib \<longleftrightarrow> (\<forall>n os. int (length (snd (gethostname lib n os))) \<le> uint n) \<and>
     (\<forall>name os r. getenv lib name os = Some r \<longrightarrow> int (length r) < 4294967296) \<and>
     (\<forall>name os e r. sys_gethostbyname (net lib) name os = Some (e, r) \<longrightarrow> int (length r) < 2147483648)"

lemma touches_refl [simp]: "touches area events vm vm"
  by (simp add: touches_def)

lemma touches_other [simp]:
  "touches area events vm (vm1\<lparr>Sextension_valueS := v\<rparr>) \<longleftrightarrow> touches area events vm vm1"
  "touches area True vm (vm1\<lparr>vevents := ev\<rparr>) \<longleftrightarrow> touches area True vm vm1"
  by (simp_all add: touches_def but_data_def)

lemma touches_say [simp]: "touches area events vm vm1 \<Longrightarrow> touches area events vm (vm_say line vm1)"
  by (auto simp: touches_def but_data_def vm_say_def say_def)

lemma touches_memory:
  "(\<And>x. x < fst area \<or> fst area + snd area \<le> x \<Longrightarrow> m x = vmem vm x) \<Longrightarrow> touches area events vm (set_vmem m vm)"
  by (simp add: touches_def but_data_def set_vmem_def)

lemma touches_bytes:
  "fst area = ADDRESS_AFTER_HEADER x \<Longrightarrow> int (length bs) \<le> snd area \<Longrightarrow> touches area events vm (put_bytes x bs vm)"
  unfolding put_bytes_def by (intro touches_memory store_bytes_outside) linarith

lemma touches_double:
  "touches (a, 8) events vm (set_vmem (store_double (vmem vm) a d) vm)"
  by (rule touches_memory) (auto simp: store_double_def store_def)

lemma well_typed_None [simp]: "well_typed area events vm None"
  by (simp add: well_typed_def)

lemma well_typed_return [simp]:
  "well_typed area events vm (EXT_RETURN v vm' os) \<longleftrightarrow> touches area events vm vm' \<and> immediate v"
  by (simp add: well_typed_def EXT_RETURN_def)

lemma well_typed_exception [simp]:
  "well_typed area events vm (EXT_EXCEPTION vm' os) \<longleftrightarrow>
     touches area events vm vm' \<and> Sextension_valueS vm' = Sextension_valueS vm"
  by (simp add: well_typed_def EXT_EXCEPTION_def)

lemma well_typed_bind: "(\<And>x. r = Some x \<Longrightarrow> well_typed area events vm (f x)) \<Longrightarrow> well_typed area events vm (Option.bind r f)"
  by (cases r) simp_all

lemma extension_value_kept [simp]:
  "Sextension_valueS (set_vmem m vm) = Sextension_valueS vm"
  "Sextension_valueS (vm_say line vm) = Sextension_valueS vm" "Sextension_valueS (put_bytes x bs vm) = Sextension_valueS vm"
  by (simp_all add: set_vmem_def vm_say_def put_bytes_def)

lemma immediates [simp]:
  "immediate (ENTER_FIXNUM n)" "immediate (enter_int i)" "immediate (ENTER_BOOLEAN b)"
  "immediate SCHFALSE" "immediate SCHTRUE" "immediate SCHUNSPECIFIC"
proof -
  have "3 AND push_bit 2 n = 0" for n :: long by (simp add: three_and_eq uint_push_bit2 mod_mod_cancel)
  then have "FIXNUMP (ENTER_FIXNUM n)" for n by (simp add: ENTER_FIXNUM_def FIXNUMP_def and.commute)
  then show "immediate (ENTER_FIXNUM n)" "immediate (enter_int i)" by (simp_all add: immediate_def enter_int_def)
  have "IMMEDIATEP SCHFALSE" "IMMEDIATEP SCHTRUE" "IMMEDIATEP SCHUNSPECIFIC" by code_simp+
  then show "immediate SCHFALSE" "immediate SCHTRUE" "immediate SCHUNSPECIFIC" "immediate (ENTER_BOOLEAN b)"
    by (simp_all add: immediate_def ENTER_BOOLEAN_def)
qed

subsection \<open>Each of the cases\<close>

lemmas ext_cases = ext_stream_socket_def ext_bind_def ext_descriptor_def ext_accept_def ext_connect_def
  ext_nodelay_def ext_getenv_def ext_setuid_def ext_chroot_def ext_dup_def ext_descriptor_number_def
  ext_gethostname_def ext_gethostbyname_def ext_time_def ext_system_def ext_nonblocking_def

lemma well_typed_sockets:
  "well_typed area False vm (ext_stream_socket lib vm os)" "well_typed area False vm (ext_bind lib value vm os)"
  "well_typed area True vm (ext_accept lib value vm os)" "well_typed area True vm (ext_connect lib value vm os)"
  "well_typed area False vm (ext_nodelay lib value vm os)"
  by (auto simp: ext_cases Let_def split: prod.split intro!: well_typed_bind)

lemma well_typed_system:
  "well_typed area False vm (ext_setuid lib value vm os)" "well_typed area False vm (ext_chroot lib value vm os)"
  "well_typed area False vm (ext_dup lib value vm os)" "well_typed area False vm (ext_descriptor_number value vm os)"
  "well_typed area False vm (ext_system lib value vm os)" "well_typed area False vm (ext_nonblocking lib value vm os)"
  by (auto simp: ext_cases Let_def split: prod.split option.split intro!: well_typed_bind)

lemma well_typed_getenv:
  assumes "fitting_strings lib"
  shows "well_typed (string_area (CDR (vmem vm) value) vm) False vm (ext_getenv lib value vm os)"
proof -
  have "touches (string_area x vm) False vm (put_bytes x r vm)"
    if "getenv lib name os = Some r" "\<not> STRING_LENGTH (vmem vm) x < word_of_nat (length r)" for x name r
  proof (rule touches_bytes)
    have "uint (word_of_nat (length r) :: long) = int (length r)"
      using assms that(1) uint_word_of_int_id [of "int (length r)"] by (fastforce simp: fitting_strings_def)
    then show "int (length r) \<le> snd (string_area x vm)"
      using that(2) by (simp add: string_area_def word_less_def)
  qed (simp add: string_area_def)
  then show ?thesis by (auto simp: ext_cases Let_def split: option.split intro!: well_typed_bind)
qed

lemma well_typed_gethostname:
  assumes "fitting_strings lib"
  shows "well_typed (string_area value vm) False vm (ext_gethostname lib value vm os)"
proof -
  obtain st bs where g: "gethostname lib (STRING_LENGTH (vmem vm) value) os = (st, bs)" by fastforce
  then have "int (length bs) \<le> uint (STRING_LENGTH (vmem vm) value)"
    using assms by (simp add: fitting_strings_def) (metis snd_conv)
  then have "touches (string_area value vm) False vm (put_bytes value bs vm)"
    by (intro touches_bytes) (simp_all add: string_area_def)
  then show ?thesis by (auto simp: ext_cases Let_def g intro!: well_typed_bind)
qed

lemma well_typed_gethostbyname:
  assumes "fitting_strings lib"
  shows "well_typed (string_area value vm) False vm (ext_gethostbyname lib value vm os)"
proof -
  have "touches (string_area value vm) False vm (put_bytes value r vm)"
    if "sys_gethostbyname (net lib) name os = Some (e, r)" "\<not> STRING_LENGTH (vmem vm) value <s word_of_nat (length r)" for name e r
  proof (rule touches_bytes)
    have "int (length r) < 2147483648" using assms that(1) by (fastforce simp: fitting_strings_def)
    then have "sint (word_of_nat (length r) :: long) = int (length r)" using sint_of_long [of "int (length r)"] by simp
    then have "int (length r) \<le> sint (STRING_LENGTH (vmem vm) value)" using that(2) by (simp add: word_sless_alt)
    then show "int (length r) \<le> snd (string_area value vm)"
      using sint_nonneg [of "STRING_LENGTH (vmem vm) value"] by (simp add: string_area_def)
  qed (simp add: string_area_def)
  then show ?thesis by (auto simp: ext_cases Let_def split: option.split intro!: well_typed_bind)
qed

lemma well_typed_time: "well_typed (string_area value vm) False vm (ext_time lib value vm os)"
proof -
  have "touches (string_area value vm) False vm
      (put_bytes value (take (nat (min n (sint (STRING_LENGTH (vmem vm) value)))) bs) vm)" for n bs
  proof (rule touches_bytes)
    define l where "l = STRING_LENGTH (vmem vm) value"
    have "sint l \<le> uint l" using sint_nonneg [of l] uint_ge_0 [of l] by linarith
    then have n: "int (nat (min n (sint l))) \<le> uint l" using uint_ge_0 [of l] by linarith
    have t: "int (length (take k bs)) \<le> int k" for k by simp
    show "int (length (take (nat (min n (sint (STRING_LENGTH (vmem vm) value)))) bs)) \<le> snd (string_area value vm)"
      unfolding string_area_def l_def [symmetric] snd_conv by (rule order_trans [OF t n])
  qed (simp add: string_area_def)
  then show ?thesis by (auto simp: ext_cases Let_def split: option.split)
qed

lemma well_typed_set_float: "immediate v \<Longrightarrow> well_typed (float_area args i vm) False vm (set_float_arg args i d v vm os)"
  using touches_double by (simp add: set_float_arg_def Let_def float_area_def)

lemma well_typed_flops:
  "well_typed (float_area value 2 vm) False vm (flop_binary f value vm os)" "well_typed area False vm (flop_compare g value vm os)"
  "well_typed (float_area value 1 vm) False vm (flop_unary h value vm os)"
  "well_typed (float_area value 1 vm) False vm (flop_of_fixnum fl value vm os)"
  "well_typed (float_area value 1 vm) False vm (flop_of_string fl value vm os)"
  "well_typed area False vm (flop_integer fl value vm os)" "well_typed area False vm (flop_to_fixnum fl value vm os)"
  by (auto simp: flop_binary_def flop_compare_def flop_unary_def flop_of_fixnum_def flop_of_string_def
      flop_integer_def flop_to_fixnum_def Let_def well_typed_set_float split: option.split intro!: well_typed_bind)

lemma well_typed_to_string: "well_typed (text_area fl value vm) False vm (flop_to_string fl value vm os)"
proof -
  have "touches (text_area fl value vm) False vm (put_bytes (STOB_REF (vmem vm) value 1) (fl_print fl x @ [0]) vm)"
    if "get_float_arg vm value 0 = Some x" for x
    using that by (intro touches_bytes) (simp_all add: text_area_def)
  then show ?thesis by (auto simp: flop_to_string_def Let_def split: option.split)
qed

lemma well_typed_if: "(b \<Longrightarrow> well_typed A e vm r) \<Longrightarrow> (\<not> b \<Longrightarrow> well_typed A e vm s) \<Longrightarrow> well_typed A e vm (if b then r else s)"
  by simp

lemma well_typed_flop: "well_typed (flop_area fl i value vm) False vm (flop fl i value vm os)"
  unfolding flop_def
  by (intro well_typed_if) (simp_all add: flop_area_def well_typed_flops well_typed_to_string)

text \<open>
  Property C22. Whatever an extension does, the byte code finds its registers and the limits of the
  heap as they were: nothing has been allocated. Of the memory, the stack and the heap, all bytes are
  as they were except those of the string or floating point number that the extension is given for its
  result, for most extensions none; \<open>float->string\<close> alone may write behind the end of its
  string. The event queues change only when a connection is accepted or made. The status is 0 with a value that is
  an immediate or a fixnum, never a pointer, or 1 with the value left alone. When the process ends, or
  a string without an end is read, there is no result (\<open>None\<close>).
\<close>

theorem extension_type:
  assumes "fitting_strings lib"
  shows "well_typed (extension_area fl key value vm) (key = 22 \<or> key = 23) vm (extended_vm lib fl key value vm os)"
proof -
  have "well_typed (extension_area fl key value vm) False vm (flop fl (key - 100) value vm os)" if "100 \<le>s key" "key \<le>s 122"
    using that well_typed_flop [where i = "key - 100"] by (auto simp: extension_area_def)
  moreover have "flop fl (key - 100) value vm os = EXT_EXCEPTION vm os" if "\<not> (100 \<le>s key \<and> key \<le>s 122)"
    using that by (auto simp: flop_def)
  ultimately have "well_typed (extension_area fl key value vm) False vm (flop fl (key - 100) value vm os)"
    by (metis well_typed_exception touches_refl)
  then show ?thesis
    unfolding extended_vm_def
    by (intro well_typed_if) (simp_all add: extension_area_def well_typed_sockets well_typed_system well_typed_getenv
        well_typed_gethostname well_typed_gethostbyname well_typed_time assms)
qed

text \<open>A string of four characters at 100 gets the time.\<close>

definition demo_libc :: "unit libc" where
  "demo_libc = \<lparr>net = demo_net, new_fd = (\<lambda>_. None), getenv = (\<lambda>_ _. None), setgid = (\<lambda>_ os. (0, os)), setuid = (\<lambda>_ os. (0, os)),
     chroot = (\<lambda>_ os. (0, os)), dup = (\<lambda>_ os. ((4, 0), os)), gethostname = (\<lambda>_ _. (0, [])), ctime = (\<lambda>_. Some [65, 66, 10]),
     system_command = (\<lambda>_ os. (0, os)), set_nonblocking = (\<lambda>_ os. (0, os)), pipe = (\<lambda>os. ((None, 24), os)),
     waitpid = (\<lambda>_ _ os. (((- 1, 0), 10), os)), fork = (\<lambda>os. ((- 1, 11), os)), close_call = (\<lambda>_ os. ((0, 0), os)),
     kill = (\<lambda>_ _ os. ((0, 0), os)), execv = (\<lambda>_ _ _. None), strerror = (\<lambda>_. []), perror = (\<lambda>s _. s), herror = (\<lambda>_. [])\<rparr>"

lemma extension_type_witness:
  "\<forall>fl. let vm = vm_zero (heap_zero (store (\<lambda>_. 0) 96 1358)) events_init
     in \<exists>vm'. extended_vm demo_libc fl 33 (stob_at 100) vm () = Some (0, vm', ()) \<and> vmem vm' 100 = 65 \<and>
          (\<forall>x. x < 100 \<or> 104 \<le> x \<longrightarrow> vmem vm' x = vmem vm x)"
proof
  fix fl
  let ?x = "stob_at 100"
  define vm where "vm = vm_zero (heap_zero (store (\<lambda>_. 0) 96 1358)) events_init"
  have "load (vmem vm) 96 = 1358" by (simp add: vm_def vm_zero_def heap_zero_def)
  then have h: "STOB_HEADER (vmem vm) ?x = 1358" by (simp add: STOB_HEADER_def STOB_REF_def)
  have "STOBP ?x" "sar 2 1358 AND 31 = stobtype_code STOBTYPE_STRING" by code_simp+
  then have s: "STRINGP (vmem vm) ?x" by (simp add: stob_has_type_def STOB_TYPE_def h)
  have l: "STRING_LENGTH (vmem vm) ?x = 4" by (simp only: STRING_LENGTH_def STOB_BLENGTH_def h, code_simp)
  have "fitting_strings demo_libc" by (simp add: fitting_strings_def demo_libc_def demo_net_def)
  from extension_type [OF this, of fl 33 ?x vm "()"]
  have "well_typed (100, 4) False vm (extended_vm demo_libc fl 33 ?x vm ())"
    by (simp add: extension_area_def string_area_def l)
  moreover have "extended_vm demo_libc fl 33 ?x vm () = EXT_RETURN (enter_int 2) (put_bytes ?x [65, 66] vm) ()"
    by (simp add: extended_vm_def ext_time_def s l demo_libc_def)
  moreover have "vmem (put_bytes ?x [65, 66] vm) 100 = 65" by (simp add: put_bytes_def set_vmem_def)
  ultimately show "let vm = vm_zero (heap_zero (store (\<lambda>_. 0) 96 1358)) events_init
     in \<exists>vm'. extended_vm demo_libc fl 33 ?x vm () = Some (0, vm', ()) \<and> vmem vm' 100 = 65 \<and>
          (\<forall>x. x < 100 \<or> 104 \<le> x \<longrightarrow> vmem vm' x = vmem vm x)"
    by (simp add: vm_def [symmetric] well_typed_def EXT_RETURN_def touches_def Let_def)
qed

end
