(* ===== verification/Spec2Isabelle.thy ===== *)
theory Spec2Isabelle
  imports Image_Properties Sockets Dynamo Main_C Vm_Run Vm_Continuations_Facts Vm_Calls_Facts Vm_Interrupts_Facts
    Vm_Arith_Facts Vm_Lists_Facts Vm_Transmit_Facts Vm_Proxies_Facts Vm_Channel_Queue Extension_Facts
begin

text \<open>
  A verification development for the C code of Kali Scheme 48 (\<open>src/c\<close>): the storage manager,
  the run-time support and the byte-code virtual machine. The names of the definitions are
  those of the C code, with \<open>S\<close> and \<open>B\<close> where the code has them for stars and exclamation
  marks; labels of the generated code are named in the manifest.

  \<^bold>\<open>Machine.\<close> The port is an ILP32 one, as the code assumes: \<open>int\<close>, \<open>long\<close> and pointers have 32
  bits and a cell has four bytes, little-endian. A \<open>long\<close> is a word of 32 bits that wraps
  (\<open>Prelude\<close>), an address an integer, the store a function from addresses to bytes
  (\<open>Memory\<close>). Reads outside of the blocks the program owns have a value in the model where C
  has none; the theorems that need it assume the layout that excludes them.

  \<^bold>\<open>Data\<close> (\<open>Descriptors\<close>: \<open>kali.h\<close>). A descriptor has a tag in its two low bits: fixnum,
  immediate, header or pointer to a stored object. A stored object is a header, with its type
  and length in bytes, and the cells after it.

  \<^bold>\<open>Storage manager\<close> (\<open>scheme48heap.c\<close>). \<open>Heap_State\<close> holds its static variables as a record
  and allocation; \<open>Heap_Copy\<close> the copying of one object, with weak pointers in their chunks, and
  the tracing of a range; \<open>Heap_GC\<close> the whole collection. \<open>Heap_Cheney\<close>, \<open>Heap_Scan\<close> and
  \<open>Heap_Wf\<close> show why it is right: the invariant of the scan (the copies scanned point to
  copies, the others still to the old space), that the copies fit, so that the scan finishes,
  and that what is left is an isomorphic copy of exactly what the roots reach, in a
  well-formed heap again. \<open>Heap_Find\<close> is \<open>find_all\<close> and \<open>find_all_records\<close>.

  \<^bold>\<open>Images\<close> (\<open>scheme48heap.c\<close>). \<open>Image_Header\<close>, \<open>Image_Read\<close> and \<open>Image_Write\<close> are
  \<open>check_image_header\<close>, \<open>read_image\<close> and \<open>write_image\<close> over the streams of \<open>io.c\<close> (\<open>Ps_Io\<close>,
  \<open>Ps_Io_Facts\<close>, \<open>Plain_Streams\<close>); \<open>Image_Cells\<close>, \<open>Image_Restore\<close>, \<open>Image_Dump\<close>,
  \<open>Image_Roundtrip\<close> and \<open>Image_Properties\<close> show that an image in either byte order is restored,
  that writing keeps the running heap, and that what is written is read back.

  \<^bold>\<open>Run-time support\<close> (\<open>src/c/unix\<close>, \<open>main.c\<close>). \<open>Events\<close> models \<open>event.c\<close> at the level of its
  linked queues; \<open>Events_Queue\<close>, \<open>Events_Refine\<close> and \<open>Events_Facts\<close> refine them to lists. \<open>Fd_Io\<close>, \<open>Files\<close>, \<open>Sockets\<close>,
  \<open>Dynamo\<close>, \<open>Filenames\<close> and \<open>Main_C\<close> are the files of these names (and \<open>misc.c\<close>), with the
  system calls as parameters.

  \<^bold>\<open>Virtual machine\<close> (\<open>scheme48vm.c\<close>). \<open>Vm_State\<close> holds the registers, the stack in the store
  and the ways a byte code ends (\<open>outcome\<close>: the labels of \<open>restart\<close>, the dispatch on the next byte code
  among them). \<open>Vm_Continuations\<close> pushes frames, counts arguments, raises exceptions and moves the
  stack to the heap and back; \<open>Vm_Collect\<close> starts a collection from the machine's roots. The byte codes
  are in \<open>Vm_Control\<close> (0 to 42: variables, closures, calls, jumps), \<open>Vm_Arith\<close> (numbers and
  characters), \<open>Vm_Data\<close> (stored objects), \<open>Vm_Lists\<close> (the search of a list, lists of arguments), \<open>Vm_Channels\<close>
  (channels, ports, images and messages), \<open>Vm_Misc\<close> (registers, searches, the symbol table, time,
  foreign procedures), \<open>Vm_Transmit\<close> and \<open>Vm_Receive\<close> (objects as messages for another address
  space). \<open>Vm_Calls\<close> is the application of procedures by their protocols and the return of values,
  \<open>Vm_Interrupts\<close> events, interrupts and the calls of handlers, \<open>Vm_Start\<close> the start of the machine;
  \<open>Vm_Run\<close> puts the 163 byte codes in their order and runs the machine from \<open>restart\<close> to its end.

  \<^bold>\<open>Facts of the machine.\<close> \<open>Vm_Arith_Facts\<close> shows the arithmetic equal to that of the integers,
  \<open>Vm_Lists_Facts\<close> that the check of an argument list returns on every memory,
  \<open>Vm_Continuations_Facts\<close> that a frame pushed is restored, \<open>Vm_Calls_Facts\<close> that the fast path of a
  call is the general one, \<open>Vm_Interrupts_Facts\<close> that no event is lost, that the right interrupt is handled
  and that it is transparent, \<open>Vm_Channel_Queue\<close> that completions are delivered in order (the queue
  satisfies the contract of \<open>Events_Queue\<close>), \<open>Vm_Transmit_Facts\<close> that encoding ends, within the heap if
  there is room for four cells, and that what is encoded is found in the message as the receiver
  has it; \<open>Vm_Proxies_Facts\<close> that the counts of proxies are conserved on the way.

  \<^bold>\<open>Extensions\<close> (\<open>extension.c\<close>). \<open>Extension\<close> holds the cases of \<open>extended_vm\<close> and the external procedures
  for system calls, with the C library and floating point as parameters; \<open>Extension_Facts\<close>
  shows that the former change no register, that they write only the object they are given for their
  result, and that they return no pointer.

  \<^bold>\<open>Interaction.\<close> The machine calls the storage manager (\<open>availableP\<close>, \<open>allocate_space\<close>, the collection
  from its roots), the event queues (\<open>get_next_event\<close>, \<open>wait_for_event\<close>), the channels
  of \<open>Fd_Io\<close> and the images; \<open>Main_C\<close> reads the image and starts the machine. The signal handlers share
  two flags with it, in \<open>vevents\<close>. What lies outside is the record \<open>world\<close> of \<open>Vm_Run\<close>:
  the texts of errors, \<open>select\<close>, the files, the clocks, foreign procedures, the look-up of names and the
  extensions, for which \<open>vm_extensions\<close> is an instance.

  \<^bold>\<open>Loops.\<close> A loop that may not end is a \<open>partial_function\<close> with values in an option, so that a
  result is a proof that it ends; \<open>None\<close> also stands for the exit of the process. The loops of
  the collector, of the images, of the argument check and of the encoding of messages are shown to
  end. No fuel is used.

  \<^bold>\<open>Not modelled.\<close> The floating point and bignum procedures, which are in Scheme; the sources
  in Scheme the virtual machine is generated from, and the compiler for them; the report of the
  identifications of templates after an error nobody handles (\<open>loseD0\<close>), which only prints; the variants
  chosen at compile time for static heap areas and for other systems (\<open>fake\<close>); the headers
  generated by \<open>configure\<close>. The lines of \<open>scheme48vm.c\<close> that no definition names are the declarations
  of the temporaries and return tags of the generated code, and the parts of a byte code that are not
  next to its \<open>case\<close>.
\<close>

end
